(* ===== verification/Prelude.thy ===== *)
theory Prelude
  imports Main "HOL-Library.Word" "HOL-Library.Sublist"
begin

text \<open>
  The shared vocabulary of the development: names for the machine types of the Go sources, the
  result type used wherever a Go function returns an error, and the generic lemmas on lists and
  results that the component theories rewrite with.

  A Go \<open>string\<close> or \<open>[]byte\<close> is a \<open>char list\<close>, one \<open>char\<close> per byte. A fixed-width unsigned
  integer is a word of that width. A Go function that returns \<open>(T, error)\<close> is a function into
  \<open>'e + 'a\<close>: \<open>Inl\<close> holds the error (or the run-time panic, which is a constructor of the
  component's error type), \<open>Inr\<close> the value.
\<close>

type_synonym bytes = "char list"
type_synonym u8 = "8 word"
type_synonym u16 = "16 word"
type_synonym u32 = "32 word"
type_synonym u64 = "64 word"
type_synonym ('e, 'a) result = "'e + 'a"

text \<open>A Go \<open>int\<close> or \<open>int64\<close> is an \<open>int\<close>; where an operation can leave the 64-bit range, its result is wrapped.\<close>

definition wrap_int64 :: "int \<Rightarrow> int" where
  "wrap_int64 i = (i + 2 ^ 63) mod 2 ^ 64 - 2 ^ 63"

lemma wrap_int64_range: "- (2 ^ 63) \<le> wrap_int64 i \<and> wrap_int64 i < 2 ^ 63"
  by (simp add: wrap_int64_def)

lemma wrap_int64_id: "- (2 ^ 63) \<le> i \<Longrightarrow> i < 2 ^ 63 \<Longrightarrow> wrap_int64 i = i"
  by (simp add: wrap_int64_def)

named_theorems go_eval \<open>definitions to unfold when a closed term is evaluated\<close>
named_theorems result_simps \<open>rules for error results\<close>

subsection \<open>Results\<close>

definition bind_res :: "('e, 'a) result \<Rightarrow> ('a \<Rightarrow> ('e, 'b) result) \<Rightarrow> ('e, 'b) result" where
  "bind_res r f = (case r of Inl e \<Rightarrow> Inl e | Inr x \<Rightarrow> f x)"

lemma bind_res_Inl [simp]: "bind_res (Inl e) f = Inl e"
  by (simp add: bind_res_def)

lemma bind_res_Inr [simp]: "bind_res (Inr x) f = f x"
  by (simp add: bind_res_def)

text \<open>Evaluation goes strictly: the continuation is looked at once its argument is known.\<close>

lemma bind_res_cong: "r = r' \<Longrightarrow> bind_res r f = bind_res r' f"
  by simp

lemmas strict_congs = bind_res_cong let_weak_cong

lemma bind_res_eq_Inr [result_simps]:
  "bind_res r f = Inr y \<longleftrightarrow> (\<exists>x. r = Inr x \<and> f x = Inr y)"
  by (cases r) auto

lemma bind_res_eq_Inl [result_simps]:
  "bind_res r f = Inl e \<longleftrightarrow> r = Inl e \<or> (\<exists>x. r = Inr x \<and> f x = Inl e)"
  by (cases r) auto

lemma case_sum_eq_Inr [result_simps]:
  "case_sum f g r = Inr y \<longleftrightarrow> (\<exists>e. r = Inl e \<and> f e = Inr y) \<or> (\<exists>x. r = Inr x \<and> g x = Inr y)"
  by (cases r) auto

text \<open>A loop whose body can fail: it stops at the first error.\<close>

fun fold_res :: "('a \<Rightarrow> 's \<Rightarrow> ('e, 's) result) \<Rightarrow> 'a list \<Rightarrow> 's \<Rightarrow> ('e, 's) result" where
  "fold_res f [] s = Inr s"
| "fold_res f (x # xs) s = bind_res (f x s) (fold_res f xs)"

lemma fold_res_append [simp]:
  "fold_res f (xs @ ys) s = bind_res (fold_res f xs s) (fold_res f ys)"
proof (induction xs arbitrary: s)
  case Nil
  show ?case by simp
next
  case (Cons x xs)
  then show ?case by (cases "f x s") auto
qed

lemma fold_res_invariant:
  assumes "fold_res f xs s = Inr t" and "P s"
    and "\<And>x a b. x \<in> set xs \<Longrightarrow> P a \<Longrightarrow> f x a = Inr b \<Longrightarrow> P b"
  shows "P t"
  using assms
proof (induction xs arbitrary: s)
  case Nil
  then show ?case by simp
next
  case (Cons x xs)
  from Cons.prems(1) obtain u where u: "f x s = Inr u" "fold_res f xs u = Inr t"
    by (auto simp: result_simps)
  from Cons.prems(2,3) u(1) have "P u" by auto
  with Cons.IH [OF u(2)] Cons.prems(3) show ?case by auto
qed

subsection \<open>Lists\<close>

lemma takeWhile_eq_self: "(\<And>x. x \<in> set xs \<Longrightarrow> P x) \<Longrightarrow> takeWhile P xs = xs"
  by (induction xs) auto

lemma dropWhile_append_neq:
  "c \<notin> set xs \<Longrightarrow> dropWhile (\<lambda>x. x \<noteq> c) (xs @ c # ys) = c # ys"
  by (induction xs) auto

lemma takeWhile_append_neq:
  "c \<notin> set xs \<Longrightarrow> takeWhile (\<lambda>x. x \<noteq> c) (xs @ c # ys) = xs"
  by (induction xs) auto

lemma dropWhile_hd_id: "xs = [] \<or> \<not> P (hd xs) \<Longrightarrow> dropWhile P xs = xs"
  by (cases xs) auto

lemma dropWhile_Cons_not: "dropWhile P xs = y # ys \<Longrightarrow> \<not> P y"
  by (simp add: dropWhile_eq_Cons_conv)

text \<open>Occurrences before a position: the order in which a list mentions two elements.\<close>

definition precedes :: "'a \<Rightarrow> 'a \<Rightarrow> 'a list \<Rightarrow> bool" where
  "precedes x y xs \<longleftrightarrow> (\<exists>as bs. xs = as @ y # bs \<and> x \<in> set as)"

lemma precedes_snoc:
  "precedes x y xs \<Longrightarrow> precedes x y (xs @ zs)"
  by (auto simp: precedes_def) (metis append.assoc append_Cons)

lemma precedes_new: "x \<in> set xs \<Longrightarrow> precedes x y (xs @ [y])"
  by (auto simp: precedes_def)

end
