(* ===== verification/GoStrings.thy ===== *)
theory GoStrings
  imports Prelude
begin

text \<open>
  The functions of Go's \<open>strings\<close>, \<open>strconv\<close>, \<open>bufio\<close> and \<open>fmt\<close> packages that the sources call,
  on byte strings. Case mapping and white space are those of ASCII: the multi-byte white space and
  letters of Unicode (which \<open>strings.TrimSpace\<close> and \<open>strings.ToLower\<close> also treat) are left alone.
  Everything is executable.
\<close>

subsection \<open>Package strings\<close>

definition is_space :: "char \<Rightarrow> bool" where
  "is_space c \<longleftrightarrow> c = CHR '' '' \<or> c = CHR 0x09 \<or> c = CHR 0x0A \<or> c = CHR 0x0B \<or> c = CHR 0x0C \<or> c = CHR 0x0D"

definition TrimSpace :: "string \<Rightarrow> string" where
  "TrimSpace s = rev (dropWhile is_space (rev (dropWhile is_space s)))"

definition HasPrefix :: "string \<Rightarrow> string \<Rightarrow> bool" where
  "HasPrefix s p \<longleftrightarrow> take (length p) s = p"

definition HasSuffix :: "string \<Rightarrow> string \<Rightarrow> bool" where
  "HasSuffix s p \<longleftrightarrow> length p \<le> length s \<and> drop (length s - length p) s = p"

definition TrimPrefix :: "string \<Rightarrow> string \<Rightarrow> string" where
  "TrimPrefix s p = (if HasPrefix s p then drop (length p) s else s)"

definition TrimSuffix :: "string \<Rightarrow> string \<Rightarrow> string" where
  "TrimSuffix s p = (if HasSuffix s p then take (length s - length p) s else s)"

definition TrimRight :: "string \<Rightarrow> char list \<Rightarrow> string" where
  "TrimRight s cutset = rev (dropWhile (\<lambda>c. c \<in> set cutset) (rev s))"

fun Contains :: "string \<Rightarrow> string \<Rightarrow> bool" where
  "Contains [] p = (p = [])"
| "Contains (c # s) p = (HasPrefix (c # s) p \<or> Contains s p)"

text \<open>\<open>strings.Index(s, c)\<close> for a one-byte pattern; \<open>None\<close> stands for the result -1.\<close>

fun IndexByte :: "string \<Rightarrow> char \<Rightarrow> nat option" where
  "IndexByte [] c = None"
| "IndexByte (x # s) c = (if x = c then Some 0 else map_option Suc (IndexByte s c))"

text \<open>\<open>strings.Split(s, c)\<close> for a one-byte separator: always at least one part.\<close>

fun Split :: "string \<Rightarrow> char \<Rightarrow> string list" where
  "Split [] c = [[]]"
| "Split (x # s) c =
     (if x = c then [] # Split s c
      else (case Split s c of [] \<Rightarrow> [[x]] | p # ps \<Rightarrow> (x # p) # ps))"

text \<open>\<open>strings.SplitN(s, c, 2)\<close> for a one-byte separator.\<close>

definition SplitN2 :: "string \<Rightarrow> char \<Rightarrow> string list" where
  "SplitN2 s c =
     (if c \<in> set s then [takeWhile (\<lambda>x. x \<noteq> c) s, tl (dropWhile (\<lambda>x. x \<noteq> c) s)] else [s])"

fun Join_strings :: "string list \<Rightarrow> string \<Rightarrow> string" where
  "Join_strings [] sep = []"
| "Join_strings [p] sep = p"
| "Join_strings (p # q # ps) sep = p @ sep @ Join_strings (q # ps) sep"

function Fields :: "string \<Rightarrow> string list" where
  "Fields s =
     (let t = dropWhile is_space s
      in if t = [] then []
         else takeWhile (\<lambda>c. \<not> is_space c) t # Fields (dropWhile (\<lambda>c. \<not> is_space c) t))"
  by pat_completeness auto
termination
proof (relation "measure length", goal_cases)
  case 1
  show ?case by simp
next
  case (2 s x)
  then obtain a t where x: "x = a # t" and a: "\<not> is_space a"
    by (metis dropWhile_Cons_not neq_Nil_conv)
  have "length (dropWhile (\<lambda>c. \<not> is_space c) x) < length x"
    using a by (simp add: x le_imp_less_Suc length_dropWhile_le)
  moreover have "length x \<le> length s"
    using 2 by (simp add: length_dropWhile_le)
  ultimately show ?case by simp
qed

declare Fields.simps [simp del]

text \<open>An ASCII letter changes case by bit 5 of its code (32).\<close>

definition to_lower_char :: "char \<Rightarrow> char" where
  "to_lower_char c =
     (if 65 \<le> (of_char c :: nat) \<and> (of_char c :: nat) \<le> 90
      then (case c of Char b0 b1 b2 b3 b4 b5 b6 b7 \<Rightarrow> Char b0 b1 b2 b3 b4 True b6 b7) else c)"

definition to_upper_char :: "char \<Rightarrow> char" where
  "to_upper_char c =
     (if 97 \<le> (of_char c :: nat) \<and> (of_char c :: nat) \<le> 122
      then (case c of Char b0 b1 b2 b3 b4 b5 b6 b7 \<Rightarrow> Char b0 b1 b2 b3 b4 False b6 b7) else c)"

definition ToLower :: "string \<Rightarrow> string" where
  "ToLower s = map to_lower_char s"

definition ToUpper :: "string \<Rightarrow> string" where
  "ToUpper s = map to_upper_char s"

definition EqualFold :: "string \<Rightarrow> string \<Rightarrow> bool" where
  "EqualFold s t \<longleftrightarrow> ToLower s = ToLower t"

subsection \<open>Package strconv\<close>

datatype num_error = ErrSyntax | ErrRange

definition is_digit :: "char \<Rightarrow> bool" where
  "is_digit c \<longleftrightarrow> 48 \<le> (of_char c :: nat) \<and> (of_char c :: nat) \<le> 57"

definition digit_val :: "char \<Rightarrow> nat" where
  "digit_val c = of_char c - 48"

definition decimal_value :: "string \<Rightarrow> int" where
  "decimal_value s = foldl (\<lambda>n c. 10 * n + int (digit_val c)) 0 s"

text \<open>\<open>strconv.ParseUint(s, 10, bits)\<close>: digits only, no sign.\<close>

definition ParseUint10 :: "nat \<Rightarrow> string \<Rightarrow> (num_error, nat) result" where
  "ParseUint10 bits s =
     (if s = [] \<or> \<not> list_all is_digit s then Inl ErrSyntax
      else if decimal_value s < 2 ^ bits then Inr (nat (decimal_value s))
      else Inl ErrRange)"

text \<open>\<open>strconv.ParseInt(s, 10, 64)\<close>, and \<open>strconv.Atoi\<close> on a 64-bit platform.\<close>

definition ParseInt10 :: "string \<Rightarrow> (num_error, int) result" where
  "ParseInt10 s =
     (let neg = HasPrefix s ''-'';
          ds = (if neg \<or> HasPrefix s ''+'' then tl s else s)
      in if ds = [] \<or> \<not> list_all is_digit ds then Inl ErrSyntax
         else let n = decimal_value ds
              in if neg then (if n \<le> 2 ^ 63 then Inr (- n) else Inl ErrRange)
                 else if n < 2 ^ 63 then Inr n else Inl ErrRange)"

definition digit_char :: "nat \<Rightarrow> char" where
  "digit_char d = ''0123456789'' ! d"

function show_nat :: "nat \<Rightarrow> string" where
  "show_nat n = (if n < 10 then [digit_char n] else show_nat (n div 10) @ [digit_char (n mod 10)])"
  by pat_completeness auto
termination
  by (relation "measure id") auto

declare show_nat.simps [simp del]

text \<open>\<open>strconv.FormatInt(n, 10)\<close>, \<open>strconv.Itoa\<close> and the verb \<open>%d\<close>.\<close>

definition show_int :: "int \<Rightarrow> string" where
  "show_int i = (if i < 0 then ''-'' @ show_nat (nat (- i)) else show_nat (nat i))"

text \<open>
  \<open>strconv.Quote\<close>, the verb \<open>%q\<close>, on ASCII input. A byte above 0x7E belongs to a multi-byte
  rune; printable runes are copied, which is what the last case does.
\<close>

definition hex_digit_lower :: "nat \<Rightarrow> char" where
  "hex_digit_lower n = ''0123456789abcdef'' ! n"

definition quote_char :: "char \<Rightarrow> string" where
  "quote_char c =
     (if c = CHR 0x22 then [CHR 0x5C, CHR 0x22]
      else if c = CHR 0x5C then [CHR 0x5C, CHR 0x5C]
      else if c = CHR 0x07 then [CHR 0x5C, CHR ''a'']
      else if c = CHR 0x08 then [CHR 0x5C, CHR ''b'']
      else if c = CHR 0x0C then [CHR 0x5C, CHR ''f'']
      else if c = CHR 0x0A then [CHR 0x5C, CHR ''n'']
      else if c = CHR 0x0D then [CHR 0x5C, CHR ''r'']
      else if c = CHR 0x09 then [CHR 0x5C, CHR ''t'']
      else if c = CHR 0x0B then [CHR 0x5C, CHR ''v'']
      else if (of_char c :: nat) < 32 \<or> (of_char c :: nat) = 127
        then [CHR 0x5C, CHR ''x'', hex_digit_lower (of_char c div 16), hex_digit_lower (of_char c mod 16)]
      else [c])"

definition Quote :: "string \<Rightarrow> string" where
  "Quote s = CHR 0x22 # concat (map quote_char s) @ [CHR 0x22]"

subsection \<open>Package bufio: a line scanner\<close>

definition MaxScanTokenSize :: nat where
  "MaxScanTokenSize = 65536"

definition drop_cr :: "string \<Rightarrow> string" where
  "drop_cr l = (if l \<noteq> [] \<and> last l = CHR 0x0D then butlast l else l)"

text \<open>The lines of the input before the token limit applies: the text after the last newline is a line when it is not empty.\<close>

definition raw_lines :: "string \<Rightarrow> string list" where
  "raw_lines s = (let ps = Split s CHR 0x0A in if last ps = [] then butlast ps else ps)"

text \<open>
  \<open>for scanner.Scan() { scanner.Text() }\<close> over an input that ends without a read error: the lines
  delivered, and whether \<open>scanner.Err()\<close> is \<open>bufio.ErrTooLong\<close> afterwards. A line is too long
  when the first 64 KiB from its start hold no newline.
\<close>

definition scan_lines :: "string \<Rightarrow> string list \<times> bool" where
  "scan_lines s =
     (map drop_cr (takeWhile (\<lambda>l. length l < MaxScanTokenSize) (raw_lines s)),
      \<not> list_all (\<lambda>l. length l < MaxScanTokenSize) (raw_lines s))"

declare is_space_def [go_eval] TrimSpace_def [go_eval] HasPrefix_def [go_eval] HasSuffix_def [go_eval]
  TrimPrefix_def [go_eval] TrimSuffix_def [go_eval] TrimRight_def [go_eval] SplitN2_def [go_eval]
  to_lower_char_def [go_eval] to_upper_char_def [go_eval] ToLower_def [go_eval] ToUpper_def [go_eval]
  EqualFold_def [go_eval] is_digit_def [go_eval] digit_val_def [go_eval] decimal_value_def [go_eval]
  ParseUint10_def [go_eval] ParseInt10_def [go_eval] digit_char_def [go_eval] show_nat.simps [go_eval]
  show_int_def [go_eval] hex_digit_lower_def [go_eval] quote_char_def [go_eval] Quote_def [go_eval]
  MaxScanTokenSize_def [go_eval] drop_cr_def [go_eval] raw_lines_def [go_eval] scan_lines_def [go_eval]
  Fields.simps [go_eval] Let_def [go_eval] wrap_int64_def [go_eval]

subsection \<open>Laws\<close>

lemma HasPrefix_iff: "HasPrefix s p \<longleftrightarrow> (\<exists>t. s = p @ t)"
  by (auto simp: HasPrefix_def) (metis append_take_drop_id)

lemma HasPrefix_append [simp]: "HasPrefix (p @ t) p"
  by (simp add: HasPrefix_def)

lemma HasPrefix_single [simp]: "HasPrefix s [c] \<longleftrightarrow> s \<noteq> [] \<and> hd s = c"
  by (cases s) (auto simp: HasPrefix_def)

lemma HasSuffix_iff: "HasSuffix s p \<longleftrightarrow> (\<exists>t. s = t @ p)"
proof
  assume "HasSuffix s p"
  then have "s = take (length s - length p) s @ p"
    by (metis HasSuffix_def append_take_drop_id)
  then show "\<exists>t. s = t @ p" ..
qed (auto simp: HasSuffix_def)

lemma HasSuffix_append [simp]: "HasSuffix (t @ p) p"
  by (auto simp: HasSuffix_iff)

lemma HasSuffix_single [simp]: "HasSuffix s [c] \<longleftrightarrow> s \<noteq> [] \<and> last s = c"
  by (cases s rule: rev_cases) (auto simp: HasSuffix_iff)

lemma TrimSpace_id:
  assumes "s = [] \<or> \<not> is_space (hd s) \<and> \<not> is_space (last s)"
  shows "TrimSpace s = s"
proof (cases s)
  case Nil
  then show ?thesis by (simp add: TrimSpace_def)
next
  case (Cons c t)
  with assms have "dropWhile is_space s = s" by simp
  moreover have "dropWhile is_space (rev s) = rev s"
    using assms Cons by (intro dropWhile_hd_id) (simp add: hd_rev del: rev.simps)
  ultimately show ?thesis by (simp add: TrimSpace_def)
qed

lemma TrimSpace_Nil [simp]: "TrimSpace [] = []"
  by (simp add: TrimSpace_def)

lemma TrimSpace_ends:
  "TrimSpace s = [] \<or> \<not> is_space (hd (TrimSpace s)) \<and> \<not> is_space (last (TrimSpace s))"
proof (cases "TrimSpace s = []")
  case False
  let ?t = "dropWhile is_space s"
  let ?r = "dropWhile is_space (rev ?t)"
  from False have r: "?r \<noteq> []" by (simp add: TrimSpace_def)
  then obtain y ys where y: "?r = y # ys" by (cases ?r) auto
  then have "\<not> is_space y" by (rule dropWhile_Cons_not)
  moreover have "last (TrimSpace s) = y" using y by (simp add: TrimSpace_def)
  moreover have "hd (TrimSpace s) = hd ?t"
  proof -
    obtain zs where "rev ?t = zs @ ?r" by (metis takeWhile_dropWhile_id)
    then have "?t = rev ?r @ rev zs" by (metis rev_append rev_rev_ident)
    with r show ?thesis by (metis TrimSpace_def hd_append rev_is_Nil_conv)
  qed
  moreover have "\<not> is_space (hd ?t)"
    using r by (cases ?t) (auto dest: dropWhile_Cons_not)
  ultimately show ?thesis by simp
qed simp

lemma TrimSpace_idem [simp]: "TrimSpace (TrimSpace s) = TrimSpace s"
  by (rule TrimSpace_id) (rule TrimSpace_ends)

lemma TrimSpace_space_left: "is_space c \<Longrightarrow> TrimSpace (c # s) = TrimSpace s"
  by (simp add: TrimSpace_def)

lemma TrimSpace_space_right: "is_space c \<Longrightarrow> TrimSpace (s @ [c]) = TrimSpace s"
  by (cases "\<forall>x\<in>set s. is_space x")
    (auto simp: TrimSpace_def dropWhile_append dropWhile_eq_Nil_conv [THEN iffD2])

lemma TrimSpace_Cons: "\<not> is_space c \<Longrightarrow> \<exists>t. TrimSpace (c # s) = c # t"
proof -
  assume c: "\<not> is_space c"
  then have "\<exists>u. dropWhile is_space (rev s @ [c]) = u @ [c]"
    by (cases "\<forall>x\<in>set (rev s). is_space x") (auto simp: dropWhile_append)
  then obtain u where "dropWhile is_space (rev s @ [c]) = u @ [c]" ..
  with c have "TrimSpace (c # s) = c # rev u" by (simp add: TrimSpace_def)
  then show ?thesis ..
qed

lemma Split_neq_Nil [simp]: "Split s c \<noteq> []"
  by (induction s c rule: Split.induct) (auto split: list.splits)

lemma Split_no_sep: "c \<notin> set s \<Longrightarrow> Split s c = [s]"
  by (induction s) auto

lemma Split_append_sep: "c \<notin> set p \<Longrightarrow> Split (p @ c # s) c = p # Split s c"
  by (induction p) auto

lemma Split_parts_no_sep: "p \<in> set (Split s c) \<Longrightarrow> c \<notin> set p"
  by (induction s arbitrary: p) (auto split: list.splits if_splits)

lemma Join_Split: "Join_strings (Split s c) [c] = s"
proof (induction s)
  case Nil
  show ?case by simp
next
  case (Cons x s)
  show ?case
  proof (cases "Split s c")
    case Nil
    then show ?thesis by simp
  next
    case (Cons p ps)
    with Cons.IH show ?thesis by (cases ps) auto
  qed
qed

lemma SplitN2_sep: "c \<notin> set k \<Longrightarrow> SplitN2 (k @ c # v) c = [k, v]"
  by (simp add: SplitN2_def takeWhile_append_neq dropWhile_append_neq)

lemma raw_lines_line:
  assumes "CHR 0x0A \<notin> set l"
  shows "raw_lines (l @ CHR 0x0A # s) = l # raw_lines s"
  using assms by (simp add: raw_lines_def Split_append_sep Let_def)

lemma raw_lines_Nil [simp]: "raw_lines [] = []"
  by (simp add: raw_lines_def)

lemma raw_lines_concat:
  "\<forall>l \<in> set ls. CHR 0x0A \<notin> set l \<Longrightarrow> raw_lines (concat (map (\<lambda>l. l @ [CHR 0x0A]) ls)) = ls"
  by (induction ls) (simp_all add: raw_lines_line)

text \<open>Lines of moderate length without line breaks of their own are scanned as they are.\<close>

lemma scan_lines_concat:
  assumes "\<forall>l \<in> set ls. CHR 0x0A \<notin> set l \<and> CHR 0x0D \<notin> set l \<and> length l < MaxScanTokenSize"
  shows "scan_lines (concat (map (\<lambda>l. l @ [CHR 0x0A]) ls)) = (ls, False)"
proof -
  have "drop_cr l = l" if "l \<in> set ls" for l
    using assms that last_in_set [of l] unfolding drop_cr_def by metis
  then have "map drop_cr ls = ls" by (simp add: map_idI)
  moreover have "takeWhile (\<lambda>l. length l < MaxScanTokenSize) ls = ls"
    using assms by (intro takeWhile_eq_self) simp
  moreover have "raw_lines (concat (map (\<lambda>l. l @ [CHR 0x0A]) ls)) = ls"
    using assms by (intro raw_lines_concat) simp
  ultimately show ?thesis
    using assms unfolding scan_lines_def by (simp only: list_all_iff) simp
qed

lemma less_10_cases: "(d :: nat) < 10 \<Longrightarrow> d \<in> {0, 1, 2, 3, 4, 5, 6, 7, 8, 9}"
  by auto

lemma digit_val_digit_char [simp]: "d < 10 \<Longrightarrow> digit_val (digit_char d) = d"
  by (drule less_10_cases) (auto simp: digit_val_def digit_char_def)

lemma is_digit_digit_char [simp]: "d < 10 \<Longrightarrow> is_digit (digit_char d)"
  by (drule less_10_cases) (auto simp: is_digit_def digit_char_def)

lemma decimal_value_snoc: "decimal_value (s @ [c]) = 10 * decimal_value s + int (digit_val c)"
  by (simp add: decimal_value_def)

lemma decimal_value_show_nat [simp]: "decimal_value (show_nat n) = int n"
proof (induction n rule: show_nat.induct)
  case (1 n)
  show ?case
  proof (cases "n < 10")
    case True
    then show ?thesis by (simp add: show_nat.simps [of n] decimal_value_def)
  next
    case False
    with "1.IH" have "decimal_value (show_nat n) = 10 * int (n div 10) + int (n mod 10)"
      by (simp add: show_nat.simps [of n] decimal_value_snoc)
    then show ?thesis by presburger
  qed
qed

lemma show_nat_digits [simp]: "list_all is_digit (show_nat n)"
proof (induction n rule: show_nat.induct)
  case (1 n)
  then show ?case by (cases "n < 10") (simp_all add: show_nat.simps [of n])
qed

lemma show_nat_neq_Nil [simp]: "show_nat n \<noteq> []"
  by (simp add: show_nat.simps [of n])

lemma ParseUint10_show_nat:
  assumes "n < 2 ^ bits"
  shows "ParseUint10 bits (show_nat n) = Inr n"
proof -
  from assms have "int n < 2 ^ bits" by (metis of_nat_less_iff of_nat_numeral of_nat_power)
  then show ?thesis by (simp add: ParseUint10_def)
qed

subsection \<open>Assignments of quoted values\<close>

text \<open>Strings that \<open>%q\<close> prints between plain quotes: printable ASCII without quote and backslash.\<close>

definition quotable :: "string \<Rightarrow> bool" where
  "quotable s \<longleftrightarrow>
     list_all (\<lambda>c. 32 \<le> (of_char c :: nat) \<and> (of_char c :: nat) < 127 \<and> c \<noteq> CHR 0x22 \<and> c \<noteq> CHR 0x5C) s \<and>
     length s \<le> 65000"

lemma printable_no_control:
  "32 \<le> (of_char c :: nat) \<Longrightarrow>
     c \<noteq> CHR 0x07 \<and> c \<noteq> CHR 0x08 \<and> c \<noteq> CHR 0x0C \<and> c \<noteq> CHR 0x0A \<and> c \<noteq> CHR 0x0D \<and> c \<noteq> CHR 0x09 \<and> c \<noteq> CHR 0x0B"
  by (intro conjI notI) simp_all

lemma quote_char_plain:
  assumes "32 \<le> (of_char c :: nat)" and "(of_char c :: nat) < 127" and "c \<noteq> CHR 0x22" and "c \<noteq> CHR 0x5C"
  shows "quote_char c = [c]"
  using assms printable_no_control [OF assms(1)] by (simp add: quote_char_def)

lemma Quote_quotable: "quotable s \<Longrightarrow> Quote s = CHR 0x22 # s @ [CHR 0x22]"
proof -
  assume "quotable s"
  then have "\<forall>c \<in> set s. quote_char c = [c]"
    unfolding quotable_def list_all_iff using quote_char_plain by blast
  then have "concat (map quote_char s) = s" by (induction s) simp_all
  then show ?thesis by (simp add: Quote_def)
qed

lemma quotable_no_break: "quotable s \<Longrightarrow> CHR 0x0A \<notin> set s \<and> CHR 0x0D \<notin> set s"
  unfolding quotable_def list_all_iff using printable_no_control by blast

definition newline :: string where
  "newline = [CHR 0x0A]"

text \<open>A line that assigns a quoted value to a key, and how the line readers take it apart.\<close>

definition key_line :: "string \<Rightarrow> string \<Rightarrow> string" where
  "key_line k val = k @ '' = '' @ CHR 0x22 # val @ [CHR 0x22]"

definition word_key :: "string \<Rightarrow> bool" where
  "word_key k \<longleftrightarrow> k \<noteq> [] \<and> \<not> is_space (hd k) \<and> \<not> is_space (last k) \<and> CHR ''='' \<notin> set k"

lemma key_line_reads:
  assumes "word_key k"
  shows "TrimSpace (key_line k val) = key_line k val"
    and "SplitN2 (key_line k val) CHR ''='' = [k @ '' '', CHR '' '' # CHR 0x22 # val @ [CHR 0x22]]"
    and "TrimSpace (k @ '' '') = k"
    and "TrimSpace (CHR '' '' # CHR 0x22 # val @ [CHR 0x22]) = CHR 0x22 # val @ [CHR 0x22]"
proof -
  have k: "k \<noteq> []" "\<not> is_space (hd k)" "\<not> is_space (last k)" "CHR ''='' \<notin> set k"
    using assms by (simp_all add: word_key_def)
  show "TrimSpace (key_line k val) = key_line k val"
    using k by (intro TrimSpace_id) (simp add: key_line_def is_space_def)
  have "key_line k val = (k @ '' '') @ CHR ''='' # CHR '' '' # CHR 0x22 # val @ [CHR 0x22]"
    by (simp add: key_line_def)
  then show "SplitN2 (key_line k val) CHR ''='' = [k @ '' '', CHR '' '' # CHR 0x22 # val @ [CHR 0x22]]"
    using SplitN2_sep [of "CHR ''=''" "k @ '' ''"] k(4) by simp
  show "TrimSpace (k @ '' '') = k"
    using TrimSpace_space_right [of "CHR '' ''" k] TrimSpace_id [of k] k by (simp add: is_space_def)
  show "TrimSpace (CHR '' '' # CHR 0x22 # val @ [CHR 0x22]) = CHR 0x22 # val @ [CHR 0x22]"
    using TrimSpace_space_left [of "CHR '' ''"] TrimSpace_id [of "CHR 0x22 # val @ [CHR 0x22]"] by (simp add: is_space_def)
qed

subsection \<open>Fields of a line\<close>

lemma Fields_skip: "is_space c \<Longrightarrow> Fields (c # s) = Fields s"
  by (subst (1 2) Fields.simps) simp

lemma Fields_word:
  assumes "w \<noteq> []" and "list_all (\<lambda>c. \<not> is_space c) w"
  shows "Fields (w @ CHR '' '' # rest) = w # Fields rest" and "Fields w = [w]"
proof -
  obtain a v where w: "w = a # v" using assms(1) by (cases w) auto
  have a: "\<not> is_space a" and v: "\<forall>x\<in>set v. \<not> is_space x" using assms(2) w by (simp_all add: list_all_iff)
  then have all: "takeWhile (\<lambda>c. \<not> is_space c) v = v" "dropWhile (\<lambda>c. \<not> is_space c) v = []" by auto
  have sp: "is_space CHR '' ''" by (simp add: is_space_def)
  show "Fields (w @ CHR '' '' # rest) = w # Fields rest"
    using v a sp Fields_skip [OF sp, of rest] by (subst Fields.simps) (simp add: w)
  have "Fields [] = []" by (subst Fields.simps) simp
  with a show "Fields w = [w]" by (subst Fields.simps) (simp add: w all)
qed

lemma Fields_spaces: "Fields (replicate n CHR '' '' @ s) = Fields s"
  by (induction n) (simp_all add: Fields_skip is_space_def)

lemma Fields_gap:
  assumes "w \<noteq> []" and "list_all (\<lambda>c. \<not> is_space c) w"
  shows "Fields (w @ replicate n CHR '' '' @ CHR '' '' # rest) = w # Fields rest"
proof -
  have "replicate n CHR '' '' @ CHR '' '' # rest = CHR '' '' # replicate n CHR '' '' @ rest"
    by (simp add: replicate_app_Cons_same)
  then show ?thesis by (simp only: Fields_word(1) [OF assms] Fields_spaces)
qed

end
