(* ===== verification/GoFlag.thy ===== *)
theory GoFlag
  imports GoStrings
begin

text \<open>
  Package \<open>flag\<close>: parsing of a command line into string, boolean and integer flags and positional arguments,
  for the flags a program declares (\<open>kinds\<close>) and a state into which their values are stored.
\<close>

datatype flag_kind = FString | FBool | FInt

datatype flag_error = BadFlagSyntax string | FlagNotDefined string | FlagNeedsArgument string | InvalidBool string string | InvalidInt string string

text \<open>\<open>strconv.ParseBool\<close>\<close>

definition ParseBool :: "string \<Rightarrow> bool option" where
  "ParseBool s =
     (if s \<in> set [''1'', ''t'', ''T'', ''true'', ''TRUE'', ''True''] then Some True
      else if s \<in> set [''0'', ''f'', ''F'', ''false'', ''FALSE'', ''False''] then Some False
      else None)"

text \<open>
  \<open>strconv.ParseInt(s, 0, 64)\<close>: the base is read from a prefix, and underscores may stand between
  digits and after the prefix.
\<close>

definition digit_of :: "char \<Rightarrow> nat" where
  "digit_of c =
     (let n = of_char c; l = of_char (to_lower_char c)
      in if is_digit c then n - 48 else if 97 \<le> l \<and> l \<le> 122 then l - 87 else 36)"

definition base_prefix :: "string \<Rightarrow> nat \<times> string" where
  "base_prefix s =
     (case s of
        c0 # c1 # cs \<Rightarrow>
          (let p = to_lower_char c1
           in if c0 \<noteq> CHR ''0'' then (10, s)
              else if cs \<noteq> [] \<and> p = CHR ''b'' then (2, cs)
              else if cs \<noteq> [] \<and> p = CHR ''o'' then (8, cs)
              else if cs \<noteq> [] \<and> p = CHR ''x'' then (16, cs)
              else (8, c1 # cs))
      | [c] \<Rightarrow> if c = CHR ''0'' then (8, []) else (10, s)
      | [] \<Rightarrow> (10, []))"

text \<open>The underscores of \<open>s\<close> each follow a digit and are followed by one; a base prefix counts as a digit.\<close>

fun underscores_between :: "bool \<Rightarrow> bool \<Rightarrow> string \<Rightarrow> bool" where
  "underscores_between hex digit_before [] = True"
| "underscores_between hex digit_before (c # cs) =
     (if c = CHR ''_'' then digit_before \<and> cs \<noteq> [] \<and> (is_digit (hd cs) \<or> (hex \<and> digit_of (hd cs) < 16)) \<and> underscores_between hex False cs
      else underscores_between hex (is_digit c \<or> (hex \<and> digit_of c < 16)) cs)"

definition underscoreOK :: "string \<Rightarrow> bool" where
  "underscoreOK s =
     (if 2 \<le> length s \<and> hd s = CHR ''0'' \<and> to_lower_char (s ! 1) \<in> set ''box''
      then underscores_between (to_lower_char (s ! 1) = CHR ''x'') True (drop 2 s)
      else underscores_between False False s)"

definition ParseInt0 :: "string \<Rightarrow> (num_error, int) result" where
  "ParseInt0 s0 =
     (let neg = HasPrefix s0 ''-'';
          s = (if neg \<or> HasPrefix s0 ''+'' then tl s0 else s0);
          (base, ds) = base_prefix s;
          digits = filter (\<lambda>c. c \<noteq> CHR ''_'') ds;
          n = foldl (\<lambda>a c. a * int base + int (digit_of c)) 0 digits
      in if s = [] \<or> \<not> list_all (\<lambda>c. digit_of c < base) digits \<or> (CHR ''_'' \<in> set ds \<and> \<not> underscoreOK s) then Inl ErrSyntax
         else if neg then (if n \<le> 2 ^ 63 then Inr (- n) else Inl ErrRange)
         else if n < 2 ^ 63 then Inr n else Inl ErrRange)"

definition value_ok :: "flag_kind \<Rightarrow> string \<Rightarrow> bool" where
  "value_ok k v \<longleftrightarrow> k \<noteq> FInt \<or> (\<exists>n. ParseInt0 v = Inr n)"

lemma value_ok_simps [simp]: "value_ok FString v" "value_ok FBool v"
  "value_ok FInt v \<longleftrightarrow> (case ParseInt0 v of Inl _ \<Rightarrow> False | Inr _ \<Rightarrow> True)"
  by (simp_all add: value_ok_def split: sum.split)

text \<open>A flag name with its value when it is written \<open>name=value\<close>.\<close>

definition split_flag :: "string \<Rightarrow> string \<times> string option" where
  "split_flag name =
     (case name of
        [] \<Rightarrow> ([], None)
      | c # cs \<Rightarrow>
          (case SplitN2 cs CHR ''='' of
             [a, b] \<Rightarrow> (c # a, Some b)
           | _ \<Rightarrow> (name, None)))"

text \<open>The name part of an argument that is a flag: one or two minus signs removed; \<open>None\<close> for a positional argument.\<close>

definition flag_name :: "string \<Rightarrow> string option" where
  "flag_name s =
     (case s of
        c0 # c1 # cs \<Rightarrow> if c0 \<noteq> CHR ''-'' then None else Some (if c1 = CHR ''-'' then cs else c1 # cs)
      | _ \<Rightarrow> None)"

fun parse_flags ::
  "(string \<Rightarrow> flag_kind option) \<Rightarrow> (string \<Rightarrow> string \<Rightarrow> 's \<Rightarrow> 's) \<Rightarrow> (string \<Rightarrow> bool \<Rightarrow> 's \<Rightarrow> 's) \<Rightarrow>
     string list \<Rightarrow> 's \<Rightarrow> (flag_error, 's \<times> string list) result"
where
  "parse_flags kinds setS setB [] s = Inr (s, [])"
| "parse_flags kinds setS setB (a # as) s =
     (case flag_name a of
        None \<Rightarrow> Inr (s, a # as)
      | Some name0 \<Rightarrow>
          if a = ''--'' then Inr (s, as)
          else if name0 = [] \<or> hd name0 = CHR ''-'' \<or> hd name0 = CHR ''='' then Inl (BadFlagSyntax a)
          else
            (case split_flag name0 of (name, val) \<Rightarrow>
               (case kinds name of
                  None \<Rightarrow> Inl (FlagNotDefined name)
                | Some FBool \<Rightarrow>
                    (case val of
                       None \<Rightarrow> parse_flags kinds setS setB as (setB name True s)
                     | Some v \<Rightarrow>
                         (case ParseBool v of
                            None \<Rightarrow> Inl (InvalidBool v name)
                          | Some b \<Rightarrow> parse_flags kinds setS setB as (setB name b s)))
                | Some k \<Rightarrow>
                    (case val of
                       Some v \<Rightarrow>
                         if value_ok k v then parse_flags kinds setS setB as (setS name v s) else Inl (InvalidInt v name)
                     | None \<Rightarrow>
                         (case as of
                            [] \<Rightarrow> Inl (FlagNeedsArgument name)
                          | v # rest \<Rightarrow>
                              if value_ok k v then parse_flags kinds setS setB rest (setS name v s) else Inl (InvalidInt v name))))))"

declare ParseBool_def [go_eval] split_flag_def [go_eval] flag_name_def [go_eval]

end
