(* ===== verification/GoEffects.thy ===== *)
theory GoEffects
  imports Prelude
begin

text \<open>
  Programs that act on the operating system. A call to the system is a value of a component's
  call type; the environment (the kernel, the file system, another process) is a parameter
  \<open>w\<close> that answers a call, given the calls made before it: \<open>None\<close> for success or the text of the
  error. A Go function that returns \<open>error\<close> is an \<open>action\<close>: from the calls made so far to its
  error (\<open>None\<close> for nil) and the calls made when it returns. What a function does to the system
  is thus the list of calls it appends, for every behaviour of the environment.
\<close>

type_synonym 'c world = "'c list \<Rightarrow> 'c \<Rightarrow> string option"
type_synonym ('c, 'e) action = "'c list \<Rightarrow> 'e option \<times> 'c list"

definition ok :: "('c, 'e) action" where
  "ok tr = (None, tr)"

definition fail :: "'e \<Rightarrow> ('c, 'e) action" where
  "fail e tr = (Some e, tr)"

text \<open>\<open>if err := call(...); err != nil { return wrap(err) }\<close>\<close>

definition must :: "'c world \<Rightarrow> 'c \<Rightarrow> (string \<Rightarrow> 'e) \<Rightarrow> ('c, 'e) action" where
  "must w c mk tr = (map_option mk (w tr c), tr @ [c])"

text \<open>\<open>_ = call(...)\<close>\<close>

definition attempt :: "'c \<Rightarrow> ('c, 'e) action" where
  "attempt c tr = (None, tr @ [c])"

definition and_then :: "('c, 'e) action \<Rightarrow> ('c, 'e) action \<Rightarrow> ('c, 'e) action" where
  "and_then m k tr = (case m tr of (None, tr') \<Rightarrow> k tr' | (Some e, tr') \<Rightarrow> (Some e, tr'))"

fun steps :: "('c, 'e) action list \<Rightarrow> ('c, 'e) action" where
  "steps [] = ok"
| "steps (m # ms) = and_then m (steps ms)"

definition ignore_err :: "('c, 'e) action \<Rightarrow> ('c, 'f) action" where
  "ignore_err m tr = (None, snd (m tr))"

definition map_err :: "('e \<Rightarrow> 'f) \<Rightarrow> ('c, 'e) action \<Rightarrow> ('c, 'f) action" where
  "map_err f m tr = (map_option f (fst (m tr)), snd (m tr))"

definition when_act :: "bool \<Rightarrow> ('c, 'e) action \<Rightarrow> ('c, 'e) action" where
  "when_act b m = (if b then m else ok)"

text \<open>
  An action on the calls of a component, run inside a program with more kinds of calls: its calls
  are recorded there as \<open>emb c\<close>, and the environment of the program answers them.
\<close>

definition lift_act :: "('c \<Rightarrow> 'd) \<Rightarrow> 'd world \<Rightarrow> ('c world \<Rightarrow> ('c, 'e) action) \<Rightarrow> ('d, 'e) action" where
  "lift_act emb w m tr =
     (case m (\<lambda>cs c. w (tr @ map emb cs) (emb c)) [] of (r, cs) \<Rightarrow> (r, tr @ map emb cs))"

text \<open>A deferred call: made when the action returns, with or without an error.\<close>

definition with_deferred :: "'c \<Rightarrow> ('c, 'e) action \<Rightarrow> ('c, 'e) action" where
  "with_deferred c m tr = (fst (m tr), snd (m tr) @ [c])"

text \<open>An action chosen by looking at the calls made so far.\<close>

definition looking :: "('c list \<Rightarrow> ('c, 'e) action) \<Rightarrow> ('c, 'e) action" where
  "looking m tr = m tr tr"

subsection \<open>What an action does\<close>

text \<open>
  \<open>follows m cs\<close>: \<open>m\<close> makes the calls \<open>cs\<close> in this order and no others; when it fails it has made a
  prefix of them, when it succeeds all.
\<close>

definition follows :: "('c, 'e) action \<Rightarrow> 'c list \<Rightarrow> bool" where
  "follows m cs \<longleftrightarrow> (\<forall>tr. \<exists>ds. snd (m tr) = tr @ ds \<and> prefix ds cs \<and> (fst (m tr) = None \<longrightarrow> ds = cs))"

named_theorems follows_intro \<open>the calls of compound actions\<close>

lemma followsD: "follows m cs \<Longrightarrow> m tr = (None, tr') \<Longrightarrow> tr' = tr @ cs"
  unfolding follows_def by (metis fst_conv snd_conv)

lemma followsD_prefix: "follows m cs \<Longrightarrow> m tr = (r, tr') \<Longrightarrow> \<exists>ds. tr' = tr @ ds \<and> prefix ds cs"
  unfolding follows_def by (metis snd_conv)

lemma follows_ok [follows_intro]: "follows ok []"
  by (simp add: follows_def ok_def)

lemma follows_fail [follows_intro]: "follows (fail e) cs"
  by (simp add: follows_def fail_def)

lemma follows_must [follows_intro]: "follows (must w c mk) [c]"
  by (simp add: follows_def must_def)

lemma follows_attempt [follows_intro]: "follows (attempt c) [c]"
  by (simp add: follows_def attempt_def)

lemma follows_map_err [follows_intro]: "follows m cs \<Longrightarrow> follows (map_err f m) cs"
  by (simp add: follows_def map_err_def)

lemma follows_and_then [follows_intro]:
  assumes "follows m cs" and "follows k ds"
  shows "follows (and_then m k) (cs @ ds)"
  unfolding follows_def
proof (intro allI)
  fix tr
  obtain r tr1 where m: "m tr = (r, tr1)" by force
  show "\<exists>es. snd (and_then m k tr) = tr @ es \<and> prefix es (cs @ ds) \<and>
      (fst (and_then m k tr) = None \<longrightarrow> es = cs @ ds)"
  proof (cases r)
    case None
    with assms(1) m have "tr1 = tr @ cs" by (simp add: followsD)
    moreover obtain es where "snd (k tr1) = tr1 @ es" "prefix es ds" "fst (k tr1) = None \<longrightarrow> es = ds"
      using assms(2) unfolding follows_def by blast
    ultimately show ?thesis using m None by (auto simp: and_then_def intro!: exI [of _ "cs @ es"])
  next
    case (Some e)
    with followsD_prefix [OF assms(1) m] show ?thesis using m by (auto simp: and_then_def intro: prefix_prefix)
  qed
qed

lemma follows_when_act [follows_intro]: "follows m cs \<Longrightarrow> follows (when_act b m) (if b then cs else [])"
  by (simp add: when_act_def follows_ok)

lemma follows_steps [follows_intro]: "list_all2 follows ms css \<Longrightarrow> follows (steps ms) (concat css)"
proof (induction ms arbitrary: css)
  case Nil
  then show ?case by (simp add: follows_ok)
next
  case (Cons m ms)
  then obtain cs rest where "css = cs # rest" "follows m cs" "list_all2 follows ms rest"
    by (auto simp: list_all2_Cons1)
  with Cons.IH show ?case by (simp add: follows_and_then)
qed

lemma follows_steps_single: "list_all2 (\<lambda>m c. follows m [c]) ms cs \<Longrightarrow> follows (steps ms) cs"
proof (induction ms arbitrary: cs)
  case Nil
  then show ?case by (simp add: follows_ok)
next
  case (Cons m ms)
  then obtain c rest where "cs = c # rest" "follows m [c]" "list_all2 (\<lambda>m c. follows m [c]) ms rest"
    by (auto simp: list_all2_Cons1)
  with Cons.IH follows_and_then [of m "[c]"] show ?case by simp
qed

lemma and_then_None: "and_then m k tr = (None, tr') \<longleftrightarrow> (\<exists>t. m tr = (None, t) \<and> k t = (None, tr'))"
  by (auto simp: and_then_def split: prod.splits option.splits)

lemma and_then_ok [simp]: "and_then ok k = k" "and_then m ok = m"
  by (auto simp: and_then_def ok_def fun_eq_iff split: prod.splits option.splits)

text \<open>Every call an action makes, whatever the environment answers, satisfies \<open>P\<close>.\<close>

definition emits :: "('c \<Rightarrow> bool) \<Rightarrow> ('c, 'e) action \<Rightarrow> bool" where
  "emits P m \<longleftrightarrow> (\<forall>tr. \<exists>ds. snd (m tr) = tr @ ds \<and> list_all P ds)"

named_theorems emits_intro \<open>the calls of compound actions satisfy a predicate\<close>

lemma emitsD: "emits P m \<Longrightarrow> m tr = (r, tr') \<Longrightarrow> \<exists>ds. tr' = tr @ ds \<and> list_all P ds"
  unfolding emits_def by (metis snd_conv)

lemma emits_ok [emits_intro]: "emits P ok"
  by (simp add: emits_def ok_def)

lemma emits_fail [emits_intro]: "emits P (fail e)"
  by (simp add: emits_def fail_def)

lemma emits_must [emits_intro]: "P c \<Longrightarrow> emits P (must w c mk)"
  by (simp add: emits_def must_def)

lemma emits_attempt [emits_intro]: "P c \<Longrightarrow> emits P (attempt c)"
  by (simp add: emits_def attempt_def)

lemma emits_map_err [emits_intro]: "emits P m \<Longrightarrow> emits P (map_err f m)"
  by (simp add: emits_def map_err_def)

lemma emits_when_act [emits_intro]: "(b \<Longrightarrow> emits P m) \<Longrightarrow> emits P (when_act b m)"
  by (simp add: when_act_def emits_ok)

lemma emits_and_then [emits_intro]:
  assumes "emits P m" and "emits P k"
  shows "emits P (and_then m k)"
  unfolding emits_def
proof
  fix tr
  obtain r tr1 where m: "m tr = (r, tr1)" by force
  with assms(1) obtain ds where ds: "tr1 = tr @ ds" "list_all P ds" by (blast dest: emitsD)
  from assms(2) obtain es where "snd (k tr1) = tr1 @ es" "list_all P es" unfolding emits_def by blast
  with m ds show "\<exists>ds. snd (and_then m k tr) = tr @ ds \<and> list_all P ds"
    by (cases r) (auto simp: and_then_def)
qed

lemma emits_steps [emits_intro]: "(\<And>m. m \<in> set ms \<Longrightarrow> emits P m) \<Longrightarrow> emits P (steps ms)"
  by (induction ms) (auto intro: emits_intro)

text \<open>An action that looks at the calls made so far before it decides how to go on.\<close>

lemma emits_history: "(\<And>tr. \<exists>m'. m tr = m' tr \<and> emits P m') \<Longrightarrow> emits P m"
  unfolding emits_def by metis

lemma emits_looking [emits_intro]: "(\<And>tr. emits P (m tr)) \<Longrightarrow> emits P (looking m)"
  by (simp add: emits_def looking_def)

lemma emits_ignore_err [emits_intro]: "emits P m \<Longrightarrow> emits P (ignore_err m)"
  by (simp add: emits_def ignore_err_def)

lemma emits_with_deferred [emits_intro]: "P c \<Longrightarrow> emits P m \<Longrightarrow> emits P (with_deferred c m)"
  unfolding emits_def with_deferred_def by (metis append.assoc list.pred_inject list_all_append snd_conv)

lemma emits_lift_act:
  assumes "\<And>w. emits P (m w)" and "\<And>c. P c \<Longrightarrow> Q (emb c)"
  shows "emits Q (lift_act emb w m)"
  unfolding emits_def
proof
  fix tr
  let ?w = "\<lambda>cs c. w (tr @ map emb cs) (emb c)"
  obtain r cs where run: "m ?w [] = (r, cs)" by force
  with emitsD [OF assms(1)] have "list_all P cs" by fastforce
  then have "list_all Q (map emb cs)" using assms(2) by (auto simp: list_all_iff)
  then show "\<exists>ds. snd (lift_act emb w m tr) = tr @ ds \<and> list_all Q ds"
    using run by (simp add: lift_act_def)
qed

lemma emits_cons: "P c \<Longrightarrow> emits P m \<Longrightarrow> emits P (\<lambda>tr. m (tr @ [c]))"
  unfolding emits_def by (metis append.assoc append_Cons append_Nil list.pred_inject(2))

text \<open>Under an environment in which every call succeeds.\<close>

definition all_ok :: "'c world" where
  "all_ok tr c = None"

lemma must_all_ok [simp]: "must all_ok c mk tr = (None, tr @ [c])"
  by (simp add: must_def all_ok_def)

text \<open>An action that never fails.\<close>

definition succeeds :: "('c, 'e) action \<Rightarrow> bool" where
  "succeeds m \<longleftrightarrow> (\<forall>tr. fst (m tr) = None)"

named_theorems succeeds_intro \<open>compound actions that never fail\<close>

lemma succeedsD: "succeeds m \<Longrightarrow> \<exists>tr'. m tr = (None, tr')"
  unfolding succeeds_def by (metis prod.collapse)

lemma succeeds_basic [succeeds_intro]: "succeeds ok" "succeeds (attempt c)" "succeeds (must all_ok c mk)" "succeeds (ignore_err m)"
  by (simp_all add: succeeds_def ok_def attempt_def ignore_err_def)

lemma succeeds_and_then [succeeds_intro]: "succeeds m \<Longrightarrow> succeeds k \<Longrightarrow> succeeds (and_then m k)"
  by (auto simp: succeeds_def and_then_def split: prod.splits option.splits) (metis fst_conv option.distinct(1))

lemma succeeds_map_err [succeeds_intro]: "succeeds m \<Longrightarrow> succeeds (map_err f m)"
  by (simp add: succeeds_def map_err_def)

lemma succeeds_when_act [succeeds_intro]: "(b \<Longrightarrow> succeeds m) \<Longrightarrow> succeeds (when_act b m)"
  by (simp add: when_act_def succeeds_basic)

lemma succeeds_steps [succeeds_intro]: "(\<And>m. m \<in> set ms \<Longrightarrow> succeeds m) \<Longrightarrow> succeeds (steps ms)"
  by (induction ms) (auto intro: succeeds_intro)

text \<open>
  Where the calls are the chunks written to a stream: an action writes exactly these bytes when it
  succeeds, in whatever chunks.
\<close>

definition writes :: "(bytes, 'e) action \<Rightarrow> bytes \<Rightarrow> bool" where
  "writes m bs \<longleftrightarrow> (\<exists>cs. follows m cs \<and> concat cs = bs)"

named_theorems writes_intro \<open>the bytes written by compound actions\<close>

lemma writesD: "writes m bs \<Longrightarrow> m tr = (None, tr') \<Longrightarrow> concat tr' = concat tr @ bs"
  unfolding writes_def by (auto dest: followsD)

lemma writes_ok [writes_intro]: "writes ok []"
  unfolding writes_def by (auto intro: exI [of _ "[]"] follows_ok)

lemma writes_must [writes_intro]: "writes (must w c mk) c"
  unfolding writes_def by (auto intro!: exI [of _ "[c]"] follows_must)

lemma writes_fail: "writes (fail e) bs"
  unfolding writes_def by (auto intro!: exI [of _ "[bs]"] follows_fail)

lemma writes_nonempty [writes_intro]: "writes (when_act (c \<noteq> []) (must w c mk)) c"
  by (cases "c = []") (simp_all add: when_act_def writes_ok writes_must)

lemma writes_and_then [writes_intro]: "writes m as \<Longrightarrow> writes k bs \<Longrightarrow> writes (and_then m k) (as @ bs)"
  unfolding writes_def by (metis concat_append follows_and_then)

lemma writes_map_err [writes_intro]: "writes m bs \<Longrightarrow> writes (map_err f m) bs"
  unfolding writes_def by (blast intro: follows_map_err)

lemmas action_defs = ok_def fail_def must_def attempt_def and_then_def ignore_err_def map_err_def when_act_def

declare action_defs [go_eval] all_ok_def [go_eval]

end
