(* ===== verification/GoBytes.thy ===== *)
theory GoBytes
  imports GoEffects
begin

text \<open>
  Fixed-width encodings of integers as bytes (package \<open>encoding/binary\<close>) and byte streams (package
  \<open>io\<close>). The contract of a fixed-width encoding is the locale \<open>fixed_codec\<close>; big-endian 32-bit and
  little-endian 16-bit and 32-bit integers are instances of it.
\<close>

definition byte_at :: "nat \<Rightarrow> nat \<Rightarrow> char" where
  "byte_at k n = char_of (n div 256 ^ k)"

definition put_u32_be :: "u32 \<Rightarrow> bytes" where
  "put_u32_be v = [byte_at 3 (unat v), byte_at 2 (unat v), byte_at 1 (unat v), byte_at 0 (unat v)]"

definition get_u32_be :: "bytes \<Rightarrow> u32" where
  "get_u32_be b = word_of_nat (foldl (\<lambda>n c. 256 * n + of_char c) 0 (take 4 b))"

definition put_u32_le :: "u32 \<Rightarrow> bytes" where
  "put_u32_le v = [byte_at 0 (unat v), byte_at 1 (unat v), byte_at 2 (unat v), byte_at 3 (unat v)]"

definition get_u32_le :: "bytes \<Rightarrow> u32" where
  "get_u32_le b = word_of_nat (foldr (\<lambda>c n. 256 * n + of_char c) (take 4 b) 0)"

definition put_u16_le :: "u16 \<Rightarrow> bytes" where
  "put_u16_le v = [byte_at 0 (unat v), byte_at 1 (unat v)]"

definition get_u16_le :: "bytes \<Rightarrow> u16" where
  "get_u16_le b = word_of_nat (foldr (\<lambda>c n. 256 * n + of_char c) (take 2 b) 0)"

lemma byte_at_value [simp]: "of_char (byte_at k n) = (n div 256 ^ k) mod 256"
  by (simp add: byte_at_def)

locale fixed_codec =
  fixes enc :: "'a \<Rightarrow> bytes" and dec :: "bytes \<Rightarrow> 'a" and width :: nat
  assumes enc_length [simp]: "length (enc x) = width"
    and dec_enc [simp]: "dec (enc x) = x"
begin

lemma take_enc [simp]: "take width (enc x @ rest) = enc x"
  by simp

lemma drop_enc [simp]: "drop width (enc x @ rest) = rest"
  by simp

lemma enc_inject [simp]: "enc x = enc y \<longleftrightarrow> x = y"
  by (metis dec_enc)

lemma enc_append_inject: "enc x @ r = enc y @ s \<longleftrightarrow> x = y \<and> r = s"
  by (metis drop_enc take_enc enc_inject)

end

lemma bytes2: "(n :: nat) < 65536 \<Longrightarrow> 256 * (n div 256) + n mod 256 = n \<and> n div 256 mod 256 = n div 256"
  by (simp add: less_mult_imp_div_less)

lemma bytes4:
  assumes "(n :: nat) < 4294967296"
  shows "16777216 * (n div 16777216) + 65536 * (n div 65536 mod 256) + 256 * (n div 256 mod 256) + n mod 256 = n"
    and "n div 16777216 mod 256 = n div 16777216"
proof -
  have "n div 65536 = 256 * (n div 16777216) + n div 65536 mod 256"
    using mult_div_mod_eq [of 256 "n div 65536"] by (simp add: div_mult2_eq [symmetric])
  moreover have "n div 256 = 256 * (n div 65536) + n div 256 mod 256"
    using mult_div_mod_eq [of 256 "n div 256"] by (simp add: div_mult2_eq [symmetric])
  moreover have "n = 256 * (n div 256) + n mod 256" by simp
  ultimately show "16777216 * (n div 16777216) + 65536 * (n div 65536 mod 256) + 256 * (n div 256 mod 256) + n mod 256 = n"
    by linarith
  show "n div 16777216 mod 256 = n div 16777216"
    using assms by (simp add: less_mult_imp_div_less)
qed

lemma u32_bound: "unat (v :: u32) < 4294967296"
  using unsigned_less [of v, where ?'a = nat] by simp

lemma unat_u32: "n < 4294967296 \<Longrightarrow> unat (word_of_nat n :: u32) = n"
  by (simp add: unsigned_of_nat take_bit_nat_eq_self)

lemma u16_bound: "unat (v :: u16) < 65536"
  using unsigned_less [of v, where ?'a = nat] by simp

interpretation u32_be: fixed_codec put_u32_be get_u32_be 4
proof
  fix x
  have "foldl (\<lambda>n c. 256 * n + of_char c) 0 (take 4 (put_u32_be x)) = unat x"
    using bytes4 [OF u32_bound [of x]] by (simp add: put_u32_be_def)
  then show "get_u32_be (put_u32_be x) = x" by (simp add: get_u32_be_def)
qed (simp add: put_u32_be_def)

interpretation u32_le: fixed_codec put_u32_le get_u32_le 4
proof
  fix x
  have "foldr (\<lambda>c n. 256 * n + of_char c) (take 4 (put_u32_le x)) 0 = unat x"
    using bytes4 [OF u32_bound [of x]] by (simp add: put_u32_le_def)
  then show "get_u32_le (put_u32_le x) = x" by (simp add: get_u32_le_def)
qed (simp add: put_u32_le_def)

interpretation u16_le: fixed_codec put_u16_le get_u16_le 2
proof
  fix x
  have "foldr (\<lambda>c n. 256 * n + of_char c) (take 2 (put_u16_le x)) 0 = unat x"
    using bytes2 [OF u16_bound [of x]] by (simp add: put_u16_le_def)
  then show "get_u16_le (put_u16_le x) = x" by (simp add: get_u16_le_def)
qed (simp add: put_u16_le_def)

subsection \<open>Streams\<close>

text \<open>What is left to read from a connection, and how it ends.\<close>

datatype stream_end = AtEOF | ReadErr string

record reader =
  rd_data :: bytes
  rd_end :: stream_end

datatype io_error = EOF | UnexpectedEOF | ReadError string

text \<open>\<open>io.ReadFull(reader, buf)\<close> for a buffer of \<open>n > 0\<close> bytes: on an error what was left is consumed.\<close>

definition ReadFull :: "nat \<Rightarrow> reader \<Rightarrow> (io_error, bytes) result \<times> reader" where
  "ReadFull n r =
     (if n \<le> length (rd_data r) then (Inr (take n (rd_data r)), r\<lparr>rd_data := drop n (rd_data r)\<rparr>)
      else (Inl (case rd_end r of
                   AtEOF \<Rightarrow> if rd_data r = [] then EOF else UnexpectedEOF
                 | ReadErr e \<Rightarrow> ReadError e),
            r\<lparr>rd_data := []\<rparr>))"

declare byte_at_def [go_eval] put_u32_be_def [go_eval] get_u32_be_def [go_eval] put_u32_le_def [go_eval]
  get_u32_le_def [go_eval] put_u16_le_def [go_eval] get_u16_le_def [go_eval] ReadFull_def [go_eval]

end
