(* ===== verification/VsockFrame.thy ===== *)
theory VsockFrame
  imports GoBytes GoStrings
begin

text \<open>
  \<open>internal/vsockd/protocol.go\<close>: the RPC messages and the length-prefixed frames that carry them.
  A connection being written to is an environment whose calls are the buffers passed to
  \<open>Write\<close>; the bytes on the wire are their concatenation. JSON itself (\<open>EncodeJSON\<close>,
  \<open>DecodeJSON\<close>, package \<open>encoding/json\<close>) is a parameter of the operations that use it.
\<close>

definition MaxFrameSize :: nat where
  "MaxFrameSize = 10 * 1024 * 1024"

record RPCRequest =
  req_ID :: string
  req_Command :: string
  req_Service :: string
  req_Args :: "string list"
  req_Payload :: string

datatype frame_error =
    FrameIO io_error
  | FrameTooLarge u32
  | FramePayload io_error
  | FrameHeaderWrite string
  | FramePayloadWrite string

definition frame_length :: "bytes \<Rightarrow> u32" where
  "frame_length payload = word_of_nat (length payload)"

definition WriteFrame :: "bytes world \<Rightarrow> bytes \<Rightarrow> (bytes, frame_error) action" where
  "WriteFrame w payload =
     and_then (must w (put_u32_be (frame_length payload)) FrameHeaderWrite)
       (when_act (0 < frame_length payload) (must w payload FramePayloadWrite))"

definition ReadFrame :: "reader \<Rightarrow> (frame_error, bytes) result \<times> reader" where
  "ReadFrame r =
     (case ReadFull 4 r of
        (Inl e, r1) \<Rightarrow> (Inl (FrameIO e), r1)
      | (Inr header, r1) \<Rightarrow>
          (let length = get_u32_be header
           in if MaxFrameSize < unat length then (Inl (FrameTooLarge length), r1)
              else if 0 < unat length
                then (case ReadFull (unat length) r1 of
                        (Inl e, r2) \<Rightarrow> (Inl (FramePayload e), r2)
                      | (Inr payload, r2) \<Rightarrow> (Inr payload, r2))
                else (Inr [], r1)))"

declare MaxFrameSize_def [go_eval] frame_length_def [go_eval] WriteFrame_def [go_eval] ReadFrame_def [go_eval]

subsection \<open>The bytes of a frame\<close>

definition frame_bytes :: "bytes \<Rightarrow> bytes" where
  "frame_bytes payload = put_u32_be (frame_length payload) @ payload"

lemma frame_length_value:
  assumes "length p < 2 ^ 32"
  shows "unat (frame_length p) = length p" and "frame_length p = 0 \<longleftrightarrow> p = []"
proof -
  show l: "unat (frame_length p) = length p" using assms by (simp add: frame_length_def unat_of_nat)
  show "frame_length p = 0 \<longleftrightarrow> p = []" using l by (metis length_0_conv unat_eq_zero)
qed

lemma WriteFrame_follows:
  assumes "length p < 2 ^ 32"
  shows "follows (WriteFrame w p) (put_u32_be (frame_length p) # (if p = [] then [] else [p]))"
proof -
  have "follows (WriteFrame w p) ([put_u32_be (frame_length p)] @ (if 0 < frame_length p then [p] else []))"
    unfolding WriteFrame_def by (intro follows_intro)
  moreover have "0 < frame_length p \<longleftrightarrow> p \<noteq> []"
    using frame_length_value(2) [OF assms] by (simp add: word_neq_0_conv [symmetric])
  ultimately show ?thesis by (cases "p = []") simp_all
qed

lemma WriteFrame_bytes:
  assumes "length p < 2 ^ 32" and "WriteFrame w p tr = (None, tr')"
  shows "concat tr' = concat tr @ frame_bytes p"
  using followsD [OF WriteFrame_follows [OF assms(1)] assms(2)] by (simp add: frame_bytes_def)

lemma ReadFrame_frame:
  assumes "length p \<le> MaxFrameSize"
  shows "ReadFrame \<lparr>rd_data = frame_bytes p @ rest, rd_end = e\<rparr> = (Inr p, \<lparr>rd_data = rest, rd_end = e\<rparr>)"
proof -
  have len: "length p < 2 ^ 32" using assms by (simp add: MaxFrameSize_def)
  have hdr: "ReadFull 4 \<lparr>rd_data = frame_bytes p @ rest, rd_end = e\<rparr> =
      (Inr (put_u32_be (frame_length p)), \<lparr>rd_data = p @ rest, rd_end = e\<rparr>)"
    by (simp add: ReadFull_def frame_bytes_def)
  have "ReadFrame \<lparr>rd_data = frame_bytes p @ rest, rd_end = e\<rparr> =
      (if 0 < length p
       then (case ReadFull (length p) \<lparr>rd_data = p @ rest, rd_end = e\<rparr> of
               (Inl e, r2) \<Rightarrow> (Inl (FramePayload e), r2)
             | (Inr payload, r2) \<Rightarrow> (Inr payload, r2))
       else (Inr [], \<lparr>rd_data = p @ rest, rd_end = e\<rparr>))"
    using assms frame_length_value(1) [OF len] by (simp add: ReadFrame_def hdr)
  then show ?thesis by (cases "p = []") (simp_all add: ReadFull_def)
qed

text \<open>
  The contract of a framed connection: what one side writes for a message is what the other side
  reads as that message, whatever follows on the wire.
\<close>

locale framing =
  fixes wire :: "bytes \<Rightarrow> bytes"
    and recv :: "reader \<Rightarrow> ('e, bytes) result \<times> reader"
    and valid :: "bytes \<Rightarrow> bool"
  assumes recv_wire: "valid p \<Longrightarrow>
      recv \<lparr>rd_data = wire p @ rest, rd_end = e\<rparr> = (Inr p, \<lparr>rd_data = rest, rd_end = e\<rparr>)"
begin

lemma wire_prefix_free:
  assumes "valid p" and "valid q" and "wire p @ r = wire q @ s"
  shows "p = q \<and> r = s"
proof -
  have "recv \<lparr>rd_data = wire p @ r, rd_end = AtEOF\<rparr> = (Inr q, \<lparr>rd_data = s, rd_end = AtEOF\<rparr>)"
    unfolding assms(3) by (rule recv_wire [OF assms(2)])
  with recv_wire [OF assms(1), of r AtEOF] show ?thesis by simp
qed

text \<open>The messages of a wire determine it: no two sequences of messages look the same.\<close>

lemma wires_inject:
  assumes "\<forall>p \<in> set ps \<union> set qs. valid p" and "length ps = length qs"
    and "concat (map wire ps) = concat (map wire qs)"
  shows "ps = qs"
  using assms
proof (induction ps arbitrary: qs)
  case (Cons p ps)
  then obtain q qs' where qs: "qs = q # qs'" by (cases qs) auto
  with Cons.prems have "p = q \<and> concat (map wire ps) = concat (map wire qs')"
    by (intro wire_prefix_free) auto
  with Cons qs show ?case by simp
qed simp

end

interpretation vsock: framing frame_bytes ReadFrame "\<lambda>p. length p \<le> MaxFrameSize"
  by unfold_locales (rule ReadFrame_frame)

subsection \<open>Properties of framing\<close>

text \<open>The frames of a connection: \<open>ReadFrame\<close> called again and again until it fails.\<close>

function read_frames :: "reader \<Rightarrow> bytes list \<times> frame_error" where
  "read_frames r =
     (case ReadFrame r of
        (Inl e, r1) \<Rightarrow> ([], e)
      | (Inr p, r1) \<Rightarrow> (let (ps, e) = read_frames r1 in (p # ps, e)))"
  by pat_completeness auto

lemma ReadFull_shrinks: "ReadFull n r = (Inr b, r1) \<Longrightarrow> length (rd_data r1) + n = length (rd_data r)"
  by (auto simp: ReadFull_def split: if_splits)

lemma ReadFrame_shrinks:
  assumes "ReadFrame r = (Inr p, r1)"
  shows "length (rd_data r1) + 4 \<le> length (rd_data r)"
  using assms
  by (auto simp: ReadFrame_def Let_def split: prod.splits sum.splits if_splits dest!: ReadFull_shrinks)

termination read_frames
  by (relation "measure (\<lambda>r. length (rd_data r))") (auto dest!: ReadFrame_shrinks [OF sym])

declare read_frames.simps [simp del]

lemma read_frames_wire:
  assumes "\<forall>p \<in> set ps. length p \<le> MaxFrameSize"
  shows "read_frames \<lparr>rd_data = concat (map frame_bytes ps) @ rest, rd_end = e\<rparr> =
    (let (qs, err) = read_frames \<lparr>rd_data = rest, rd_end = e\<rparr> in (ps @ qs, err))"
  using assms
proof (induction ps)
  case Nil
  then show ?case by (simp split: prod.splits)
next
  case (Cons p ps)
  then show ?case
    by (subst read_frames.simps) (simp add: vsock.recv_wire Let_def split: prod.splits)
qed

lemma read_frames_empty: "read_frames \<lparr>rd_data = [], rd_end = AtEOF\<rparr> = ([], FrameIO EOF)"
  by (subst read_frames.simps) (simp add: ReadFrame_def ReadFull_def)

text \<open>C11: frames survive the connection. If a sequence of messages of at most 10 MiB each is
  written frame by frame and every write succeeds, then the peer that reads the resulting bytes
  gets exactly these messages, in order, each one whole, and then a clean end of file.\<close>

theorem frames_roundtrip:
  assumes "steps (map (WriteFrame w) ps) [] = (None, tr)" and "\<forall>p \<in> set ps. length p \<le> MaxFrameSize"
  shows "read_frames \<lparr>rd_data = concat tr, rd_end = AtEOF\<rparr> = (ps, FrameIO EOF)"
proof -
  have "concat tr' = concat tr0 @ concat (map frame_bytes ps)"
    if "steps (map (WriteFrame w) ps) tr0 = (None, tr')" for tr0 tr'
    using that assms(2)
  proof (induction ps arbitrary: tr0)
    case (Cons p ps)
    then obtain t where "WriteFrame w p tr0 = (None, t)" "steps (map (WriteFrame w) ps) t = (None, tr')"
      by (auto simp: and_then_None)
    moreover have "length p < 2 ^ 32" using Cons.prems(2) by (simp add: MaxFrameSize_def)
    ultimately show ?case using Cons WriteFrame_bytes [of p w tr0 t] by simp
  qed (simp add: ok_def)
  from this [OF assms(1)] read_frames_wire [OF assms(2), of "[]" AtEOF] show ?thesis
    by (simp add: read_frames_empty)
qed

theorem frames_roundtrip_witness:
  "read_frames \<lparr>rd_data = concat [put_u32_be 2, ''hi'', put_u32_be 0], rd_end = AtEOF\<rparr> = ([''hi'', []], FrameIO EOF)"
proof -
  have "steps (map (WriteFrame all_ok) [''hi'', []]) [] = (None, [put_u32_be 2, ''hi'', put_u32_be 0])"
    by (simp add: WriteFrame_def frame_length_def action_defs all_ok_def)
  from frames_roundtrip [OF this] show ?thesis by (simp add: MaxFrameSize_def)
qed



end
