(* ===== verification/GoPath.thy ===== *)
theory GoPath
  imports GoStrings
begin

text \<open>
  The lexical part of Go's \<open>path/filepath\<close> on Unix, as the package documents it. A path is worked
  on as the list of its components; \<open>clean_step\<close> processes one component against the stack of the
  components kept so far (top first): empty and \<open>.\<close> components vanish, \<open>..\<close> removes the component
  before it, and stays where there is none to remove and the path is not rooted.
\<close>

abbreviation slash :: char where
  "slash \<equiv> CHR 0x2F"

definition dotdot :: string where
  "dotdot = ''..''"

definition clean_step :: "bool \<Rightarrow> string list \<Rightarrow> string \<Rightarrow> string list" where
  "clean_step rooted acc c =
     (if c = [] \<or> c = ''.'' then acc
      else if c = dotdot
        then (case acc of
                [] \<Rightarrow> if rooted then [] else [dotdot]
              | a # as \<Rightarrow> if a = dotdot then dotdot # acc else as)
      else c # acc)"

definition clean_comps :: "bool \<Rightarrow> string list \<Rightarrow> string list" where
  "clean_comps rooted cs = rev (foldl (clean_step rooted) [] cs)"

definition is_abs :: "string \<Rightarrow> bool" where
  "is_abs p \<longleftrightarrow> HasPrefix p [slash]"

text \<open>The cleaned components of a path, and the path a list of cleaned components denotes.\<close>

definition path_comps :: "string \<Rightarrow> string list" where
  "path_comps p = clean_comps (is_abs p) (Split p slash)"

definition render_path :: "bool \<Rightarrow> string list \<Rightarrow> string" where
  "render_path rooted cs =
     (if rooted then slash # Join_strings cs [slash]
      else if cs = [] then ''.'' else Join_strings cs [slash])"

definition Clean :: "string \<Rightarrow> string" where
  "Clean p = (if p = [] then ''.'' else render_path (is_abs p) (path_comps p))"

definition Join_path :: "string list \<Rightarrow> string" where
  "Join_path elems =
     (case dropWhile (\<lambda>e. e = []) elems of
        [] \<Rightarrow> []
      | es \<Rightarrow> Clean (Join_strings es [slash]))"

definition Dir :: "string \<Rightarrow> string" where
  "Dir p = Clean (rev (dropWhile (\<lambda>c. c \<noteq> slash) (rev p)))"

definition Base :: "string \<Rightarrow> string" where
  "Base p =
     (if p = [] then ''.''
      else let b = rev (takeWhile (\<lambda>c. c \<noteq> slash) (dropWhile (\<lambda>c. c = slash) (rev p)))
           in if b = [] then [slash] else b)"

definition Ext :: "string \<Rightarrow> string" where
  "Ext p =
     (let f = takeWhile (\<lambda>c. c \<noteq> slash) (rev p)
      in if CHR ''.'' \<in> set f then rev (takeWhile (\<lambda>c. c \<noteq> CHR ''.'') f @ ''.'') else [])"

text \<open>\<open>filepath.Abs\<close> against a given working directory.\<close>

definition Abs_path :: "string \<Rightarrow> string \<Rightarrow> string" where
  "Abs_path cwd p = (if is_abs p then Clean p else Join_path [cwd, p])"

text \<open>
  \<open>filepath.Rel\<close>: the common leading components are dropped, what is left of the base is climbed, and
  what is left of the target follows. A base that still has \<open>..\<close> where they part cannot be climbed.
\<close>

fun drop_common :: "string list \<Rightarrow> string list \<Rightarrow> string list \<times> string list" where
  "drop_common (b # bs) (t # ts) = (if b = t then drop_common bs ts else (b # bs, t # ts))"
| "drop_common bs ts = (bs, ts)"

definition Rel :: "string \<Rightarrow> string \<Rightarrow> string option" where
  "Rel basepath targpath =
     (if Clean targpath = Clean basepath then Some ''.''
      else if is_abs basepath \<noteq> is_abs targpath then None
      else case drop_common (path_comps basepath) (path_comps targpath) of
             (bs, ts) \<Rightarrow>
               if bs \<noteq> [] \<and> hd bs = dotdot then None
               else Some (Join_strings (replicate (length bs) dotdot @ ts) [slash]))"

declare dotdot_def [go_eval] clean_step_def [go_eval] clean_comps_def [go_eval] is_abs_def [go_eval]
  path_comps_def [go_eval] render_path_def [go_eval] Clean_def [go_eval] Join_path_def [go_eval]
  Dir_def [go_eval] Base_def [go_eval] Ext_def [go_eval] Abs_path_def [go_eval]
  Rel_def [go_eval]

subsection \<open>Cleaned paths\<close>

text \<open>A component that cleaning keeps as it is.\<close>

definition plain_comp :: "string \<Rightarrow> bool" where
  "plain_comp c \<longleftrightarrow> c \<noteq> [] \<and> c \<noteq> ''.'' \<and> c \<noteq> dotdot \<and> slash \<notin> set c"

text \<open>The components of a cleaned path: \<open>..\<close> only at the front of a relative one.\<close>

definition clean_list :: "bool \<Rightarrow> string list \<Rightarrow> bool" where
  "clean_list rooted cs \<longleftrightarrow>
     (\<exists>n qs. cs = replicate n dotdot @ qs \<and> list_all plain_comp qs \<and> (rooted \<longrightarrow> n = 0))"

lemma dotdot_no_slash [simp]: "slash \<notin> set dotdot" "dotdot \<noteq> []" "dotdot \<noteq> ''.''"
  by (simp_all add: dotdot_def)

lemma clean_step_plain: "plain_comp c \<Longrightarrow> clean_step r acc c = c # acc"
  by (simp add: clean_step_def plain_comp_def)

lemma foldl_clean_plain: "list_all plain_comp cs \<Longrightarrow> foldl (clean_step r) acc cs = rev cs @ acc"
  by (induction cs arbitrary: acc) (simp_all add: clean_step_plain)

lemma foldl_clean_dotdots: "foldl (clean_step False) (replicate m dotdot) (replicate n dotdot) = replicate (n + m) dotdot"
proof (induction n arbitrary: m)
  case (Suc n)
  have "clean_step False (replicate m dotdot) dotdot = replicate (Suc m) dotdot"
    by (cases m) (simp_all add: clean_step_def)
  with Suc.IH [of "Suc m"] show ?case by simp
qed simp

lemma clean_comps_clean: "clean_list r cs \<Longrightarrow> clean_comps r cs = cs"
proof -
  assume "clean_list r cs"
  then obtain n qs where cs: "cs = replicate n dotdot @ qs" "list_all plain_comp qs" "r \<longrightarrow> n = 0"
    by (auto simp: clean_list_def)
  show ?thesis
  proof (cases r)
    case True
    with cs show ?thesis by (simp add: clean_comps_def foldl_clean_plain)
  next
    case False
    with cs foldl_clean_dotdots [of 0 n] show ?thesis by (simp add: clean_comps_def foldl_clean_plain)
  qed
qed

text \<open>The stack that cleaning works on always holds the reverse of a clean list.\<close>

lemma clean_step_clean:
  assumes "clean_list r (rev acc)" and "slash \<notin> set c"
  shows "clean_list r (rev (clean_step r acc c))"
proof -
  from assms(1) obtain n qs where acc: "rev acc = replicate n dotdot @ qs" "list_all plain_comp qs" "r \<longrightarrow> n = 0"
    by (auto simp: clean_list_def)
  consider (skip) "c = [] \<or> c = ''.''" | (up) "c = dotdot" | (plain) "plain_comp c"
    using assms(2) by (auto simp: plain_comp_def)
  then show ?thesis
  proof cases
    case skip
    with assms(1) show ?thesis by (auto simp: clean_step_def)
  next
    case up
    show ?thesis
    proof (cases qs rule: rev_cases)
      case Nil
      with acc have acc': "acc = replicate n dotdot" by (metis append_Nil2 rev_replicate rev_rev_ident)
      show ?thesis
      proof (cases n)
        case 0
        then show ?thesis using up acc' by (cases r) (auto simp: clean_step_def clean_list_def intro: exI [of _ 1])
      next
        case (Suc m)
        then have "clean_step r acc c = replicate (Suc n) dotdot" using up acc' by (simp add: clean_step_def)
        with Suc acc(3) show ?thesis
          by (auto simp: clean_list_def simp del: replicate.simps intro: exI [of _ "Suc n"])
      qed
    next
      case (snoc qs' q)
      with acc(1) have "acc = q # rev (replicate n dotdot @ qs')" by (metis append.assoc rev_eq_Cons_iff rev_rev_ident)
      moreover have "q \<noteq> dotdot" using acc(2) snoc by (simp add: plain_comp_def)
      ultimately have "rev (clean_step r acc c) = replicate n dotdot @ qs'" using up by (simp add: clean_step_def)
      with acc snoc show ?thesis by (auto simp: clean_list_def)
    qed
  next
    case plain
    have "rev (clean_step r acc c) = replicate n dotdot @ (qs @ [c])" using plain acc(1) by (simp add: clean_step_plain)
    moreover have "list_all plain_comp (qs @ [c])" using plain acc(2) by simp
    ultimately show ?thesis unfolding clean_list_def using acc(3) by blast
  qed
qed

lemma clean_comps_is_clean: "\<forall>c \<in> set cs. slash \<notin> set c \<Longrightarrow> clean_list r (clean_comps r cs)"
proof -
  assume *: "\<forall>c \<in> set cs. slash \<notin> set c"
  have run: "clean_list r (rev (foldl (clean_step r) acc cs))"
    if "clean_list r (rev acc)" "\<forall>c \<in> set cs. slash \<notin> set c" for acc
    using that
  proof (induction cs arbitrary: acc)
    case (Cons c cs)
    then have "clean_list r (rev (clean_step r acc c))" by (intro clean_step_clean) auto
    with Cons show ?case by (simp del: rev.simps)
  qed simp
  have "clean_list r (rev [])" by (simp add: clean_list_def)
  from run [OF this *] show ?thesis by (simp add: clean_comps_def)
qed

lemma path_comps_clean: "clean_list (is_abs p) (path_comps p)"
  unfolding path_comps_def by (rule clean_comps_is_clean) (auto dest: Split_parts_no_sep)

lemma clean_list_no_slash: "clean_list r cs \<Longrightarrow> \<forall>c \<in> set cs. slash \<notin> set c \<and> c \<noteq> [] \<and> c \<noteq> ''.''"
proof (intro ballI)
  fix c assume "clean_list r cs" "c \<in> set cs"
  then have "c = dotdot \<or> plain_comp c" unfolding clean_list_def list_all_iff by fastforce
  then show "slash \<notin> set c \<and> c \<noteq> [] \<and> c \<noteq> ''.''"
  proof
    assume "c = dotdot" then show ?thesis by (simp only: dotdot_no_slash) simp
  next
    assume "plain_comp c" then show ?thesis by (simp add: plain_comp_def)
  qed
qed

lemma Split_Join_slash: "cs \<noteq> [] \<Longrightarrow> \<forall>c \<in> set cs. slash \<notin> set c \<Longrightarrow> Split (Join_strings cs [slash]) slash = cs"
proof (induction cs rule: induct_list012)
  case (2 x)
  then show ?case by (simp add: Split_no_sep)
next
  case (3 x y zs)
  then show ?case by (simp add: Split_append_sep)
qed simp

text \<open>The components of a concatenation of paths are those of the parts, cleaned together.\<close>

lemma clean_comps_Nil_front: "clean_comps r ([] # cs) = clean_comps r cs"
  by (simp add: clean_comps_def clean_step_def)

lemma Split_render:
  assumes "clean_list r cs"
  shows "clean_comps r (Split (render_path r cs) slash @ ds) = clean_comps r (cs @ ds)"
proof -
  note ns = clean_list_no_slash [OF assms]
  show ?thesis
  proof (cases "cs = []")
    case True
    then show ?thesis by (cases r) (simp_all add: render_path_def clean_comps_def clean_step_def)
  next
    case False
    with ns Split_Join_slash [of cs] show ?thesis
      by (cases r) (simp_all add: render_path_def clean_comps_Nil_front)
  qed
qed

lemma is_abs_render: "clean_list r cs \<Longrightarrow> is_abs (render_path r cs) = r"
proof -
  assume "clean_list r cs"
  note ns = clean_list_no_slash [OF this]
  show ?thesis
  proof (cases r)
    case False
    show ?thesis
    proof (cases cs)
      case (Cons c ds)
      with ns obtain x c' where "c = x # c'" "x \<noteq> slash" by (cases c) auto
      then show ?thesis using False Cons by (cases ds) (simp_all add: is_abs_def render_path_def)
    qed (simp add: False is_abs_def render_path_def)
  qed (simp add: is_abs_def render_path_def)
qed

lemma path_comps_render: "clean_list r cs \<Longrightarrow> path_comps (render_path r cs) = cs"
  using Split_render [of r cs "[]"] by (simp add: path_comps_def is_abs_render clean_comps_clean)

lemma render_neq_Nil: "clean_list r cs \<Longrightarrow> render_path r cs \<noteq> []"
proof (cases cs)
  case (Cons c ds)
  assume "clean_list r cs"
  with Cons have "c \<noteq> []" using clean_list_no_slash [of r cs] by simp
  then show ?thesis using Cons by (cases ds) (simp_all add: render_path_def)
qed (simp add: render_path_def)

lemma Clean_render: "clean_list r cs \<Longrightarrow> Clean (render_path r cs) = render_path r cs"
  by (simp add: Clean_def render_neq_Nil is_abs_render path_comps_render)

lemma Clean_idem: "Clean (Clean p) = Clean p"
  using Clean_render [OF path_comps_clean [of p]]
  by (cases "p = []") (simp_all add: Clean_def [of p] go_eval)

text \<open>Joining below a cleaned absolute directory.\<close>

lemma Split_append: "Split (a @ slash # b) slash = Split a slash @ Split b slash"
  by (induction a) (auto split: list.splits)

lemma clean_list_append: "clean_list True ds \<Longrightarrow> list_all plain_comp rs \<Longrightarrow> clean_list True (ds @ rs)"
  by (auto simp: clean_list_def)

lemma Join_below:
  assumes "clean_list True ds"
  shows "Join_path [render_path True ds, p] = render_path True (clean_comps True (ds @ Split p slash))"
proof -
  let ?d = "render_path True ds"
  have "is_abs (?d @ slash # p)" by (simp add: is_abs_def render_path_def)
  moreover have "clean_comps True (Split (?d @ slash # p) slash) = clean_comps True (ds @ Split p slash)"
    using Split_render [OF assms, of "Split p slash"] by (simp only: Split_append)
  ultimately show ?thesis
    using render_neq_Nil [OF assms] by (simp add: Join_path_def Clean_def path_comps_def)
qed

lemma Join_below_clean:
  assumes "clean_list True ds" and "list_all plain_comp rs"
  shows "Join_path [render_path True ds, render_path False rs] = render_path True (ds @ rs)"
proof -
  have "clean_list False rs" using assms(2) by (auto simp: clean_list_def intro: exI [of _ 0])
  then have "Split (render_path False rs) slash = (if rs = [] then [''.''] else rs)"
    using clean_list_no_slash [of False rs] Split_Join_slash [of rs] by (auto simp: render_path_def)
  moreover have "clean_comps True (ds @ [''.'']) = ds"
    using clean_comps_clean [OF assms(1)] by (simp add: clean_comps_def clean_step_def)
  moreover have "clean_comps True (ds @ rs) = ds @ rs"
    by (rule clean_comps_clean [OF clean_list_append [OF assms]])
  ultimately show ?thesis by (simp add: Join_below [OF assms(1)])
qed

lemma render_root: "clean_list True ds \<Longrightarrow> path_comps (render_path True ds) = ds \<and> is_abs (render_path True ds)"
  by (simp add: path_comps_render is_abs_render)

lemma Clean_abs: "is_abs p \<Longrightarrow> \<exists>ds. clean_list True ds \<and> Clean p = render_path True ds"
  using path_comps_clean [of p] by (intro exI [of _ "path_comps p"]) (auto simp: Clean_def is_abs_def)

lemma Join_abs: "is_abs a \<Longrightarrow> \<exists>ds. clean_list True ds \<and> Join_path [a, b] = render_path True ds"
proof -
  assume a: "is_abs a"
  then have "is_abs (a @ slash # b)" "a \<noteq> []" by (auto simp: is_abs_def)
  with Clean_abs [of "a @ slash # b"] show ?thesis by (simp add: Join_path_def)
qed

lemma plain_comp_Split: "plain_comp c \<Longrightarrow> Split c slash = [c]"
  by (simp add: plain_comp_def Split_no_sep)

lemma Join_plain: "clean_list True ds \<Longrightarrow> plain_comp c \<Longrightarrow> Join_path [render_path True ds, c] = render_path True (ds @ [c])"
  using clean_comps_clean [OF clean_list_append, of ds "[c]"] by (simp add: Join_below plain_comp_Split)

lemma clean_list_butlast: "clean_list True (ds @ [d]) \<Longrightarrow> clean_list True ds \<and> plain_comp d"
  by (auto simp: clean_list_def)

lemma Join_strings_snoc: "xs \<noteq> [] \<Longrightarrow> Join_strings (xs @ [x]) s = Join_strings xs s @ s @ x"
proof (induction xs rule: induct_list012)
  case (2 y)
  then show ?case by simp
next
  case (3 y z zs)
  then show ?case by simp
qed simp

lemma Dir_render:
  assumes "clean_list True (ds @ [d])"
  shows "Dir (render_path True (ds @ [d])) = render_path True ds"
proof -
  from clean_list_butlast [OF assms] have ds: "clean_list True ds" and d: "slash \<notin> set d"
    by (simp_all add: plain_comp_def)
  have cut: "rev (dropWhile (\<lambda>c. c \<noteq> slash) (rev (a @ slash # d))) = a @ [slash]" for a
    using dropWhile_append_neq [of slash "rev d" "rev a"] d by simp
  show ?thesis
  proof (cases "ds = []")
    case True
    then show ?thesis using cut [of "[]"] by (simp add: Dir_def render_path_def go_eval)
  next
    case False
    then have split: "render_path True (ds @ [d]) = render_path True ds @ slash # d"
      by (simp add: render_path_def Join_strings_snoc)
    have "path_comps (render_path True ds @ [slash]) = ds"
      using Split_render [OF ds, of "[[]]"] Split_append [of "render_path True ds" "[]"] clean_comps_clean [OF ds]
      by (simp add: path_comps_def is_abs_def render_path_def clean_comps_def clean_step_def)
    moreover have "is_abs (render_path True ds @ [slash])" by (simp add: is_abs_def render_path_def)
    ultimately show ?thesis using cut [of "render_path True ds"] split by (simp add: Dir_def Clean_def)
  qed
qed

lemma drop_common_prefix: "drop_common ds (ds @ rs) = ([], rs)"
  by (induction ds) (cases rs, simp_all)

lemma Rel_below:
  assumes "clean_list True ds" and "list_all plain_comp rs"
  shows "Rel (render_path True ds) (render_path True (ds @ rs)) = Some (render_path False rs)"
proof -
  note c2 = clean_list_append [OF assms]
  have "render_path True (ds @ rs) = render_path True ds \<longleftrightarrow> rs = []"
    using render_root [OF assms(1)] render_root [OF c2] by force
  with assms(1) c2 have "Rel (render_path True ds) (render_path True (ds @ rs)) =
      (if rs = [] then Some ''.'' else Some (Join_strings rs [slash]))"
    by (simp add: Rel_def Clean_render is_abs_render path_comps_render drop_common_prefix)
  then show ?thesis by (simp add: render_path_def)
qed

text \<open>A path below a directory, both absolute: its components continue those of the directory.\<close>

definition below :: "string \<Rightarrow> string \<Rightarrow> bool" where
  "below root p \<longleftrightarrow> is_abs root \<and> is_abs p \<and> Clean p = p \<and> prefix (path_comps root) (path_comps p)"

lemma below_render: "clean_list True ds \<Longrightarrow> list_all plain_comp rs \<Longrightarrow> below (render_path True ds) (render_path True (ds @ rs))"
  using clean_list_append [of ds rs] by (simp add: below_def is_abs_render Clean_render path_comps_render)

declare below_def [go_eval]

text \<open>Cleaning a prefix first changes nothing, so joining can be done step by step.\<close>

lemma clean_comps_prefix:
  assumes "\<forall>c \<in> set xs. slash \<notin> set c"
  shows "clean_comps r (clean_comps r xs @ ys) = clean_comps r (xs @ ys)"
proof -
  have "rev (foldl (clean_step r) [] (clean_comps r xs)) = clean_comps r xs"
    using clean_comps_clean [OF clean_comps_is_clean [OF assms]] by (simp add: clean_comps_def)
  then have "foldl (clean_step r) [] (clean_comps r xs) = foldl (clean_step r) [] xs"
    by (metis clean_comps_def rev_rev_ident)
  then show ?thesis by (simp add: clean_comps_def)
qed

lemma Clean_prefix:
  assumes "is_abs a"
  shows "Clean (Clean a @ slash # b) = Clean (a @ slash # b)"
proof -
  have abs: "is_abs (Clean a @ slash # b)" "is_abs (a @ slash # b)" "a \<noteq> []"
    using assms by (auto simp: is_abs_def Clean_def render_path_def)
  have "path_comps (Clean a @ slash # b) = clean_comps True (path_comps a @ Split b slash)"
    using Split_render [OF path_comps_clean [of a], of "Split b slash"] assms abs
    by (simp add: path_comps_def [of "_ @ slash # b"] Clean_def Split_append)
  also have "\<dots> = clean_comps True (Split a slash @ Split b slash)"
    using clean_comps_prefix [of "Split a slash" True "Split b slash"] assms
    by (auto simp: path_comps_def dest: Split_parts_no_sep)
  also have "\<dots> = path_comps (a @ slash # b)"
    using abs by (simp add: path_comps_def Split_append)
  finally show ?thesis using abs by (simp add: Clean_def [of "Clean a @ slash # b"] Clean_def [of "a @ slash # b"])
qed

lemma Join_path_3:
  assumes "is_abs a"
  shows "Join_path [a, b, c] = Join_path [Join_path [a, b], c]"
proof -
  have a: "a \<noteq> []" and ab: "is_abs (a @ slash # b)" using assms by (auto simp: is_abs_def)
  then have "Join_path [a, b] = Clean (a @ slash # b)" by (simp add: Join_path_def)
  moreover have "Clean (a @ slash # b) \<noteq> []" using ab by (simp add: Clean_def render_path_def)
  ultimately have "Join_path [Join_path [a, b], c] = Clean (Clean (a @ slash # b) @ slash # c)" by (simp add: Join_path_def)
  also have "\<dots> = Join_path [a, b, c]" using Clean_prefix [OF ab, of c] a by (simp add: Join_path_def)
  finally show ?thesis by simp
qed

end
