(* ===== verification/SvcConfig.thy ===== *)
theory SvcConfig
  imports GoPath
begin

text \<open>
  \<open>internal/svcd/config.go\<close>: the service specification and the line-oriented TOML reader that
  produces it, from a file (\<open>ParseServiceConfig\<close>, \<open>LoadServiceDir\<close>) or from a payload received
  over the control plane (\<open>ParseServiceSpecFromBytes\<close>).

  A \<open>float64\<close> is its IEEE bit pattern; \<open>strconv.ParseFloat\<close> is the argument \<open>pf\<close> of the
  operations that reach it (it returns the text of its error or the bit pattern). Nil and empty
  slices are the same list. The run-time panic of a slice expression whose bounds cross is the
  error \<open>PanicSliceBounds\<close>.
\<close>

type_synonym float64 = u64

record ServiceSpec =
  spec_Name :: string
  spec_Exec :: string
  spec_Args :: "string list"
  spec_Env :: "string list"
  spec_Directory :: string
  spec_RootDir :: string
  spec_After :: "string list"
  spec_MemoryLimit :: int
  spec_CPUQuota :: float64
  spec_Restart :: string
  spec_MaxRestarts :: int
  spec_SeccompProfile :: string
  spec_CapabilitiesAdd :: "string list"
  spec_CapabilitiesDrop :: "string list"
  spec_NoNewPrivs :: bool

datatype config_error =
    PanicSliceBounds
  | OpenFailed string string
  | InvalidMemoryLimit nat string string num_error
  | InvalidCPUQuota nat string string
  | ReadFailed string
  | ScanFailed
  | EmptyFile string
  | MissingExec string
  | ConfigMissingExec
  | ConfigMissingName
  | ReadDirFailed string string
  | ErrorParsing string config_error

text \<open>The values every parse starts from.\<close>

definition default_spec :: ServiceSpec where
  "default_spec = \<lparr>spec_Name = [], spec_Exec = [], spec_Args = [], spec_Env = [],
     spec_Directory = [], spec_RootDir = [], spec_After = [], spec_MemoryLimit = 0,
     spec_CPUQuota = 0, spec_Restart = ''on-failure'', spec_MaxRestarts = 0,
     spec_SeccompProfile = ''app-default'', spec_CapabilitiesAdd = [],
     spec_CapabilitiesDrop = [], spec_NoNewPrivs = True\<rparr>"

subsection \<open>Values\<close>

abbreviation dquote :: char where
  "dquote \<equiv> CHR 0x22"

abbreviation squote :: char where
  "squote \<equiv> CHR 0x27"

abbreviation backslash :: char where
  "backslash \<equiv> CHR 0x5C"

text \<open>The Go slice expression \<open>s[1 : len(s)-1]\<close>.\<close>

definition slice_inner :: "string \<Rightarrow> (config_error, string) result" where
  "slice_inner s = (if length s < 2 then Inl PanicSliceBounds else Inr (butlast (tl s)))"

definition unquote :: "string \<Rightarrow> (config_error, string) result" where
  "unquote s0 =
     (let s = TrimSpace s0
      in if (HasPrefix s [dquote] \<and> HasSuffix s [dquote]) \<or>
            (HasPrefix s [squote] \<and> HasSuffix s [squote])
         then slice_inner s
         else Inr s)"

definition append_item :: "string list \<Rightarrow> string \<Rightarrow> (config_error, string list) result" where
  "append_item result current =
     bind_res (unquote (TrimSpace current))
       (\<lambda>item. Inr (if item \<noteq> [] then result @ [item] else result))"

text \<open>The loop of \<open>parseArray\<close>: what is left of the content, then its local variables in the order of the source.\<close>

fun parseArray_loop ::
  "string \<Rightarrow> string list \<Rightarrow> string \<Rightarrow> bool \<Rightarrow> char \<Rightarrow> bool \<Rightarrow> (config_error, string list \<times> string) result"
where
  "parseArray_loop [] result current inQuotes quoteChar escaped = Inr (result, current)"
| "parseArray_loop (ch # cs) result current inQuotes quoteChar escaped =
     (if escaped then parseArray_loop cs result (current @ [ch]) inQuotes quoteChar False
      else if ch = backslash \<and> inQuotes
        then parseArray_loop cs result (current @ [ch]) inQuotes quoteChar True
      else if ch = dquote \<or> ch = squote
        then (if \<not> inQuotes then parseArray_loop cs result (current @ [ch]) True ch False
              else if ch = quoteChar then parseArray_loop cs result (current @ [ch]) False quoteChar False
              else parseArray_loop cs result (current @ [ch]) inQuotes quoteChar False)
      else if ch = CHR '','' \<and> \<not> inQuotes
        then bind_res (append_item result current)
               (\<lambda>r. parseArray_loop cs r [] inQuotes quoteChar False)
      else parseArray_loop cs result (current @ [ch]) inQuotes quoteChar False)"

definition parseArray :: "string \<Rightarrow> (config_error, string list) result" where
  "parseArray s0 =
     (let s = TrimSpace s0
      in if \<not> HasPrefix s ''['' \<or> \<not> HasSuffix s '']'' then Inr []
         else bind_res (slice_inner s) (\<lambda>inner.
           let content = TrimSpace inner
           in if content = [] then Inr []
              else bind_res (parseArray_loop content [] [] False (CHR 0x00) False) (\<lambda>(result, current).
                if current \<noteq> [] then append_item result current else Inr result)))"

text \<open>\<open>parseMemoryLimit\<close>; the error carries the number text that \<open>strconv.ParseInt\<close> rejected.\<close>

definition parseMemoryLimit :: "string \<Rightarrow> (string \<times> num_error, int) result" where
  "parseMemoryLimit s0 =
     (let s = TrimSpace s0
      in if s = [] then Inr 0
         else
           let upper = ToUpper s;
               (multiplier, num) =
                 (if HasSuffix upper ''G'' \<or> HasSuffix upper ''GB'' then (1024 * 1024 * 1024, TrimRight upper ''GB'')
                  else if HasSuffix upper ''M'' \<or> HasSuffix upper ''MB'' then (1024 * 1024, TrimRight upper ''MB'')
                  else if HasSuffix upper ''K'' \<or> HasSuffix upper ''KB'' then (1024, TrimRight upper ''KB'')
                  else (1, s))
           in case ParseInt10 (TrimSpace num) of
                Inl e \<Rightarrow> Inl (TrimSpace num, e)
              | Inr val \<Rightarrow> Inr (wrap_int64 (val * multiplier)))"

definition parseCPUQuota ::
  "(string \<Rightarrow> (string, float64) result) \<Rightarrow> string \<Rightarrow> (string, float64) result"
where
  "parseCPUQuota pf s0 =
     (let s = TrimSpace s0
      in if s = [] then Inr 0 else pf (TrimSpace (TrimSuffix s ''%'')))"

definition parseBool :: "string \<Rightarrow> (config_error, bool) result" where
  "parseBool s =
     bind_res (unquote (TrimSpace s)) (\<lambda>u.
       let l = ToLower u in Inr (l = ''true'' \<or> l = ''1'' \<or> l = ''yes''))"

subsection \<open>Lines\<close>

text \<open>The quote state at the end of a prefix of the line, scanned as the inline-comment loop does.\<close>

fun in_quotes_after :: "char option \<Rightarrow> string \<Rightarrow> bool \<Rightarrow> char \<Rightarrow> bool" where
  "in_quotes_after prev [] inQuotes quoteChar = inQuotes"
| "in_quotes_after prev (c # cs) inQuotes quoteChar =
     (if (c = dquote \<or> c = squote) \<and> prev \<noteq> Some backslash
      then (if \<not> inQuotes then in_quotes_after (Some c) cs True c
            else if c = quoteChar then in_quotes_after (Some c) cs False quoteChar
            else in_quotes_after (Some c) cs inQuotes quoteChar)
      else in_quotes_after (Some c) cs inQuotes quoteChar)"

definition strip_comment :: "string \<Rightarrow> string" where
  "strip_comment line =
     (case IndexByte line CHR ''#'' of
        None \<Rightarrow> line
      | Some idx \<Rightarrow>
          if in_quotes_after None (take idx line) False (CHR 0x00) then line
          else TrimSpace (take idx line))"

text \<open>The \<open>switch\<close> over the lower-cased key.\<close>

definition set_key ::
  "(string \<Rightarrow> (string, float64) result) \<Rightarrow> nat \<Rightarrow> string \<Rightarrow> string \<Rightarrow> ServiceSpec
     \<Rightarrow> (config_error, ServiceSpec) result"
where
  "set_key pf lineNum key val spec =
     (let k = ToLower key
      in if k = ''name'' then bind_res (unquote val) (\<lambda>v. Inr (spec\<lparr>spec_Name := v\<rparr>))
         else if k = ''exec'' then bind_res (unquote val) (\<lambda>v. Inr (spec\<lparr>spec_Exec := v\<rparr>))
         else if k = ''args'' then bind_res (parseArray val) (\<lambda>v. Inr (spec\<lparr>spec_Args := v\<rparr>))
         else if k = ''env'' \<or> k = ''environment''
           then bind_res (parseArray val) (\<lambda>v. Inr (spec\<lparr>spec_Env := spec_Env spec @ v\<rparr>))
         else if k = ''directory'' then bind_res (unquote val) (\<lambda>v. Inr (spec\<lparr>spec_Directory := v\<rparr>))
         else if k = ''root_dir'' \<or> k = ''rootdir'' \<or> k = ''chroot''
           then bind_res (unquote val) (\<lambda>v. Inr (spec\<lparr>spec_RootDir := v\<rparr>))
         else if k = ''after'' then bind_res (parseArray val) (\<lambda>v. Inr (spec\<lparr>spec_After := v\<rparr>))
         else if k = ''memory_limit''
           then bind_res (unquote val) (\<lambda>v.
             case parseMemoryLimit v of
               Inl (num, e) \<Rightarrow> Inl (InvalidMemoryLimit lineNum val num e)
             | Inr b \<Rightarrow> Inr (spec\<lparr>spec_MemoryLimit := b\<rparr>))
         else if k = ''cpu_quota''
           then bind_res (unquote val) (\<lambda>v.
             case parseCPUQuota pf v of
               Inl e \<Rightarrow> Inl (InvalidCPUQuota lineNum val e)
             | Inr q \<Rightarrow> Inr (spec\<lparr>spec_CPUQuota := q\<rparr>))
         else if k = ''restart'' then bind_res (unquote val) (\<lambda>v. Inr (spec\<lparr>spec_Restart := v\<rparr>))
         else if k = ''max_restarts''
           then bind_res (unquote val) (\<lambda>v.
             case ParseInt10 (TrimSpace v) of
               Inl e \<Rightarrow> Inr spec
             | Inr n \<Rightarrow> Inr (spec\<lparr>spec_MaxRestarts := n\<rparr>))
         else if k = ''seccomp_profile'' then bind_res (unquote val) (\<lambda>v. Inr (spec\<lparr>spec_SeccompProfile := v\<rparr>))
         else if k = ''capabilities_add'' \<or> k = ''capabilities.add''
           then bind_res (parseArray val) (\<lambda>v. Inr (spec\<lparr>spec_CapabilitiesAdd := v\<rparr>))
         else if k = ''capabilities_drop'' \<or> k = ''capabilities.drop''
           then bind_res (parseArray val) (\<lambda>v. Inr (spec\<lparr>spec_CapabilitiesDrop := v\<rparr>))
         else if k = ''no_new_privs'' then bind_res (parseBool val) (\<lambda>v. Inr (spec\<lparr>spec_NoNewPrivs := v\<rparr>))
         else Inr spec)"

text \<open>One iteration of the scan loop, on the specification and the current section.\<close>

definition parse_line ::
  "(string \<Rightarrow> (string, float64) result) \<Rightarrow> nat \<times> string \<Rightarrow> ServiceSpec \<times> string
     \<Rightarrow> (config_error, ServiceSpec \<times> string) result"
where
  "parse_line pf nl st =
     (let (lineNum, raw) = nl; (spec, currentSection) = st; line0 = TrimSpace raw
      in if line0 = [] \<or> HasPrefix line0 ''#'' then Inr (spec, currentSection)
         else
           let line = strip_comment line0
           in if line = [] then Inr (spec, currentSection)
              else if HasPrefix line ''['' \<and> HasSuffix line '']''
                then bind_res (slice_inner line) (\<lambda>inner. Inr (spec, ToLower (TrimSpace inner)))
              else (case SplitN2 line CHR ''='' of
                      [p0, p1] \<Rightarrow>
                        (let key = TrimSpace p0; val = TrimSpace p1
                         in if currentSection = ''env'' \<or> currentSection = ''environment''
                            then bind_res (unquote val) (\<lambda>v.
                              Inr (spec\<lparr>spec_Env := spec_Env spec @ [key @ ''='' @ v]\<rparr>, currentSection))
                            else bind_res (set_key pf lineNum key val spec) (\<lambda>s. Inr (s, currentSection)))
                    | _ \<Rightarrow> Inr (spec, currentSection)))"

text \<open>The scan loop over numbered lines: the state at the end, then the scanner's own error.\<close>

definition parse_lines ::
  "(string \<Rightarrow> (string, float64) result) \<Rightarrow> string list \<Rightarrow> (config_error, ServiceSpec) result"
where
  "parse_lines pf ls =
     bind_res (fold_res (parse_line pf) (zip [1..<Suc (length ls)] ls) (default_spec, []))
       (\<lambda>(spec, sec). Inr spec)"

definition name_from_path :: "string \<Rightarrow> string" where
  "name_from_path path = TrimSuffix (Base path) (Ext (Base path))"

text \<open>\<open>file\<close> is what \<open>os.Open\<close> and reading to the end give: the text of the error, or the contents.\<close>

definition ParseServiceConfig ::
  "(string \<Rightarrow> (string, float64) result) \<Rightarrow> string \<Rightarrow> (string, bytes) result \<Rightarrow> (config_error, ServiceSpec) result"
where
  "ParseServiceConfig pf path file =
     (case file of
        Inl e \<Rightarrow> Inl (OpenFailed path e)
      | Inr data \<Rightarrow>
          (let (ls, too_long) = scan_lines data
           in bind_res (parse_lines pf ls) (\<lambda>spec.
                if too_long then Inl (ReadFailed path)
                else if spec_Exec spec = []
                  then if ls = [] then Inl (EmptyFile path)
                       else Inl (MissingExec (if spec_Name spec = [] then name_from_path path else spec_Name spec))
                else Inr (if spec_Name spec = [] then spec\<lparr>spec_Name := name_from_path path\<rparr> else spec))))"

definition ParseServiceSpecFromBytes ::
  "(string \<Rightarrow> (string, float64) result) \<Rightarrow> bytes \<Rightarrow> (config_error, ServiceSpec) result"
where
  "ParseServiceSpecFromBytes pf data =
     (let (ls, too_long) = scan_lines data
      in bind_res (parse_lines pf ls) (\<lambda>spec.
           if too_long then Inl ScanFailed
           else if spec_Exec spec = [] then Inl ConfigMissingExec
           else if spec_Name spec = [] then Inl ConfigMissingName
           else Inr spec))"

subsection \<open>Directories\<close>

text \<open>The messages of the errors, which \<open>LoadServiceDir\<close> searches.\<close>

fun num_error_text :: "num_error \<Rightarrow> string" where
  "num_error_text ErrSyntax = ''invalid syntax''"
| "num_error_text ErrRange = ''value out of range''"

fun config_error_text :: "config_error \<Rightarrow> string" where
  "config_error_text PanicSliceBounds = []"
| "config_error_text (OpenFailed path e) = ''failed to open config file '' @ path @ '': '' @ e"
| "config_error_text (InvalidMemoryLimit n val num e) =
     ''line '' @ show_nat n @ '': invalid memory_limit '' @ Quote val @
     '': strconv.ParseInt: parsing '' @ Quote num @ '': '' @ num_error_text e"
| "config_error_text (InvalidCPUQuota n val e) =
     ''line '' @ show_nat n @ '': invalid cpu_quota '' @ Quote val @ '': '' @ e"
| "config_error_text (ReadFailed path) = ''error reading config file '' @ path @ '': bufio.Scanner: token too long''"
| "config_error_text ScanFailed = ''error scanning TOML config bytes: bufio.Scanner: token too long''"
| "config_error_text (EmptyFile path) = ''service file '' @ path @ '' is empty''"
| "config_error_text (MissingExec name) =
     ''service '' @ name @ '' missing mandatory '' @ [squote] @ ''exec'' @ [squote] @ '' binary path''"
| "config_error_text ConfigMissingExec =
     ''service config missing mandatory '' @ [squote] @ ''exec'' @ [squote] @ '' binary path''"
| "config_error_text ConfigMissingName =
     ''service config missing mandatory '' @ [squote] @ ''name'' @ [squote] @ '' field''"
| "config_error_text (ReadDirFailed dir e) = ''failed to read service dir '' @ dir @ '': '' @ e"
| "config_error_text (ErrorParsing path e) = ''error parsing '' @ path @ '': '' @ config_error_text e"

text \<open>A directory entry: its name and whether it is a directory. \<open>os.ReadDir\<close> returns them sorted by name.\<close>

type_synonym dir_entry = "string \<times> bool"

datatype read_dir_result = DirNotExist | DirError string | DirEntries "dir_entry list"

definition load_entry ::
  "(string \<Rightarrow> (string, float64) result) \<Rightarrow> (string \<Rightarrow> (string, bytes) result) \<Rightarrow> string \<Rightarrow>
     dir_entry \<Rightarrow> ServiceSpec list \<Rightarrow> (config_error, ServiceSpec list) result"
where
  "load_entry pf read dir entry services =
     (let (name, isDir) = entry
      in if isDir \<or> \<not> HasSuffix name ''.toml'' then Inr services
         else
           let path = Join_path [dir, name]
           in case ParseServiceConfig pf path (read path) of
                Inr spec \<Rightarrow> Inr (services @ [spec])
              | Inl PanicSliceBounds \<Rightarrow> Inl PanicSliceBounds
              | Inl err \<Rightarrow>
                  if Contains (config_error_text err) ''is empty'' then Inr services
                  else Inl (ErrorParsing path err))"

definition LoadServiceDir ::
  "(string \<Rightarrow> (string, float64) result) \<Rightarrow> (string \<Rightarrow> read_dir_result) \<Rightarrow>
     (string \<Rightarrow> (string, bytes) result) \<Rightarrow> string \<Rightarrow> (config_error, ServiceSpec list) result"
where
  "LoadServiceDir pf readDir read dir =
     (case readDir dir of
        DirNotExist \<Rightarrow> Inr []
      | DirError e \<Rightarrow> Inl (ReadDirFailed dir e)
      | DirEntries entries \<Rightarrow> fold_res (load_entry pf read dir) entries [])"

declare num_error_text.simps [go_eval] config_error_text.simps [go_eval] load_entry_def [go_eval]
  LoadServiceDir_def [go_eval]

declare default_spec_def [go_eval] slice_inner_def [go_eval] unquote_def [go_eval] append_item_def [go_eval]
  parseArray_def [go_eval] parseMemoryLimit_def [go_eval] parseCPUQuota_def [go_eval]
  parseBool_def [go_eval] strip_comment_def [go_eval] set_key_def [go_eval] parse_line_def [go_eval]
  parse_lines_def [go_eval] name_from_path_def [go_eval] ParseServiceConfig_def [go_eval]
  ParseServiceSpecFromBytes_def [go_eval]

subsection \<open>Quoted values\<close>

abbreviation quoted :: "string \<Rightarrow> string" where
  "quoted s \<equiv> dquote # s @ [dquote]"

lemma TrimSpace_quoted [simp]: "TrimSpace (quoted s) = quoted s"
  by (rule TrimSpace_id) (simp add: is_space_def)

lemma unquote_quoted [simp]: "unquote (quoted s) = Inr s"
  by (simp add: unquote_def slice_inner_def Let_def)

lemma unquote_cases:
  obtains (panic) "unquote s = Inl PanicSliceBounds" "TrimSpace s = [dquote] \<or> TrimSpace s = [squote]"
    | (ok) v where "unquote s = Inr v" "TrimSpace s \<noteq> [dquote]" "TrimSpace s \<noteq> [squote]"
proof (cases "(HasPrefix (TrimSpace s) [dquote] \<and> HasSuffix (TrimSpace s) [dquote]) \<or>
            (HasPrefix (TrimSpace s) [squote] \<and> HasSuffix (TrimSpace s) [squote])")
  case True
  then obtain c t where t: "TrimSpace s = c # t" "c = dquote \<or> c = squote"
    by (cases "TrimSpace s") auto
  with True show ?thesis
    by (cases t) (auto simp: unquote_def slice_inner_def Let_def intro: panic ok)
next
  case False
  then show ?thesis by (intro ok [of "TrimSpace s"]) (auto simp: unquote_def Let_def)
qed

subsection \<open>Arrays\<close>

text \<open>A value that needs no escaping inside double quotes.\<close>

definition plain :: "string \<Rightarrow> bool" where
  "plain s \<longleftrightarrow> dquote \<notin> set s \<and> backslash \<notin> set s"

definition render_array :: "string list \<Rightarrow> string" where
  "render_array xs = ''['' @ Join_strings (map quoted xs) '', '' @ '']''"

lemma parseArray_loop_inside:
  "plain s \<Longrightarrow> parseArray_loop (s @ dquote # rest) r cur True dquote False =
     parseArray_loop rest r (cur @ s @ [dquote]) False dquote False"
  by (induction s arbitrary: cur) (auto simp: plain_def)

lemma parseArray_loop_quoted:
  assumes "plain s"
  shows "parseArray_loop (quoted s @ rest) r cur False qc False =
     parseArray_loop rest r (cur @ quoted s) False dquote False"
  using parseArray_loop_inside [OF assms, of rest r "cur @ [dquote]"] by simp

lemma append_item_quoted:
  assumes "s \<noteq> []" and "\<forall>c \<in> set cur. is_space c"
  shows "append_item r (cur @ quoted s) = Inr (r @ [s])"
proof -
  have "TrimSpace (cur @ t) = TrimSpace t" if "\<forall>c \<in> set cur. is_space c" for t
    using that by (induction cur) (auto simp: TrimSpace_space_left)
  with assms show ?thesis by (simp add: append_item_def del: append.simps)
qed

lemma parseArray_loop_items:
  assumes "xs \<noteq> []" and "\<forall>x \<in> set xs. plain x \<and> x \<noteq> []" and "\<forall>c \<in> set cur. is_space c"
  shows "\<exists>cur'. (\<forall>c \<in> set cur'. is_space c) \<and>
    parseArray_loop (Join_strings (map quoted xs) '', '') r cur False qc False =
      Inr (r @ butlast xs, cur' @ quoted (last xs))"
  using assms
proof (induction xs arbitrary: r cur qc rule: induct_list012)
  case 1
  then show ?case by simp
next
  case (2 x)
  then show ?case using parseArray_loop_quoted [of x "[]" r cur qc] by auto
next
  case (3 x y zs)
  let ?rest = "Join_strings (map quoted (y # zs)) '', ''"
  have "parseArray_loop (Join_strings (map quoted (x # y # zs)) '', '') r cur False qc False
      = parseArray_loop (quoted x @ '', '' @ ?rest) r cur False qc False"
    by simp
  also have "\<dots> = parseArray_loop ('', '' @ ?rest) r (cur @ quoted x) False dquote False"
    using 3 by (intro parseArray_loop_quoted) auto
  also have "\<dots> = parseArray_loop ?rest (r @ [x]) '' '' False dquote False"
    using append_item_quoted [of x cur r] 3 by simp
  finally have eq: "parseArray_loop (Join_strings (map quoted (x # y # zs)) '', '') r cur False qc False
      = parseArray_loop ?rest (r @ [x]) '' '' False dquote False" .
  have "\<forall>c \<in> set '' ''. is_space c" by (simp add: is_space_def)
  with "3.IH"(2) [of "'' ''" "r @ [x]" dquote] "3.prems" eq show ?case by auto
qed


subsection \<open>Properties of the configuration reader\<close>

lemma Join_quoted_shape:
  "xs \<noteq> [] \<Longrightarrow> \<exists>t. Join_strings (map quoted xs) '', '' = dquote # t \<and> last (dquote # t) = dquote \<and> t \<noteq> []"
proof (induction xs rule: induct_list012)
  case (3 x y zs)
  then obtain t where "Join_strings (map quoted (y # zs)) '', '' = dquote # t" "last (dquote # t) = dquote" "t \<noteq> []"
    by auto
  then show ?case by auto
qed auto

lemma TrimSpace_render_array [simp]: "TrimSpace (render_array xs) = render_array xs"
  by (rule TrimSpace_id) (simp add: render_array_def is_space_def)

text \<open>Reading back an array that was written as the launcher and the documentation write it,
  double-quoted items joined by a comma and a space, gives exactly the items, in order, as long as
  no item is empty or needs escaping.\<close>

theorem parseArray_render_array:
  assumes "\<forall>x \<in> set xs. plain x \<and> x \<noteq> []"
  shows "parseArray (render_array xs) = Inr xs"
proof (cases "xs = []")
  case True
  then show ?thesis by (simp add: render_array_def go_eval)
next
  case False
  let ?c = "Join_strings (map quoted xs) '', ''"
  obtain t where t: "?c = dquote # t" "last (dquote # t) = dquote" "t \<noteq> []"
    using Join_quoted_shape [OF False] by auto
  have trim: "TrimSpace ?c = ?c" by (rule TrimSpace_id) (use t in \<open>auto simp: is_space_def\<close>)
  obtain cur where cur: "\<forall>c \<in> set cur. is_space c"
    "parseArray_loop ?c [] [] False (CHR 0x00) False = Inr (butlast xs, cur @ quoted (last xs))"
    using parseArray_loop_items [OF False assms, of "[]" "[]" "CHR 0x00"] by auto
  have item: "append_item (butlast xs) (cur @ quoted (last xs)) = Inr xs"
    using append_item_quoted [OF _ cur(1), of "last xs"] assms False by (auto simp del: append.simps)
  have sl: "slice_inner (render_array xs) = Inr ?c"
    by (simp add: slice_inner_def render_array_def butlast_append)
  have pre: "HasPrefix (render_array xs) ''[''" "HasSuffix (render_array xs) '']''"
    by (simp_all add: render_array_def)
  have ne: "?c \<noteq> []" using t by simp
  show ?thesis
    using pre ne by (simp add: parseArray_def Let_def sl trim cur(2) item del: append.simps)
qed

theorem parseArray_render_array_witness:
  "parseArray (render_array [''--port'', ''80,81'', ''a b'']) = Inr [''--port'', ''80,81'', ''a b'']"
  by (rule parseArray_render_array) (simp add: plain_def)

lemma payload_reads_back:
  assumes "ParseServiceSpecFromBytes pf data = Inr spec"
  shows "spec_Exec spec \<noteq> [] \<and> spec_Name spec \<noteq> [] \<and> ParseServiceConfig pf path (Inr data) = Inr spec"
  using assms
  by (auto simp: ParseServiceSpecFromBytes_def ParseServiceConfig_def Let_def result_simps
      split: prod.splits if_splits)



text \<open>A line that assigns a quoted value sets that key, even if the value holds a comment sign.\<close>

lemma in_quotes_inside: "dquote \<notin> set v \<Longrightarrow> in_quotes_after prev v True dquote"
  by (induction v arbitrary: prev) auto

lemma in_quotes_word:
  "dquote \<notin> set k \<Longrightarrow> squote \<notin> set k \<Longrightarrow> in_quotes_after prev (k @ rest) False q =
     in_quotes_after (if k = [] then prev else Some (last k)) rest False q"
  by (induction k arbitrary: prev) auto

lemma IndexByte_skip: "c \<notin> set s \<Longrightarrow> IndexByte (s @ t) c = map_option (\<lambda>i. length s + i) (IndexByte t c)"
  by (induction s; cases "IndexByte t c") auto

lemma strip_comment_key_line:
  assumes "dquote \<notin> set k" "squote \<notin> set k" "CHR ''#'' \<notin> set k" "dquote \<notin> set v"
  shows "strip_comment (key_line k v) = key_line k v"
proof -
  let ?p = "k @ '' = '' @ [dquote]"
  have line: "key_line k v = ?p @ v @ [dquote]" by (simp add: key_line_def)
  have "in_quotes_after None (take (length ?p + i) (key_line k v)) False (CHR 0x00)" if "i \<le> length v" for i
  proof -
    have t: "take (length ?p + i) (key_line k v) = (k @ '' = '') @ dquote # take i v"
      using that by (simp add: line numeral_eq_Suc)
    show ?thesis
      unfolding t using assms in_quotes_inside [of "take i v"]
      by (subst in_quotes_word) (auto dest: in_set_takeD)
  qed
  moreover have "IndexByte (key_line k v) CHR ''#'' = None \<or> (\<exists>i \<le> length v. IndexByte (key_line k v) CHR ''#'' = Some (length ?p + i))"
  proof -
    have "IndexByte (key_line k v) CHR ''#'' = map_option (\<lambda>i. length ?p + i) (IndexByte (v @ [dquote]) CHR ''#'')"
      unfolding line using assms(3) by (intro IndexByte_skip) simp
    moreover have "IndexByte (v @ [dquote]) CHR ''#'' = Some i \<Longrightarrow> i \<le> length v" for i
      by (induction v arbitrary: i) (auto split: if_splits)
    ultimately show ?thesis by (cases "IndexByte (v @ [dquote]) CHR ''#''") auto
  qed
  ultimately show ?thesis by (auto simp: strip_comment_def)
qed

definition setting_key :: "string \<Rightarrow> bool" where
  "setting_key k \<longleftrightarrow> word_key k \<and> hd k \<noteq> CHR ''#'' \<and> hd k \<noteq> CHR ''['' \<and> dquote \<notin> set k \<and> squote \<notin> set k \<and> CHR ''#'' \<notin> set k"

lemma parse_key_line:
  assumes "setting_key k" and "dquote \<notin> set v"
  shows "parse_line pf (n, key_line k v) (spec, []) = bind_res (set_key pf n k (quoted v) spec) (\<lambda>s. Inr (s, []))"
proof -
  have hd: "hd (key_line k v) = hd k" "key_line k v \<noteq> []"
    using assms(1) by (auto simp: key_line_def setting_key_def word_key_def)
  have "strip_comment (key_line k v) = key_line k v"
    using assms by (intro strip_comment_key_line) (simp_all add: setting_key_def)
  then show ?thesis
    using assms(1) hd key_line_reads(4) [of k v] by (simp add: parse_line_def setting_key_def key_line_reads)
qed

text \<open>The key a line of the input assigns to, as the loop computes it.\<close>

definition line_key :: "string \<Rightarrow> string" where
  "line_key raw = ToLower (TrimSpace (takeWhile (\<lambda>c. c \<noteq> CHR ''='') (strip_comment (TrimSpace raw))))"

lemma set_key_keeps_hardening:
  assumes "set_key pf n key val spec = Inr spec'"
    and "ToLower key \<noteq> ''no_new_privs''" "ToLower key \<noteq> ''seccomp_profile''"
  shows "spec_NoNewPrivs spec' = spec_NoNewPrivs spec \<and> spec_SeccompProfile spec' = spec_SeccompProfile spec"
  using assms
  by (auto simp: set_key_def Let_def result_simps split: if_splits sum.splits prod.splits)

lemma SplitN2_two: "SplitN2 s c = [a, b] \<Longrightarrow> a = takeWhile (\<lambda>x. x \<noteq> c) s"
  by (auto simp: SplitN2_def split: if_splits)

lemma parse_line_keeps_hardening:
  assumes "parse_line pf (n, raw) (spec, sec) = Inr (spec', sec')"
    and "line_key raw \<noteq> ''no_new_privs''" "line_key raw \<noteq> ''seccomp_profile''"
  shows "spec_NoNewPrivs spec' = spec_NoNewPrivs spec \<and> spec_SeccompProfile spec' = spec_SeccompProfile spec"
  using assms
  by (auto simp: parse_line_def line_key_def Let_def result_simps
      split: if_splits list.splits dest!: SplitN2_two set_key_keeps_hardening)

text \<open>C39: hardening is on unless it is switched off by name. An accepted payload none of whose
  lines assigns to \<open>no_new_privs\<close> or \<open>seccomp_profile\<close> runs with no-new-privileges set and with the
  \<open>app-default\<close> seccomp profile, whatever else it contains.\<close>

theorem hardening_by_default:
  assumes "ParseServiceSpecFromBytes pf data = Inr spec"
    and "\<forall>raw \<in> set (fst (scan_lines data)). line_key raw \<noteq> ''no_new_privs'' \<and> line_key raw \<noteq> ''seccomp_profile''"
  shows "spec_NoNewPrivs spec \<and> spec_SeccompProfile spec = ''app-default''"
proof -
  obtain ls too_long where ls: "scan_lines data = (ls, too_long)" by force
  with assms(1) obtain sec where
    fold: "fold_res (parse_line pf) (zip [1..<Suc (length ls)] ls) (default_spec, []) = Inr (spec, sec)"
    by (auto simp: ParseServiceSpecFromBytes_def parse_lines_def Let_def result_simps split: if_splits)
  let ?P = "\<lambda>(s :: ServiceSpec, sec :: string). spec_NoNewPrivs s \<and> spec_SeccompProfile s = ''app-default''"
  have "?P (spec, sec)"
  proof (rule fold_res_invariant [OF fold, of ?P])
    show "?P (default_spec, [])" by (simp add: default_spec_def)
  next
    fix x a b
    assume x: "x \<in> set (zip [1..<Suc (length ls)] ls)" and a: "?P a" and step: "parse_line pf x a = Inr b"
    obtain n raw where [simp]: "x = (n, raw)" by force
    obtain s sec where [simp]: "a = (s, sec)" by force
    obtain s' sec' where [simp]: "b = (s', sec')" by force
    from x have "raw \<in> set ls" by (auto dest: set_zip_rightD)
    with assms(2) ls have "line_key raw \<noteq> ''no_new_privs''" "line_key raw \<noteq> ''seccomp_profile''" by auto
    with step a show "?P b" using parse_line_keeps_hardening [of pf n raw s sec s' sec'] by simp
  qed
  then show ?thesis by simp
qed

theorem hardening_by_default_witness:
  "spec_NoNewPrivs (default_spec\<lparr>spec_Name := ''web'', spec_Exec := ''/bin/httpd''\<rparr>)"
proof -
  have "ParseServiceSpecFromBytes (\<lambda>_. Inl []) (''name = web'' @ [CHR 0x0A] @ ''exec = /bin/httpd'' @ [CHR 0x0A]) =
      Inr (default_spec\<lparr>spec_Name := ''web'', spec_Exec := ''/bin/httpd''\<rparr>)"
    by (simp add: go_eval cong: strict_congs)
  moreover have "\<forall>raw \<in> set (fst (scan_lines (''name = web'' @ [CHR 0x0A] @ ''exec = /bin/httpd'' @ [CHR 0x0A]))).
      line_key raw \<noteq> ''no_new_privs'' \<and> line_key raw \<noteq> ''seccomp_profile''"
    by (simp add: go_eval line_key_def cong: strict_congs)
  ultimately have "spec_NoNewPrivs (default_spec\<lparr>spec_Name := ''web'', spec_Exec := ''/bin/httpd''\<rparr>) \<and>
      spec_SeccompProfile (default_spec\<lparr>spec_Name := ''web'', spec_Exec := ''/bin/httpd''\<rparr>) = ''app-default''"
    by (rule hardening_by_default)
  then show ?thesis ..
qed

text \<open>The size suffixes and what they multiply by.\<close>

definition memory_units :: "(string \<times> int) list" where
  "memory_units = [('''', 1), (''K'', 1024), (''KB'', 1024), (''k'', 1024), (''kb'', 1024),
     (''M'', 1048576), (''MB'', 1048576), (''m'', 1048576), (''mb'', 1048576),
     (''G'', 1073741824), (''GB'', 1073741824), (''g'', 1073741824), (''gb'', 1073741824)]"

lemma digit_facts:
  assumes "is_digit c"
  shows "to_upper_char c = c" "\<not> is_space c" "c \<notin> set ''GB''" "c \<notin> set ''MB''" "c \<notin> set ''KB''"
    "c \<noteq> CHR ''-''" "c \<noteq> CHR ''+''"
  using assms by (auto simp: is_digit_def to_upper_char_def is_space_def)

lemma ParseInt10_show_nat:
  assumes "int n < 2 ^ 63"
  shows "ParseInt10 (show_nat n) = Inr (int n)"
proof -
  have "is_digit (hd (show_nat n))"
    using show_nat_digits [of n] show_nat_neq_Nil [of n] by (metis list.pred_set hd_in_set)
  then have "hd (show_nat n) \<noteq> CHR ''-''" "hd (show_nat n) \<noteq> CHR ''+''" by (auto dest: digit_facts)
  with assms show ?thesis by (simp add: ParseInt10_def Let_def)
qed

lemma ToUpper_show_nat [simp]: "ToUpper (show_nat n) = show_nat n"
  using show_nat_digits [of n] by (auto simp: ToUpper_def list_all_iff digit_facts intro!: map_idI)

lemma TrimRight_show_nat:
  assumes "\<forall>c \<in> set u. c \<in> set cutset" and "\<forall>c. is_digit c \<longrightarrow> c \<notin> set cutset"
  shows "TrimRight (show_nat n @ u) cutset = show_nat n"
proof -
  have "dropWhile (\<lambda>c. c \<in> set cutset) (rev u @ rev (show_nat n)) = dropWhile (\<lambda>c. c \<in> set cutset) (rev (show_nat n))"
    using assms(1) by (intro dropWhile_append2) auto
  also have "\<dots> = rev (show_nat n)"
    using show_nat_digits [of n] assms(2)
    by (intro dropWhile_hd_id) (auto simp: hd_rev list_all_iff)
  finally show ?thesis by (simp add: TrimRight_def)
qed

lemma show_nat_ends: "\<not> is_space (hd (show_nat n))" "is_digit (last (show_nat n))" "\<not> is_space (last (show_nat n))"
  using show_nat_digits [of n] digit_facts(2) by (simp_all add: list_all_iff)

lemma TrimSpace_show_nat [simp]: "TrimSpace (show_nat n) = show_nat n"
  by (rule TrimSpace_id) (simp add: show_nat_ends)

lemma ToUpper_append [simp]: "ToUpper (s @ t) = ToUpper s @ ToUpper t"
  by (simp add: ToUpper_def)

lemma show_nat_not_suffix:
  assumes "\<not> is_digit c"
  shows "\<not> HasSuffix (show_nat n) (u @ [c])"
  using show_nat_ends(2) [of n] assms by (auto simp: HasSuffix_iff)

lemma upper_unit_trimmed:
  assumes "ToUpper u \<in> {[c], [c, CHR ''B'']}" and "c \<in> {CHR ''G'', CHR ''M'', CHR ''K''}"
  shows "TrimSpace (show_nat n @ u) = show_nat n @ u"
    and "TrimRight (show_nat n @ ToUpper u) [c, CHR ''B''] = show_nat n"
proof -
  have u: "u \<noteq> []" and lst: "to_upper_char (last u) \<in> {c, CHR ''B''}"
    using assms(1) by (auto simp: ToUpper_def)
  have "\<not> is_space (last u)"
    using lst assms(2) by (auto simp: is_space_def to_upper_char_def)
  with u show "TrimSpace (show_nat n @ u) = show_nat n @ u"
    by (intro TrimSpace_id) (simp add: show_nat_ends)
  show "TrimRight (show_nat n @ ToUpper u) [c, CHR ''B''] = show_nat n"
    by (rule TrimRight_show_nat) (use assms in \<open>auto simp: is_digit_def\<close>)
qed

lemma parseMemoryLimit_unit:
  assumes u: "ToUpper u \<in> {[c], [c, CHR ''B'']}" and n: "int n < 2 ^ 63"
    and c: "(c, m) \<in> {(CHR ''G'', 1073741824), (CHR ''M'', 1048576), (CHR ''K'', 1024)}"
  shows "parseMemoryLimit (show_nat n @ u) = Inr (wrap_int64 (int n * m))"
proof -
  have "c \<in> {CHR ''G'', CHR ''M'', CHR ''K''}" using c by auto
  note trimmed = upper_unit_trimmed [OF u this, of n]
  have suff: "HasSuffix (show_nat n @ [a]) [d] \<longleftrightarrow> d = a"
    "HasSuffix (show_nat n @ [a, CHR ''B'']) [d] \<longleftrightarrow> d = CHR ''B''"
    "HasSuffix (show_nat n @ [a, CHR ''B'']) [d, CHR ''B''] \<longleftrightarrow> d = a" for a d
    by (auto simp: HasSuffix_iff)
  have "\<not> HasSuffix (show_nat n @ [c]) [d, CHR ''B'']" for d
    using c by (auto simp: HasSuffix_iff)
  with u c show ?thesis
    by (elim insertE)
      (use trimmed in \<open>simp_all add: parseMemoryLimit_def Let_def suff ParseInt10_show_nat [OF n]\<close>)
qed

text \<open>A memory limit written as a decimal number with one of the thirteen size suffixes is
  read as that number of bytes, computed in 64-bit arithmetic: the exact product whenever it fits,
  and the product modulo 2 to the 64 as a signed number otherwise, never an error.\<close>

theorem memory_limit_value:
  assumes "(u, m) \<in> set memory_units" and "int n < 2 ^ 63"
  shows "parseMemoryLimit (show_nat n @ u) = Inr (wrap_int64 (int n * m)) \<and>
    (int n * m < 2 ^ 63 \<longrightarrow> parseMemoryLimit (show_nat n @ u) = Inr (int n * m))"
proof -
  have "parseMemoryLimit (show_nat n @ u) = Inr (wrap_int64 (int n * m))"
  proof (cases "u = []")
    case True
    with assms(1) have "m = 1" by (auto simp: memory_units_def)
    moreover have "\<not> HasSuffix (show_nat n) [d]" "\<not> HasSuffix (show_nat n) [e, d]" if "\<not> is_digit d" for d e
      using show_nat_not_suffix [OF that, of n "[]"] show_nat_not_suffix [OF that, of n "[e]"] by auto
    ultimately show ?thesis
      using True by (simp add: parseMemoryLimit_def ParseInt10_show_nat [OF assms(2)] is_digit_def del: HasSuffix_single)
  next
    case False
    with assms(1) have "(ToUpper u, m) \<in> {(''G'', 1073741824), (''GB'', 1073741824), (''M'', 1048576),
        (''MB'', 1048576), (''K'', 1024), (''KB'', 1024)}"
      by (auto simp: memory_units_def ToUpper_def to_upper_char_def)
    then obtain c where "ToUpper u \<in> {[c], [c, CHR ''B'']}"
        "(c, m) \<in> {(CHR ''G'', 1073741824), (CHR ''M'', 1048576), (CHR ''K'', 1024)}"
      by auto
    with assms(2) show ?thesis by (intro parseMemoryLimit_unit)
  qed
  moreover have "0 \<le> m" using assms(1) by (auto simp: memory_units_def)
  then have "int n * m < 2 ^ 63 \<longrightarrow> wrap_int64 (int n * m) = int n * m"
    by (intro impI wrap_int64_id) (auto intro: order_trans [of _ 0])
  ultimately show ?thesis by simp
qed

theorem memory_limit_value_witness:
  "parseMemoryLimit (show_nat 64 @ ''MB'') = Inr 67108864 \<and>
   parseMemoryLimit (show_nat 9999999999 @ ''GB'') = Inr (- 7709325834783293440)"
  using memory_limit_value [of "''MB''" 1048576 64] memory_limit_value [of "''GB''" 1073741824 9999999999]
  by (simp add: memory_units_def wrap_int64_def)

text \<open>Removing quotes fails exactly on a value that is a single quote character, and there it
  does not report an error but ends the program (the slice bounds cross); a control-plane payload
  that assigns such a value to a name is enough.\<close>

theorem unquote_panics_iff:
  "(unquote s = Inl e \<longleftrightarrow> e = PanicSliceBounds \<and> (TrimSpace s = [dquote] \<or> TrimSpace s = [squote])) \<and>
   ParseServiceSpecFromBytes pf (''name = '' @ [dquote]) = Inl PanicSliceBounds"
proof
  show "unquote s = Inl e \<longleftrightarrow> e = PanicSliceBounds \<and> (TrimSpace s = [dquote] \<or> TrimSpace s = [squote])"
    by (cases s rule: unquote_cases) auto
  show "ParseServiceSpecFromBytes pf (''name = '' @ [dquote]) = Inl PanicSliceBounds"
    by (simp add: go_eval cong: strict_congs)
qed

end
