(* ===== verification/VsockServer.thy ===== *)
theory VsockServer
  imports VsockFrame SvcConfig
begin

text \<open>
  \<open>internal/vsockd/server.go\<close>: the RPC server. The Go interface \<open>ServiceProvider\<close> is a record of
  operations on a provider state \<open>'p\<close>; an operation fails with the text of its error, or panics
  (listing the services has no error result, so it can only panic). A panic ends the daemon. JSON (package \<open>encoding/json\<close>) is the record \<open>json_ops\<close>; the values that
  other parts contribute to responses (the metrics of the runtime, the answer of the
  observability daemon, the system status) are of the type \<open>'d\<close> and come from \<open>host_env\<close>.
  Log output is left out.
\<close>

record ServiceInfo =
  si_Name :: string
  si_State :: string
  si_PID :: int
  si_Exec :: string
  si_MemoryLimit :: int
  si_CPUQuota :: float64
  si_Restart :: string
  si_SeccompProfile :: string
  si_After :: "string list"

datatype 'd rpc_data = NoData | TextData string | ServicesData "ServiceInfo list" | HostData 'd

record 'd RPCResponse =
  resp_ID :: string
  resp_Success :: bool
  resp_Error :: string
  resp_Data :: "'d rpc_data"

datatype call_error = CallFailed string | CallPanic

record 'p ServiceProvider =
  prov_ListServices :: "'p \<Rightarrow> (call_error, ServiceInfo list) result \<times> 'p"
  prov_StartService :: "string \<Rightarrow> 'p \<Rightarrow> call_error option \<times> 'p"
  prov_StopService :: "string \<Rightarrow> 'p \<Rightarrow> call_error option \<times> 'p"
  prov_GetServiceLogs :: "string \<Rightarrow> 'p \<Rightarrow> (call_error, string) result \<times> 'p"
  prov_Quiesce :: "'p \<Rightarrow> call_error option \<times> 'p"
  prov_Unquiesce :: "'p \<Rightarrow> call_error option \<times> 'p"
  prov_LoadService :: "string \<Rightarrow> 'p \<Rightarrow> call_error option \<times> 'p"
  prov_ApplyBundle :: "string \<Rightarrow> 'p \<Rightarrow> call_error option \<times> 'p"

record 'd host_env =
  he_metrics :: "nat \<Rightarrow> 'd"
  he_obsd :: "(string, 'd) result"
  he_status :: "(string, 'd) result"

subsection \<open>Dispatch\<close>

definition ok_response :: "RPCRequest \<Rightarrow> 'd rpc_data \<Rightarrow> 'd RPCResponse" where
  "ok_response req d = \<lparr>resp_ID = req_ID req, resp_Success = True, resp_Error = [], resp_Data = d\<rparr>"

definition error_response :: "RPCRequest \<Rightarrow> string \<Rightarrow> 'd RPCResponse" where
  "error_response req e = \<lparr>resp_ID = req_ID req, resp_Success = False, resp_Error = e, resp_Data = NoData\<rparr>"

text \<open>The answer to a provider call that returns only an error; \<open>None\<close> when the call panicked.\<close>

definition answer :: "RPCRequest \<Rightarrow> string \<Rightarrow> call_error option \<times> 'p \<Rightarrow> 'd RPCResponse option \<times> 'p" where
  "answer req success rp =
     (case rp of
        (None, p) \<Rightarrow> (Some (ok_response req (TextData success)), p)
      | (Some (CallFailed e), p) \<Rightarrow> (Some (error_response req e), p)
      | (Some CallPanic, p) \<Rightarrow> (None, p))"

definition answer_value :: "RPCRequest \<Rightarrow> ('a \<Rightarrow> 'd rpc_data) \<Rightarrow> (call_error, 'a) result \<times> 'p \<Rightarrow> 'd RPCResponse option \<times> 'p" where
  "answer_value req mk rp =
     (case rp of
        (Inr x, p) \<Rightarrow> (Some (ok_response req (mk x)), p)
      | (Inl (CallFailed e), p) \<Rightarrow> (Some (error_response req e), p)
      | (Inl CallPanic, p) \<Rightarrow> (None, p))"


definition host_answer :: "RPCRequest \<Rightarrow> (string, 'd) result \<Rightarrow> 'd RPCResponse" where
  "host_answer req r = (case r of Inl e \<Rightarrow> error_response req e | Inr d \<Rightarrow> ok_response req (HostData d))"

definition no_provider :: string where
  "no_provider = ''no service provider configured''"

definition is_trace_command :: "string \<Rightarrow> bool" where
  "is_trace_command c \<longleftrightarrow> c \<in> {''trace'', ''stream_exec'', ''execsnoop''}"

definition dispatchCommand ::
  "'d host_env \<Rightarrow> 'p ServiceProvider option \<Rightarrow> RPCRequest \<Rightarrow> 'p \<Rightarrow> 'd RPCResponse option \<times> 'p"
where
  "dispatchCommand h provider req p =
     (let cmd = req_Command req; svc = req_Service req; err = (\<lambda>e. (Some (error_response req e), p))
      in if cmd = ''ping'' then (Some (ok_response req (TextData ''PONG'')), p)
         else if cmd \<in> {''list_services'', ''ps''} then
           (case provider of
              None \<Rightarrow> err no_provider
            | Some P \<Rightarrow> answer_value req ServicesData (prov_ListServices P p))
         else if cmd \<in> {''start_service'', ''start''} then
           (case provider of
              None \<Rightarrow> err no_provider
            | Some P \<Rightarrow> if svc = [] then err ''missing service name''
                        else answer req (''service '' @ svc @ '' started successfully'') (prov_StartService P svc p))
         else if cmd \<in> {''stop_service'', ''stop''} then
           (case provider of
              None \<Rightarrow> err no_provider
            | Some P \<Rightarrow> if svc = [] then err ''missing service name''
                        else answer req (''service '' @ svc @ '' stopped successfully'') (prov_StopService P svc p))
         else if cmd \<in> {''get_logs'', ''logs''} then
           (case provider of
              None \<Rightarrow> err no_provider
            | Some P \<Rightarrow> if svc = [] then err ''missing service name''
                        else answer_value req TextData (prov_GetServiceLogs P svc p))
         else if cmd \<in> {''get_metrics'', ''metrics''} then
           (case provider of
              None \<Rightarrow> (Some (ok_response req (HostData (he_metrics h 0))), p)
            | Some P \<Rightarrow> answer_value req (\<lambda>l. HostData (he_metrics h (length l))) (prov_ListServices P p))
         else if cmd \<in> {''get_obsd'', ''obsd''} then (Some (host_answer req (he_obsd h)), p)
         else if cmd \<in> {''quiesce'', ''freeze''} then
           (case provider of
              None \<Rightarrow> err no_provider
            | Some P \<Rightarrow> answer req ''guest filesystem buffers synced and state quiesced'' (prov_Quiesce P p))
         else if cmd \<in> {''unquiesce'', ''thaw''} then
           (case provider of
              None \<Rightarrow> err no_provider
            | Some P \<Rightarrow> answer req ''guest state unquiesced'' (prov_Unquiesce P p))
         else if cmd \<in> {''get_system_status'', ''system'', ''system_status'', ''status'', ''hardd''}
           then (Some (host_answer req (he_status h)), p)
         else if is_trace_command cmd then (Some (ok_response req (TextData ''STREAM_START'')), p)
         else if cmd \<in> {''load_service'', ''apply_service''} then
           (case provider of
              None \<Rightarrow> err no_provider
            | Some P \<Rightarrow> if req_Payload req = [] then err ''missing TOML payload in request''
                        else answer req (''service '' @ (if svc = [] then ''(parsed from TOML)'' else svc) @
                               '' loaded and started successfully'') (prov_LoadService P (req_Payload req) p))
         else if cmd = ''run_service'' then
           (case provider of
              None \<Rightarrow> err no_provider
            | Some P \<Rightarrow> if req_Payload req = [] then err ''missing inline spec payload in request''
                        else answer req (''service '' @ svc @ '' started dynamically'')
                               (prov_LoadService P (req_Payload req) p))
         else if cmd \<in> {''apply_bundle'', ''bundle_apply''} then
           (case provider of
              None \<Rightarrow> err no_provider
            | Some P \<Rightarrow> if req_Payload req = [] then err ''missing OCI bundle payload in request''
                        else answer req (''OCI container bundle '' @ (if svc = [] then ''dynamic-oci-bundle'' else svc) @
                               '' applied and launched successfully'') (prov_ApplyBundle P (req_Payload req) p))
         else err (''unknown command: '' @ Quote cmd))"

subsection \<open>Connections\<close>

record 'd json_ops =
  js_decode_req :: "bytes \<Rightarrow> (string, RPCRequest) result"
  js_encode_resp :: "'d RPCResponse \<Rightarrow> (string, bytes) result"
  js_encode_req :: "RPCRequest \<Rightarrow> bytes"

text \<open>\<open>b, _ := EncodeJSON(v)\<close>: no bytes when encoding fails.\<close>

definition encode_or_nil :: "'d json_ops \<Rightarrow> 'd RPCResponse \<Rightarrow> bytes" where
  "encode_or_nil js r = (case js_encode_resp js r of Inl e \<Rightarrow> [] | Inr b \<Rightarrow> b)"

definition encode_response :: "'d json_ops \<Rightarrow> RPCRequest \<Rightarrow> 'd RPCResponse \<Rightarrow> bytes" where
  "encode_response js req resp =
     (case js_encode_resp js resp of
        Inr b \<Rightarrow> b
      | Inl e \<Rightarrow> encode_or_nil js (error_response req (''failed encoding response: '' @ e)))"

definition invalid_json_response :: "string \<Rightarrow> 'd RPCResponse" where
  "invalid_json_response e =
     \<lparr>resp_ID = [], resp_Success = False, resp_Error = ''invalid JSON payload: '' @ e, resp_Data = NoData\<rparr>"

text \<open>The connection to the observability daemon: the result of dialling it, what it accepts, what it sends.\<close>

record obsd_peer =
  od_dial :: "string option"
  od_write :: "bytes world"
  od_read :: reader

fun frame_error_text :: "frame_error \<Rightarrow> string" where
  "frame_error_text (FrameIO EOF) = ''EOF''"
| "frame_error_text (FrameIO UnexpectedEOF) = ''unexpected EOF''"
| "frame_error_text (FrameIO (ReadError e)) = e"
| "frame_error_text (FrameTooLarge n) = ''frame size '' @ show_nat (unat n) @
     '' exceeds maximum allowed limit ('' @ show_nat MaxFrameSize @ '' bytes)''"
| "frame_error_text (FramePayload EOF) = ''failed reading frame payload: EOF''"
| "frame_error_text (FramePayload UnexpectedEOF) = ''failed reading frame payload: unexpected EOF''"
| "frame_error_text (FramePayload (ReadError e)) = ''failed reading frame payload: '' @ e"
| "frame_error_text (FrameHeaderWrite e) = ''failed writing frame length header: '' @ e"
| "frame_error_text (FramePayloadWrite e) = ''failed writing frame payload: '' @ e"

text \<open>The forwarding loop: frames of the daemon are copied until a write fails.\<close>

definition forward_frames :: "bytes world \<Rightarrow> bytes list \<Rightarrow> (bytes, frame_error) action" where
  "forward_frames w frames = ignore_err (steps (map (WriteFrame w) frames))"

definition handleTraceStream ::
  "'d json_ops \<Rightarrow> obsd_peer \<Rightarrow> bytes world \<Rightarrow> RPCRequest \<Rightarrow> (bytes, frame_error) action"
where
  "handleTraceStream js od w req =
     (let refuse = (\<lambda>e. ignore_err (WriteFrame w (encode_or_nil js (error_response req e))))
      in case od_dial od of
           Some e \<Rightarrow> refuse (''obsd daemon un-reachable at /run/karim/obsd.sock: '' @ e)
         | None \<Rightarrow>
             (case WriteFrame (od_write od)
                     (js_encode_req js \<lparr>req_ID = req_ID req, req_Command = ''trace'', req_Service = [],
                        req_Args = [], req_Payload = []\<rparr>) [] of
                (Some e, _) \<Rightarrow> refuse (''failed writing to obsd socket: '' @ frame_error_text e)
              | (None, _) \<Rightarrow>
                  (case ReadFrame (od_read od) of
                     (Inl e, _) \<Rightarrow> refuse (''failed reading initial response from obsd: '' @ frame_error_text e)
                   | (Inr initFrame, rest) \<Rightarrow>
                       and_then (WriteFrame w initFrame) (forward_frames w (fst (read_frames rest))))))"

datatype conn_end = ConnClosed | DaemonPanic

text \<open>What one received frame leads to: go on, or the end of the connection.\<close>

definition handle_frame ::
  "'d json_ops \<Rightarrow> 'd host_env \<Rightarrow> 'p ServiceProvider option \<Rightarrow> obsd_peer \<Rightarrow> bytes world \<Rightarrow> bytes \<Rightarrow>
     'p \<Rightarrow> bytes list \<Rightarrow> conn_end option \<times> 'p \<times> bytes list"
where
  "handle_frame js h provider od w payload p out =
     (case js_decode_req js payload of
        Inl e \<Rightarrow> (None, p, snd (WriteFrame w (encode_or_nil js (invalid_json_response e)) out))
      | Inr req \<Rightarrow>
          if is_trace_command (req_Command req)
          then (Some ConnClosed, p, snd (handleTraceStream js od w req out))
          else
            (case dispatchCommand h provider req p of
               (None, p') \<Rightarrow> (Some DaemonPanic, p', out)
             | (Some resp, p') \<Rightarrow>
                 (case WriteFrame w (encode_response js req resp) out of
                    (Some e, out') \<Rightarrow> (Some ConnClosed, p', out')
                  | (None, out') \<Rightarrow> (None, p', out'))))"

function handleConnection ::
  "'d json_ops \<Rightarrow> 'd host_env \<Rightarrow> 'p ServiceProvider option \<Rightarrow> obsd_peer \<Rightarrow> bytes world \<Rightarrow> reader \<Rightarrow>
     'p \<Rightarrow> bytes list \<Rightarrow> conn_end \<times> 'p \<times> bytes list"
where
  "handleConnection js h provider od w conn p out =
     (case ReadFrame conn of
        (Inl e, conn1) \<Rightarrow> (ConnClosed, p, out)
      | (Inr payload, conn1) \<Rightarrow>
          (case handle_frame js h provider od w payload p out of
             (Some end, p', out') \<Rightarrow> (end, p', out')
           | (None, p', out') \<Rightarrow> handleConnection js h provider od w conn1 p' out'))"
  by pat_completeness auto
termination
  by (relation "measure (\<lambda>(js, h, provider, od, w, conn, p, out). length (rd_data conn))")
    (auto dest!: ReadFrame_shrinks [OF sym])

declare handleConnection.simps [simp del]

text \<open>The exchange with the observability daemon behind \<open>get_obsd\<close>; \<open>decode\<close> reads a response.\<close>

definition fetchObsdMetrics ::
  "'d json_ops \<Rightarrow> (bytes \<Rightarrow> (string, 'd RPCResponse) result) \<Rightarrow> obsd_peer \<Rightarrow> (string, 'd rpc_data) result"
where
  "fetchObsdMetrics js decode od =
     (case od_dial od of
        Some e \<Rightarrow> Inl (''obsd daemon un-reachable at /run/karim/obsd.sock: '' @ e)
      | None \<Rightarrow>
          (case WriteFrame (od_write od)
                  (js_encode_req js \<lparr>req_ID = ''obsd-1'', req_Command = ''get_metrics'', req_Service = [],
                     req_Args = [], req_Payload = []\<rparr>) [] of
             (Some e, _) \<Rightarrow> Inl (frame_error_text e)
           | (None, _) \<Rightarrow>
               (case ReadFrame (od_read od) of
                  (Inl e, _) \<Rightarrow> Inl (frame_error_text e)
                | (Inr respBytes, _) \<Rightarrow>
                    bind_res (decode respBytes) (\<lambda>resp.
                      if \<not> resp_Success resp then Inl (resp_Error resp) else Inr (resp_Data resp)))))"

subsection \<open>Listeners\<close>

text \<open>The server's own state: its listeners (by number) and whether it was closed.\<close>

record server =
  srv_listeners :: "nat list"
  srv_closed :: bool

definition NewServer :: server where
  "NewServer = \<lparr>srv_listeners = [], srv_closed = False\<rparr>"

datatype serve_error = ServerClosed | AcceptError string

text \<open>The part of \<open>Serve\<close> before its loop, and how the loop ends when \<open>Accept\<close> fails.\<close>

definition Serve_begin :: "nat \<Rightarrow> server \<Rightarrow> serve_error option \<times> server" where
  "Serve_begin l s =
     (if srv_closed s then (Some ServerClosed, s) else (None, s\<lparr>srv_listeners := srv_listeners s @ [l]\<rparr>))"

definition Serve_accept_failed :: "string \<Rightarrow> server \<Rightarrow> serve_error option" where
  "Serve_accept_failed e s = (if srv_closed s then None else Some (AcceptError e))"

definition Close_server :: "(nat \<Rightarrow> string option) \<Rightarrow> server \<Rightarrow> string option \<times> nat list \<times> server" where
  "Close_server close s =
     ((case List.map_filter close (srv_listeners s) of [] \<Rightarrow> None | e # es \<Rightarrow> Some e),
      srv_listeners s, s\<lparr>srv_closed := True\<rparr>)"

subsection \<open>Responses\<close>

text \<open>A response is well formed for a request: it carries its identifier, a failure has no data and a success no error.\<close>

definition well_formed_response :: "RPCRequest \<Rightarrow> 'd RPCResponse \<Rightarrow> bool" where
  "well_formed_response req r \<longleftrightarrow>
     resp_ID r = req_ID req \<and> (if resp_Success r then resp_Error r = [] else resp_Data r = NoData)"

lemma response_well_formed [simp]:
  "well_formed_response req (ok_response req d)" "well_formed_response req (error_response req e)"
  "well_formed_response req (host_answer req g)"
  by (simp_all add: well_formed_response_def ok_response_def error_response_def host_answer_def split: sum.split)

lemma answer_snd [simp]:
  "snd (answer req s rp) = snd rp" "snd (answer_value req mk vp) = snd vp"
  by (auto simp: answer_def answer_value_def split: prod.split option.split sum.split call_error.split)

lemma answer_well_formed:
  "fst (answer req s rp) = Some r \<Longrightarrow> well_formed_response req r"
  "fst (answer_value req mk vp) = Some r \<Longrightarrow> well_formed_response req r"
  by (auto simp: answer_def answer_value_def split: prod.splits option.splits sum.splits call_error.splits)

lemma dispatch_well_formed:
  assumes "fst (dispatchCommand h provider req p) = Some r"
  shows "well_formed_response req r"
  using assms unfolding dispatchCommand_def Let_def
  by (cases provider) (auto split: if_splits dest: answer_well_formed)

subsection \<open>The contract of a provider\<close>

text \<open>A provider with an invariant that all its operations keep.\<close>

locale service_provider =
  fixes P :: "'p ServiceProvider" and inv :: "'p \<Rightarrow> bool"
  assumes list_inv: "inv p \<Longrightarrow> inv (snd (prov_ListServices P p))"
    and start_inv: "inv p \<Longrightarrow> inv (snd (prov_StartService P n p))"
    and stop_inv: "inv p \<Longrightarrow> inv (snd (prov_StopService P n p))"
    and logs_inv: "inv p \<Longrightarrow> inv (snd (prov_GetServiceLogs P n p))"
    and quiesce_inv: "inv p \<Longrightarrow> inv (snd (prov_Quiesce P p))"
    and unquiesce_inv: "inv p \<Longrightarrow> inv (snd (prov_Unquiesce P p))"
    and load_inv: "inv p \<Longrightarrow> inv (snd (prov_LoadService P c p))"
    and bundle_inv: "inv p \<Longrightarrow> inv (snd (prov_ApplyBundle P c p))"
begin

lemmas provider_inv = list_inv start_inv stop_inv logs_inv quiesce_inv unquiesce_inv load_inv bundle_inv

lemma dispatch_inv: "inv p \<Longrightarrow> inv (snd (dispatchCommand h (Some P) req p))"
  using provider_inv [of p] unfolding dispatchCommand_def Let_def option.case
  by (simp only: if_distrib [of snd] if_distrib [of inv] answer_snd snd_conv) simp

lemma handle_frame_inv: "inv p \<Longrightarrow> inv (fst (snd (handle_frame js h (Some P) od w payload p out)))"
  using dispatch_inv [of p h] unfolding handle_frame_def
  by (auto split: sum.split prod.split option.split) (metis snd_conv)+

lemma connection_inv: "inv p \<Longrightarrow> inv (fst (snd (handleConnection js h (Some P) od w conn p out)))"
proof (induction js h "Some P" od w conn p out rule: handleConnection.induct)
  case (1 js h od w conn p out)
  show ?case
  proof (cases "ReadFrame conn")
    case (Pair r conn1)
    show ?thesis
    proof (cases r)
      case (Inl e)
      with Pair "1.prems" show ?thesis by (subst handleConnection.simps) simp
    next
      case (Inr payload)
      obtain ce p' out' where hf: "handle_frame js h (Some P) od w payload p out = (ce, p', out')" by (metis prod_cases3)
      with handle_frame_inv [OF "1.prems", of js h od w payload out] have p': "inv p'" by simp
      show ?thesis
      proof (cases ce)
        case None
        then have "inv (fst (snd (handleConnection js h (Some P) od w conn1 p' out')))"
          using "1.hyps" [of r conn1 payload ce "(p', out')" p' out'] Pair Inr hf p' by simp
        with Pair Inr hf None show ?thesis by (subst handleConnection.simps) simp
      next
        case (Some c)
        with Pair Inr hf p' show ?thesis by (subst handleConnection.simps) simp
      qed
    qed
  qed
qed

end

text \<open>A provider that also keeps a registry of named services and refuses names it does not know.\<close>

locale registry_provider = service_provider P inv for P :: "'p ServiceProvider" and inv :: "'p \<Rightarrow> bool" +
  fixes names :: "'p \<Rightarrow> string set"
  assumes start_unknown: "inv p \<Longrightarrow> n \<notin> names p \<Longrightarrow> \<exists>e. prov_StartService P n p = (Some (CallFailed e), p)"
    and stop_unknown: "inv p \<Longrightarrow> n \<notin> names p \<Longrightarrow> \<exists>e. prov_StopService P n p = (Some (CallFailed e), p)"
    and logs_unknown: "inv p \<Longrightarrow> n \<notin> names p \<Longrightarrow> \<exists>e. prov_GetServiceLogs P n p = (Inl (CallFailed e), p)"
begin

lemma unknown_service_refused:
  assumes "inv p" and "req_Service req \<notin> names p"
    and "req_Command req \<in> {''start_service'', ''start'', ''stop_service'', ''stop'', ''get_logs'', ''logs''}"
  shows "\<exists>e. dispatchCommand h (Some P) req p = (Some (error_response req e), p)"
proof -
  obtain e1 e2 e3 where ops: "prov_StartService P (req_Service req) p = (Some (CallFailed e1), p)"
    "prov_StopService P (req_Service req) p = (Some (CallFailed e2), p)"
    "prov_GetServiceLogs P (req_Service req) p = (Inl (CallFailed e3), p)"
    using start_unknown [OF assms(1,2)] stop_unknown [OF assms(1,2)] logs_unknown [OF assms(1,2)] by blast
  show ?thesis
    using assms(3)
    by (elim insertE emptyE; cases "req_Service req = []")
      (simp_all add: dispatchCommand_def Let_def answer_def answer_value_def ops, blast+)
qed

end

subsection \<open>The server as a sequence of calls\<close>

text \<open>
  The abstract server: requests are answered one after the other, each by \<open>dispatchCommand\<close> on the
  state the previous one left. \<open>None\<close> when a call panics.
\<close>

fun serve_requests ::
  "'d host_env \<Rightarrow> 'p ServiceProvider option \<Rightarrow> RPCRequest list \<Rightarrow> 'p \<Rightarrow> ('d RPCResponse list \<times> 'p) option"
where
  "serve_requests h provider [] p = Some ([], p)"
| "serve_requests h provider (req # reqs) p =
     (case dispatchCommand h provider req p of
        (None, p') \<Rightarrow> None
      | (Some resp, p') \<Rightarrow>
          (case serve_requests h provider reqs p' of
             None \<Rightarrow> None
           | Some (resps, p'') \<Rightarrow> Some (resp # resps, p'')))"

lemma WriteFrame_all_ok: "WriteFrame all_ok b out = (None, snd (WriteFrame all_ok b out))"
  by (simp add: WriteFrame_def and_then_def must_def all_ok_def when_act_def ok_def)

lemma handle_frame_request:
  assumes "js_decode_req js payload = Inr req" and "\<not> is_trace_command (req_Command req)"
    and "dispatchCommand h provider req p = (Some resp, p')"
  shows "handle_frame js h provider od all_ok payload p out =
    (None, p', snd (WriteFrame all_ok (encode_response js req resp) out))"
  unfolding handle_frame_def using assms
  by (simp, subst WriteFrame_all_ok) simp

lemma handleConnection_eof: "handleConnection js h provider od w \<lparr>rd_data = [], rd_end = AtEOF\<rparr> p out = (ConnClosed, p, out)"
  by (subst handleConnection.simps) (simp add: ReadFrame_def ReadFull_def)

lemma handleConnection_requests:
  assumes "list_all2 (\<lambda>b req. js_decode_req js b = Inr req \<and> length b \<le> MaxFrameSize \<and>
      \<not> is_trace_command (req_Command req)) bs reqs"
    and "serve_requests h provider reqs p = Some (resps, p')"
    and "\<forall>resp \<in> set resps. \<forall>req. length (encode_response js req resp) < 2 ^ 32"
  shows "\<exists>out'. handleConnection js h provider od all_ok \<lparr>rd_data = concat (map frame_bytes bs), rd_end = AtEOF\<rparr> p out =
      (ConnClosed, p', out') \<and>
    concat out' = concat out @ concat (map frame_bytes (map2 (encode_response js) reqs resps))"
  using assms
proof (induction bs reqs arbitrary: p resps out rule: list_all2_induct)
  case Nil
  then show ?case by (simp add: handleConnection_eof)
next
  case (Cons b bs req reqs)
  obtain resp rs p1 where d: "dispatchCommand h provider req p = (Some resp, p1)"
    "serve_requests h provider reqs p1 = Some (rs, p')" "resps = resp # rs"
    using Cons.prems(1) by (auto split: prod.splits option.splits)
  let ?out1 = "snd (WriteFrame all_ok (encode_response js req resp) out)"
  have read: "ReadFrame \<lparr>rd_data = frame_bytes b @ concat (map frame_bytes bs), rd_end = AtEOF\<rparr> =
      (Inr b, \<lparr>rd_data = concat (map frame_bytes bs), rd_end = AtEOF\<rparr>)"
    using Cons.hyps(1) by (intro vsock.recv_wire) simp
  have hf: "handle_frame js h provider od all_ok b p out = (None, p1, ?out1)"
    using Cons.hyps(1) d(1) by (intro handle_frame_request) auto
  have out1: "concat ?out1 = concat out @ frame_bytes (encode_response js req resp)"
    using Cons.prems(2) d(3) by (intro WriteFrame_bytes [OF _ WriteFrame_all_ok]) simp
  obtain out' where "handleConnection js h provider od all_ok \<lparr>rd_data = concat (map frame_bytes bs), rd_end = AtEOF\<rparr> p1 ?out1 =
      (ConnClosed, p', out')"
    "concat out' = concat ?out1 @ concat (map frame_bytes (map2 (encode_response js) reqs rs))"
    using Cons.IH [OF d(2), of ?out1] Cons.prems(2) d(3) by auto
  with d(3) out1 show ?case
    by (subst handleConnection.simps) (simp add: read hf)
qed

lemma serve_requests_length: "serve_requests h provider reqs p = Some (resps, p') \<Longrightarrow> length resps = length reqs"
  by (induction reqs arbitrary: p resps) (auto split: prod.splits option.splits)

subsection \<open>Properties of the server\<close>

text \<open>C6: the server implements a sequential remote procedure call. If a client sends a sequence of
  request frames (none of them a trace request) and then closes, and no call panics, the server
  leaves the provider in the state that answering the requests one after the other gives, and what
  it sent back reads, frame by frame, as exactly the encoded answers in the order of the requests.\<close>

theorem connection_serves_requests:
  assumes "list_all2 (\<lambda>b req. js_decode_req js b = Inr req \<and> length b \<le> MaxFrameSize \<and>
      \<not> is_trace_command (req_Command req)) bs reqs"
    and "serve_requests h provider reqs p = Some (resps, p')"
    and "\<forall>resp \<in> set resps. \<forall>req. length (encode_response js req resp) \<le> MaxFrameSize"
  shows "\<exists>out. handleConnection js h provider od all_ok \<lparr>rd_data = concat (map frame_bytes bs), rd_end = AtEOF\<rparr> p [] =
      (ConnClosed, p', out) \<and>
    read_frames \<lparr>rd_data = concat out, rd_end = AtEOF\<rparr> = (map2 (encode_response js) reqs resps, FrameIO EOF)"
proof -
  have small: "\<forall>resp \<in> set resps. \<forall>req. length (encode_response js req resp) < 2 ^ 32"
  proof (intro ballI allI)
    fix resp req
    assume "resp \<in> set resps"
    with assms(3) have "length (encode_response js req resp) \<le> MaxFrameSize" by blast
    then show "length (encode_response js req resp) < 2 ^ 32" by (simp add: MaxFrameSize_def)
  qed
  obtain out where out: "handleConnection js h provider od all_ok \<lparr>rd_data = concat (map frame_bytes bs), rd_end = AtEOF\<rparr> p [] =
      (ConnClosed, p', out)" "concat out = concat (map frame_bytes (map2 (encode_response js) reqs resps))"
    using handleConnection_requests [OF assms(1,2) small, of od "[]"] by auto
  have "\<forall>q \<in> set (map2 (encode_response js) reqs resps). length q \<le> MaxFrameSize"
    using assms(3) by (auto dest: set_zip_rightD)
  from read_frames_wire [OF this, of "[]" AtEOF] out show ?thesis
    by (auto simp: read_frames_empty)
qed

text \<open>A request, a way to encode it and a host for examples.\<close>

definition ping_request :: RPCRequest where
  "ping_request = \<lparr>req_ID = ''r1'', req_Command = ''ping'', req_Service = [], req_Args = [], req_Payload = []\<rparr>"

definition toy_json :: "string json_ops" where
  "toy_json = \<lparr>js_decode_req = (\<lambda>b. if b = ''ping'' then Inr ping_request else Inl ''bad''),
     js_encode_resp = (\<lambda>r. Inr (if resp_Success r then ''ok'' else ''no'')), js_encode_req = (\<lambda>r. [])\<rparr>"

definition toy_host :: "string host_env" where
  "toy_host = \<lparr>he_metrics = (\<lambda>n. []), he_obsd = Inl ''down'', he_status = Inr ''up''\<rparr>"

definition toy_peer :: obsd_peer where
  "toy_peer = \<lparr>od_dial = Some ''refused'', od_write = all_ok, od_read = \<lparr>rd_data = [], rd_end = AtEOF\<rparr>\<rparr>"

theorem connection_serves_requests_witness:
  "\<exists>out. handleConnection toy_json toy_host (None :: unit ServiceProvider option) toy_peer all_ok
      \<lparr>rd_data = concat (map frame_bytes [''ping'', ''ping'']), rd_end = AtEOF\<rparr> () [] = (ConnClosed, (), out) \<and>
    read_frames \<lparr>rd_data = concat out, rd_end = AtEOF\<rparr> = ([''ok'', ''ok''], FrameIO EOF)"
proof -
  have dispatch: "dispatchCommand toy_host (None :: unit ServiceProvider option) ping_request () =
      (Some (ok_response ping_request (TextData ''PONG'')), ())"
    by (simp add: dispatchCommand_def ping_request_def)
  have enc: "encode_response toy_json req resp = (if resp_Success resp then ''ok'' else ''no'')" for req resp
    by (simp add: encode_response_def toy_json_def)
  have "list_all2 (\<lambda>b req. js_decode_req toy_json b = Inr req \<and> length b \<le> MaxFrameSize \<and>
      \<not> is_trace_command (req_Command req)) [''ping'', ''ping''] [ping_request, ping_request]"
    by (simp add: toy_json_def MaxFrameSize_def is_trace_command_def ping_request_def)
  moreover have "serve_requests toy_host (None :: unit ServiceProvider option) [ping_request, ping_request] () =
      Some (replicate 2 (ok_response ping_request (TextData ''PONG'')), ())"
    by (simp add: dispatch numeral_2_eq_2)
  ultimately show ?thesis
    using connection_serves_requests [of toy_json "[''ping'', ''ping'']" "[ping_request, ping_request]" toy_host None "()"
        "replicate 2 (ok_response ping_request (TextData ''PONG''))" "()" toy_peer]
    by (simp add: enc MaxFrameSize_def numeral_2_eq_2 ok_response_def)
qed

definition known_commands :: "string list" where
  "known_commands = [''ping'', ''list_services'', ''ps'', ''start_service'', ''start'', ''stop_service'', ''stop'',
     ''get_logs'', ''logs'', ''get_metrics'', ''metrics'', ''get_obsd'', ''obsd'', ''quiesce'', ''freeze'',
     ''unquiesce'', ''thaw'', ''get_system_status'', ''system'', ''system_status'', ''status'', ''hardd'',
     ''trace'', ''stream_exec'', ''execsnoop'', ''load_service'', ''apply_service'', ''run_service'',
     ''apply_bundle'', ''bundle_apply'']"

text \<open>Every answer matches its request. Whatever the command, the provider and its state, the
  response carries the request's identifier, a failure carries no data and a success no error; and
  a command the server does not know is answered by an error and does not touch the provider.\<close>

theorem responses_match_requests:
  "(\<forall>r. fst (dispatchCommand h provider req p) = Some r \<longrightarrow> well_formed_response req r) \<and>
   (req_Command req \<notin> set known_commands \<longrightarrow>
      dispatchCommand h provider req p = (Some (error_response req (''unknown command: '' @ Quote (req_Command req))), p))"
proof (intro conjI allI impI)
  show "well_formed_response req r" if "fst (dispatchCommand h provider req p) = Some r" for r
    using that by (rule dispatch_well_formed)
  assume "req_Command req \<notin> set known_commands"
  then show "dispatchCommand h provider req p = (Some (error_response req (''unknown command: '' @ Quote (req_Command req))), p)"
    unfolding known_commands_def by (simp add: dispatchCommand_def is_trace_command_def)
qed

theorem responses_match_requests_witness:
  "dispatchCommand toy_host (None :: unit ServiceProvider option) (ping_request\<lparr>req_Command := ''pong''\<rparr>) () =
     (Some (error_response (ping_request\<lparr>req_Command := ''pong''\<rparr>) (''unknown command: '' @ Quote ''pong'')), ())"
  using responses_match_requests [THEN conjunct2, of "ping_request\<lparr>req_Command := ''pong''\<rparr>" toy_host None "()"]
  by (simp add: known_commands_def)

end
