(* ===== verification/Obsd.thy ===== *)
theory Obsd
  imports VsockServer
begin

text \<open>
  \<open>internal/obsd/obsd.go\<close> and \<open>cmd/karim-obsd/main.go\<close>: the observability manager, which reads latency
  histograms and process executions from eBPF probes and falls back to simulated counters, the text
  it exports for Prometheus, and the daemon that answers requests about it.

  The probes (generated bindings and the library \<open>cilium/ebpf\<close>) are parameters: the error of loading
  each, the result of a map lookup, the records of the ring buffer. Random choices of the simulation
  are arguments of its step; a time is an integer. A \<open>[20]uint64\<close> is a list of twenty words, and its
  sums wrap.
\<close>

subsection \<open>The manager\<close>

record ExecEvent =
  ev_PID :: u32
  ev_PPID :: u32
  ev_Comm :: string
  ev_Filename :: string
  ev_Timestamp :: int

record Histogram =
  hg_Name :: string
  hg_Slots :: "u64 list"
  hg_TotalCount :: u64
  hg_LastUpdated :: int

record Manager =
  om_isLoaded :: bool
  om_fallbackMode :: bool
  om_execCount :: u64
  om_simRunqLat :: "u64 list"
  om_simBioLat :: "u64 list"
  om_lastUpdated :: int

definition NewManager :: "int \<Rightarrow> Manager" where
  "NewManager now =
     \<lparr>om_isLoaded = False, om_fallbackMode = False, om_execCount = 0,
      om_simRunqLat = (replicate 20 0)[2 := 45, 3 := 120, 4 := 85, 5 := 12],
      om_simBioLat = (replicate 20 0)[5 := 30, 6 := 95, 7 := 40, 8 := 10],
      om_lastUpdated = now\<rparr>"

text \<open>The three load attempts are all made; the notice lists the errors. The returned error is always nil.\<close>

record probe_env =
  pe_execsnoop :: "string option"
  pe_runqlat :: "string option"
  pe_biolatency :: "string option"

definition load_errors :: "probe_env \<Rightarrow> string list" where
  "load_errors env =
     (case pe_execsnoop env of None \<Rightarrow> [] | Some e \<Rightarrow> [''execsnoop: '' @ e]) @
     (case pe_runqlat env of None \<Rightarrow> [] | Some e \<Rightarrow> [''runqlat: '' @ e]) @
     (case pe_biolatency env of None \<Rightarrow> [] | Some e \<Rightarrow> [''biolatency: '' @ e])"

definition LoadProbes :: "probe_env \<Rightarrow> Manager \<Rightarrow> Manager" where
  "LoadProbes env m =
     (if load_errors env \<noteq> [] then m\<lparr>om_fallbackMode := True, om_isLoaded := False\<rparr>
      else m\<lparr>om_isLoaded := True, om_fallbackMode := False\<rparr>)"

definition IsFallback :: "Manager \<Rightarrow> bool" where
  "IsFallback m = om_fallbackMode m"

definition IsLoaded :: "Manager \<Rightarrow> bool" where
  "IsLoaded m = om_isLoaded m"

definition Close_manager :: "Manager \<Rightarrow> Manager" where
  "Close_manager m = m\<lparr>om_isLoaded := False\<rparr>"

subsection \<open>Execution events\<close>

definition sampleProcs :: "(string \<times> string) list" where
  "sampleProcs =
     [(''karim-svcd'', ''/sbin/karim-svcd''), (''karim-secd'', ''/sbin/karim-secd''), (''sample_app'', ''/bin/sample_app''),
      (''karim-vsockd'', ''/sbin/karim-vsockd''), (''cat'', ''/bin/cat'')]"

text \<open>One tick of the simulation: the random choices are \<open>idx < 5\<close>, \<open>rq < 6\<close> and \<open>bio < 5\<close>.\<close>

record tick =
  tk_idx :: nat
  tk_rq :: nat
  tk_bio :: nat
  tk_now :: int

definition sim_tick :: "tick \<Rightarrow> u32 \<times> Manager \<Rightarrow> ExecEvent \<times> u32 \<times> Manager" where
  "sim_tick t = (\<lambda>(pidCounter, m).
     let pid = pidCounter + 1; proc = sampleProcs ! tk_idx t; rq = tk_rq t; bio = 4 + tk_bio t
     in (\<lparr>ev_PID = pid, ev_PPID = 1, ev_Comm = fst proc, ev_Filename = snd proc, ev_Timestamp = tk_now t\<rparr>,
         pid,
         m\<lparr>om_execCount := om_execCount m + 1,
           om_simRunqLat := (om_simRunqLat m)[rq := om_simRunqLat m ! rq + 1],
           om_simBioLat := (om_simBioLat m)[bio := om_simBioLat m ! bio + 1],
           om_lastUpdated := tk_now t\<rparr>))"

fun sim_stream :: "tick list \<Rightarrow> u32 \<times> Manager \<Rightarrow> ExecEvent list \<times> Manager" where
  "sim_stream [] (pid, m) = ([], m)"
| "sim_stream (t # ts) (pid, m) =
     (let (ev, pid', m') = sim_tick t (pid, m); (evs, m'') = sim_stream ts (pid', m') in (ev # evs, m''))"

text \<open>A record of the ring buffer, read with \<open>binary.Read\<close> into a structure of 280 bytes: a shorter one is an error.\<close>

definition decode_exec :: "bytes \<Rightarrow> int \<Rightarrow> ExecEvent option" where
  "decode_exec raw now =
     (if length raw < 280 then None
      else Some \<lparr>ev_PID = get_u32_le raw, ev_PPID = get_u32_le (drop 4 raw),
                 ev_Comm = TrimRight (take 16 (drop 8 raw)) [CHR 0x00],
                 ev_Filename = TrimRight (take 256 (drop 24 raw)) [CHR 0x00], ev_Timestamp = now\<rparr>)"

text \<open>What \<open>rb.Read\<close> gives, and whether the context is done when the event is to be delivered.\<close>

datatype ring_read = RingRecord bytes int bool | RingClosed | RingError string

datatype stream_result = StillReading | StreamEnd "string option"

fun ring_stream :: "ring_read list \<Rightarrow> Manager \<Rightarrow> stream_result \<times> ExecEvent list \<times> Manager" where
  "ring_stream [] m = (StillReading, [], m)"
| "ring_stream (RingClosed # rs) m = (StreamEnd None, [], m)"
| "ring_stream (RingError e # rs) m = (StreamEnd (Some e), [], m)"
| "ring_stream (RingRecord raw now done # rs) m =
     (case decode_exec raw now of
        None \<Rightarrow> ring_stream rs m
      | Some ev \<Rightarrow>
          (let m' = m\<lparr>om_execCount := om_execCount m + 1, om_lastUpdated := now\<rparr>
           in if done then (StreamEnd None, [], m')
              else (let (r, evs, m'') = ring_stream rs m' in (r, ev # evs, m''))))"

definition StreamExecEvents ::
  "tick list \<Rightarrow> (string, ring_read list) result \<Rightarrow> Manager \<Rightarrow> stream_result \<times> ExecEvent list \<times> Manager"
where
  "StreamExecEvents ticks ring m =
     (if om_fallbackMode m \<or> \<not> om_isLoaded m
      then (let (evs, m') = sim_stream ticks (100, m) in (StreamEnd None, evs, m'))
      else (case ring of
              Inl e \<Rightarrow> (StreamEnd (Some (''failed to open ringbuf reader: '' @ e)), [], m)
            | Inr reads \<Rightarrow> ring_stream reads m))"

subsection \<open>Histograms\<close>

definition read_histogram :: "string \<Rightarrow> (Manager \<Rightarrow> u64 list) \<Rightarrow> u64 list option \<Rightarrow> int \<Rightarrow> Manager \<Rightarrow> Histogram" where
  "read_histogram name sim lookup now m =
     (let slots = (if om_fallbackMode m \<or> \<not> om_isLoaded m then sim m
                   else case lookup of None \<Rightarrow> sim m | Some s \<Rightarrow> s)
      in \<lparr>hg_Name = name, hg_Slots = slots, hg_TotalCount = sum_list slots, hg_LastUpdated = now\<rparr>)"

definition GetRunQueueLatency :: "u64 list option \<Rightarrow> int \<Rightarrow> Manager \<Rightarrow> Histogram" where
  "GetRunQueueLatency = read_histogram ''sched_runq_latency_microseconds'' om_simRunqLat"

definition GetBioLatency :: "u64 list option \<Rightarrow> int \<Rightarrow> Manager \<Rightarrow> Histogram" where
  "GetBioLatency = read_histogram ''block_io_latency_microseconds'' om_simBioLat"

subsection \<open>The exported text\<close>

definition nl :: string where
  "nl = [CHR 0x0A]"

definition show_u64 :: "u64 \<Rightarrow> string" where
  "show_u64 v = show_nat (unat v)"

text \<open>One bucket line per slot, with the running sum; the last bucket is the infinite one.\<close>

fun bucket_lines :: "string \<Rightarrow> nat \<Rightarrow> u64 \<Rightarrow> u64 list \<Rightarrow> string \<times> u64" where
  "bucket_lines metric i cumulative [] = ([], cumulative)"
| "bucket_lines metric i cumulative (count # slots) =
     (let c = cumulative + count;
          le = (if slots = [] then ''+Inf'' else show_nat (2 ^ i));
          (text, total) = bucket_lines metric (i + 1) c slots
      in (metric @ ''_bucket{le='' @ [CHR 0x22] @ le @ [CHR 0x22] @ ''} '' @ show_u64 c @ nl @ text, total))"

definition export_histogram :: "string \<Rightarrow> string \<Rightarrow> u64 \<Rightarrow> Histogram \<Rightarrow> string" where
  "export_histogram metric help scale h =
     (let (buckets, cumulative) = bucket_lines metric 0 0 (hg_Slots h)
      in ''# HELP '' @ metric @ '' '' @ help @ nl @
         ''# TYPE '' @ metric @ '' histogram'' @ nl @ buckets @
         metric @ ''_sum '' @ show_u64 (cumulative * scale) @ nl @
         metric @ ''_count '' @ show_u64 (hg_TotalCount h) @ nl)"

definition ExportPrometheusMetrics :: "u64 list option \<Rightarrow> u64 list option \<Rightarrow> int \<Rightarrow> Manager \<Rightarrow> string" where
  "ExportPrometheusMetrics runq bio now m =
     ''# HELP karim_obsd_probe_info Information about eBPF probes status'' @ nl @
     ''# TYPE karim_obsd_probe_info gauge'' @ nl @
     ''karim_obsd_probe_info{fallback='' @ [CHR 0x22] @ (if om_fallbackMode m then ''true'' else ''false'') @ [CHR 0x22] @ ''} 1'' @ nl @
     ''# HELP karim_obsd_exec_events_total Total process executions traced'' @ nl @
     ''# TYPE karim_obsd_exec_events_total counter'' @ nl @
     ''karim_obsd_exec_events_total '' @ show_u64 (om_execCount m) @ nl @
     export_histogram ''karim_obsd_runq_latency_microseconds'' ''CPU run-queue latency histogram in microseconds'' 16
       (GetRunQueueLatency runq now m) @
     export_histogram ''karim_obsd_bio_latency_microseconds'' ''Block I/O completion latency histogram in microseconds'' 64
       (GetBioLatency bio now m)"

subsection \<open>The daemon\<close>

text \<open>What the daemon puts into the answer to a metrics request.\<close>

record obsd_report =
  or_is_loaded :: bool
  or_fallback_mode :: bool
  or_runq_latency :: Histogram
  or_bio_latency :: Histogram
  or_prom_metrics :: string

text \<open>
  The manager as a connection finds it: its state, the lookups of the two maps, the time, and the
  events that the stream delivers while the connection lasts.
\<close>

record obsd_state =
  os_manager :: Manager
  os_runq :: "u64 list option"
  os_bio :: "u64 list option"
  os_now :: int
  os_events :: "ExecEvent list"

definition obsd_report_of :: "obsd_state \<Rightarrow> obsd_report" where
  "obsd_report_of s =
     \<lparr>or_is_loaded = IsLoaded (os_manager s), or_fallback_mode = IsFallback (os_manager s),
      or_runq_latency = GetRunQueueLatency (os_runq s) (os_now s) (os_manager s),
      or_bio_latency = GetBioLatency (os_bio s) (os_now s) (os_manager s),
      or_prom_metrics = ExportPrometheusMetrics (os_runq s) (os_bio s) (os_now s) (os_manager s)\<rparr>"

text \<open>
  The handler of one connection: one request frame, one answer, and for a trace request the events as
  frames of their own until a write fails. \<open>ev_json\<close> encodes an event; \<open>part_id\<close> is the identifier a
  request that does not decode was found to have before the error.
\<close>

definition obsd_handleConn ::
  "obsd_report json_ops \<Rightarrow> (bytes \<Rightarrow> string) \<Rightarrow> (ExecEvent \<Rightarrow> bytes) \<Rightarrow> obsd_state \<Rightarrow> bytes world \<Rightarrow> reader \<Rightarrow> (bytes, frame_error) action"
where
  "obsd_handleConn js part_id ev_json s w conn =
     (case ReadFrame conn of
        (Inl e, _) \<Rightarrow> ok
      | (Inr frame, _) \<Rightarrow>
          (case js_decode_req js frame of
             Inl e \<Rightarrow>
               ignore_err (WriteFrame w (encode_or_nil js
                 \<lparr>resp_ID = part_id frame, resp_Success = False, resp_Error = ''invalid json request: '' @ e, resp_Data = NoData\<rparr>))
           | Inr req \<Rightarrow>
               if req_Command req = ''ping''
               then ignore_err (WriteFrame w (encode_or_nil js (ok_response req (TextData ''PONG from karim-obsd''))))
               else if req_Command req \<in> {''get_metrics'', ''get_obsd'', ''obsd''}
               then ignore_err (WriteFrame w (encode_or_nil js (ok_response req (HostData (obsd_report_of s)))))
               else if req_Command req \<in> {''stream_exec'', ''trace''}
               then ignore_err (and_then (WriteFrame w (encode_or_nil js (ok_response req (TextData ''STREAM_START''))))
                      (steps (map (\<lambda>ev. WriteFrame w (ev_json ev)) (os_events s))))
               else ignore_err (WriteFrame w (encode_or_nil js (error_response req (''unknown command '' @ Quote (req_Command req)))))))"

text \<open>
  The daemon itself: what it asks of the system from its start until the signal that ends it. A
  failure to listen ends it with status 1, without the deferred calls.
\<close>

datatype ob_call =
    ObLoadProbes
  | ObMkdirAll string nat
  | ObRemove string
  | ObListenUnix string
  | ObAcceptLoop string
  | ObServeHTTP string
  | ObWaitSignal
  | ObCloseListener string
  | ObCloseManager

definition obsd_main :: "ob_call world \<Rightarrow> string \<Rightarrow> int \<Rightarrow> (ob_call, string) action" where
  "obsd_main w socketFlag promPortFlag =
     steps
       [attempt ObLoadProbes,
        attempt (ObMkdirAll (Dir socketFlag) 493),
        attempt (ObRemove socketFlag),
        must w (ObListenUnix socketFlag) (\<lambda>e. e),
        with_deferred ObCloseManager
          (with_deferred (ObRemove socketFlag)
             (with_deferred (ObCloseListener socketFlag)
                (steps [attempt (ObAcceptLoop socketFlag),
                        when_act (0 < promPortFlag) (attempt (ObServeHTTP ('':'' @ show_int promPortFlag))),
                        attempt ObWaitSignal])))]"

lemma obsd_main_cleans_up:
  "w [ObLoadProbes, ObMkdirAll (Dir s) 493, ObRemove s] (ObListenUnix s) = None \<Longrightarrow>
     \<exists>cs. obsd_main w s port [] = (None, cs @ [ObWaitSignal, ObCloseListener s, ObRemove s, ObCloseManager])"
  by (simp add: obsd_main_def and_then_def attempt_def must_def with_deferred_def when_act_def ok_def)

subsection \<open>Reading the exported text\<close>

text \<open>The samples of a text in the exposition format: comments are skipped, a sample is a name with its labels and a value.\<close>

definition sample_of :: "string \<Rightarrow> (string \<times> int) option" where
  "sample_of l =
     (if HasPrefix l ''#'' then None
      else Some (takeWhile (\<lambda>c. c \<noteq> CHR '' '') l, decimal_value (tl (dropWhile (\<lambda>c. c \<noteq> CHR '' '') l))))"

definition read_samples :: "string \<Rightarrow> (string \<times> int) list" where
  "read_samples text = List.map_filter sample_of (raw_lines text)"

definition name_ok :: "string \<Rightarrow> bool" where
  "name_ok k \<longleftrightarrow> k \<noteq> [] \<and> hd k \<noteq> CHR ''#'' \<and> CHR '' '' \<notin> set k \<and> CHR 0x0A \<notin> set k"

lemma read_samples_Nil [simp]: "read_samples [] = []"
  by (simp add: read_samples_def)

lemma read_comment: "CHR 0x0A \<notin> set l \<Longrightarrow> read_samples (CHR ''#'' # l @ nl @ rest) = read_samples rest"
  using raw_lines_line [of "CHR ''#'' # l" rest] by (simp add: read_samples_def sample_of_def nl_def)

lemma show_nat_no_newline: "CHR 0x0A \<notin> set (show_nat n)"
  using show_nat_digits [of n] by (auto simp: list_all_iff is_digit_def)

lemma read_sample:
  assumes "name_ok k"
  shows "read_samples (k @ CHR '' '' # show_u64 v @ nl @ rest) = (k, uint v) # read_samples rest"
proof -
  have "raw_lines ((k @ CHR '' '' # show_u64 v) @ CHR 0x0A # rest) = (k @ CHR '' '' # show_u64 v) # raw_lines rest"
    using assms by (intro raw_lines_line) (auto simp: name_ok_def show_u64_def show_nat_no_newline)
  moreover have "sample_of (k @ CHR '' '' # show_u64 v) = Some (k, uint v)"
  proof -
    have "\<forall>c \<in> set k. c \<noteq> CHR '' ''" using assms by (auto simp: name_ok_def)
    then show ?thesis
      using assms by (cases k) (simp_all add: sample_of_def name_ok_def show_u64_def takeWhile_append2 dropWhile_append2)
  qed
  ultimately show ?thesis by (simp add: read_samples_def nl_def)
qed

definition bucket_name :: "string \<Rightarrow> string \<Rightarrow> string" where
  "bucket_name metric le = metric @ ''_bucket{le='' @ [CHR 0x22] @ le @ [CHR 0x22] @ ''}''"

text \<open>The samples a histogram stands for: bucket \<open>i\<close> counts the slots up to \<open>i\<close>, modulo the width of the counters.\<close>

definition histogram_samples :: "string \<Rightarrow> u64 \<Rightarrow> u64 list \<Rightarrow> (string \<times> int) list" where
  "histogram_samples metric scale slots =
     map (\<lambda>i. (bucket_name metric (if i + 1 = length slots then ''+Inf'' else show_nat (2 ^ i)), uint (sum_list (take (i + 1) slots))))
       [0..<length slots] @
     [(metric @ ''_sum'', uint (sum_list slots * scale)), (metric @ ''_count'', uint (sum_list slots))]"

lemma show_nat_no_space: "CHR '' '' \<notin> set (show_nat n)"
  using show_nat_digits [of n] by (auto simp: list_all_iff is_digit_def)

lemma name_ok_bucket: "name_ok metric \<Longrightarrow> name_ok (bucket_name metric (if b then ''+Inf'' else show_nat n))"
  by (auto simp: name_ok_def bucket_name_def show_nat_no_newline show_nat_no_space)

definition bucket_samples :: "string \<Rightarrow> nat \<Rightarrow> u64 \<Rightarrow> u64 list \<Rightarrow> (string \<times> int) list" where
  "bucket_samples metric i c slots =
     map (\<lambda>j. (bucket_name metric (if j + 1 = length slots then ''+Inf'' else show_nat (2 ^ (i + j))), uint (c + sum_list (take (j + 1) slots))))
       [0..<length slots]"

lemma bucket_samples_Cons:
  "bucket_samples metric i c (count # slots) =
     (bucket_name metric (if slots = [] then ''+Inf'' else show_nat (2 ^ i)), uint (c + count)) # bucket_samples metric (i + 1) (c + count) slots"
  unfolding bucket_samples_def list.size(4) add_Suc_right add_0_right Suc_eq_plus1 [symmetric] map_upt_Suc
  by (simp add: add.assoc)

lemma bucket_lines_total: "snd (bucket_lines metric i c slots) = c + sum_list slots"
proof (induction slots arbitrary: i c)
  case (Cons count slots)
  have "snd (bucket_lines metric i c (count # slots)) = snd (bucket_lines metric (i + 1) (c + count) slots)"
    by (simp add: Let_def split: prod.split)
  with Cons.IH show ?case by (simp only: sum_list.Cons add.assoc)
qed simp

lemma read_buckets:
  assumes "name_ok metric"
  shows "read_samples (fst (bucket_lines metric i c slots) @ rest) = bucket_samples metric i c slots @ read_samples rest"
proof (induction slots arbitrary: i c)
  case Nil
  then show ?case by (simp add: bucket_samples_def)
next
  case (Cons count slots)
  let ?k = "bucket_name metric (if slots = [] then ''+Inf'' else show_nat (2 ^ i))"
  let ?t = "fst (bucket_lines metric (i + 1) (c + count) slots)"
  have out: "fst (bucket_lines metric i c (count # slots)) @ rest = ?k @ CHR '' '' # show_u64 (c + count) @ nl @ ?t @ rest"
    by (simp add: Let_def bucket_name_def split: prod.split)
  show ?case
    by (simp only: out read_sample [OF name_ok_bucket [OF assms]] Cons.IH bucket_samples_Cons append_Cons)
qed

lemma read_export_histogram:
  assumes "name_ok metric" and "CHR 0x0A \<notin> set help" and "hg_TotalCount h = sum_list (hg_Slots h)"
  shows "read_samples (export_histogram metric help scale h @ rest) = histogram_samples metric scale (hg_Slots h) @ read_samples rest"
proof -
  let ?b = "fst (bucket_lines metric 0 0 (hg_Slots h))"
  have names: "name_ok (metric @ ''_sum'')" "name_ok (metric @ ''_count'')" using assms(1) by (auto simp: name_ok_def)
  have no_nl: "CHR 0x0A \<notin> set metric" using assms(1) by (simp add: name_ok_def)
  have out: "export_histogram metric help scale h @ rest =
      CHR ''#'' # ('' HELP '' @ metric @ '' '' @ help) @ nl @
      CHR ''#'' # ('' TYPE '' @ metric @ '' histogram'') @ nl @ ?b @
      (metric @ ''_sum'') @ CHR '' '' # show_u64 (sum_list (hg_Slots h) * scale) @ nl @
      (metric @ ''_count'') @ CHR '' '' # show_u64 (sum_list (hg_Slots h)) @ nl @ rest"
    using bucket_lines_total [of metric 0 0 "hg_Slots h"]
    by (cases "bucket_lines metric 0 0 (hg_Slots h)") (simp add: export_histogram_def assms(3))
  have h1: "CHR 0x0A \<notin> set ('' HELP '' @ metric @ '' '' @ help)" and h2: "CHR 0x0A \<notin> set ('' TYPE '' @ metric @ '' histogram'')"
    using no_nl assms(2) by simp_all
  show ?thesis
    by (simp only: out read_comment [OF h1] read_comment [OF h2] read_buckets [OF assms(1)] read_sample [OF names(1)]
        read_sample [OF names(2)]) (simp add: histogram_samples_def bucket_samples_def)
qed

text \<open>
  C22: the exported text holds the counters. Read back line by line, it gives the fallback flag, the
  number of executions, and for each histogram the buckets with the sums of the slots up to them;
  the infinite bucket and the count are both the sum of all slots.
\<close>

theorem metrics_read_back:
  "read_samples (ExportPrometheusMetrics runq bio now m) =
     [(''karim_obsd_probe_info{fallback='' @ [CHR 0x22] @ (if om_fallbackMode m then ''true'' else ''false'') @ [CHR 0x22] @ ''}'', 1),
      (''karim_obsd_exec_events_total'', uint (om_execCount m))] @
     histogram_samples ''karim_obsd_runq_latency_microseconds'' 16 (hg_Slots (GetRunQueueLatency runq now m)) @
     histogram_samples ''karim_obsd_bio_latency_microseconds'' 64 (hg_Slots (GetBioLatency bio now m))"
proof -
  let ?rq = "GetRunQueueLatency runq now m" and ?bio = "GetBioLatency bio now m"
  let ?info = "''karim_obsd_probe_info{fallback='' @ [CHR 0x22] @ (if om_fallbackMode m then ''true'' else ''false'') @ [CHR 0x22] @ ''}''"
  have tot: "hg_TotalCount ?rq = sum_list (hg_Slots ?rq)" "hg_TotalCount ?bio = sum_list (hg_Slots ?bio)"
    by (simp_all add: GetRunQueueLatency_def GetBioLatency_def read_histogram_def Let_def)
  have names: "name_ok ?info" "name_ok ''karim_obsd_exec_events_total''" "name_ok ''karim_obsd_runq_latency_microseconds''"
    "name_ok ''karim_obsd_bio_latency_microseconds''"
    by (simp_all add: name_ok_def)
  have one: "show_u64 1 = ''1''" by (simp add: show_u64_def show_nat.simps digit_char_def)
  have out: "ExportPrometheusMetrics runq bio now m =
     CHR ''#'' # '' HELP karim_obsd_probe_info Information about eBPF probes status'' @ nl @
     CHR ''#'' # '' TYPE karim_obsd_probe_info gauge'' @ nl @
     ?info @ CHR '' '' # show_u64 1 @ nl @
     CHR ''#'' # '' HELP karim_obsd_exec_events_total Total process executions traced'' @ nl @
     CHR ''#'' # '' TYPE karim_obsd_exec_events_total counter'' @ nl @
     ''karim_obsd_exec_events_total'' @ CHR '' '' # show_u64 (om_execCount m) @ nl @
     export_histogram ''karim_obsd_runq_latency_microseconds'' ''CPU run-queue latency histogram in microseconds'' 16 ?rq @
     export_histogram ''karim_obsd_bio_latency_microseconds'' ''Block I/O completion latency histogram in microseconds'' 64 ?bio @ []"
    by (simp add: ExportPrometheusMetrics_def one)
  have no_nl: "CHR 0x0A \<notin> set '' HELP karim_obsd_probe_info Information about eBPF probes status''"
      "CHR 0x0A \<notin> set '' TYPE karim_obsd_probe_info gauge''"
      "CHR 0x0A \<notin> set '' HELP karim_obsd_exec_events_total Total process executions traced''"
      "CHR 0x0A \<notin> set '' TYPE karim_obsd_exec_events_total counter''"
      "CHR 0x0A \<notin> set ''CPU run-queue latency histogram in microseconds''"
      "CHR 0x0A \<notin> set ''Block I/O completion latency histogram in microseconds''"
      by simp_all
  show ?thesis
    by (simp only: out read_comment [OF no_nl(1)] read_comment [OF no_nl(2)] read_comment [OF no_nl(3)] read_comment [OF no_nl(4)]
          read_sample [OF names(1)] read_sample [OF names(2)] read_export_histogram [OF names(3) no_nl(5) tot(1)]
          read_export_histogram [OF names(4) no_nl(6) tot(2)] read_samples_Nil) simp
qed

subsection \<open>The states of the manager\<close>

text \<open>How a manager comes about: it is created, probes are loaded, events are streamed, it is closed.\<close>

definition tick_ok :: "tick \<Rightarrow> bool" where
  "tick_ok t \<longleftrightarrow> tk_idx t < 5 \<and> tk_rq t < 6 \<and> tk_bio t < 5"

inductive obsd_reachable :: "Manager \<Rightarrow> bool" where
  new: "obsd_reachable (NewManager now)"
| load: "obsd_reachable m \<Longrightarrow> obsd_reachable (LoadProbes env m)"
| stream: "obsd_reachable m \<Longrightarrow> list_all tick_ok ticks \<Longrightarrow> obsd_reachable (snd (snd (StreamExecEvents ticks ring m)))"
| close: "obsd_reachable m \<Longrightarrow> obsd_reachable (Close_manager m)"

definition manager_ok :: "Manager \<Rightarrow> bool" where
  "manager_ok m \<longleftrightarrow> length (om_simRunqLat m) = 20 \<and> length (om_simBioLat m) = 20 \<and> \<not> (om_isLoaded m \<and> om_fallbackMode m)"

lemma sim_stream_ok: "manager_ok m \<Longrightarrow> manager_ok (snd (sim_stream ticks (pid, m)))"
proof (induction ticks arbitrary: pid m)
  case (Cons t ticks)
  then have "manager_ok (snd (snd (sim_tick t (pid, m))))" by (simp add: sim_tick_def Let_def manager_ok_def)
  with Cons.IH show ?case by (simp add: Let_def split: prod.splits) (metis snd_conv)
qed simp

lemma ring_stream_ok: "manager_ok m \<Longrightarrow> manager_ok (snd (snd (ring_stream reads m)))"
proof (induction reads m rule: ring_stream.induct)
  case (4 raw now fin rs m)
  show ?case
  proof (cases "decode_exec raw now")
    case None
    with 4 show ?thesis by simp
  next
    case (Some ev)
    let ?m = "m\<lparr>om_execCount := om_execCount m + 1, om_lastUpdated := now\<rparr>"
    have "manager_ok ?m" using "4.prems" by (simp add: manager_ok_def)
    with Some "4.IH"(2) [OF Some refl] show ?thesis by (simp add: Let_def split: prod.splits) (metis snd_conv)
  qed
qed simp_all

lemma reachable_manager_ok: "obsd_reachable m \<Longrightarrow> manager_ok m"
proof (induction rule: obsd_reachable.induct)
  case (new now)
  then show ?case by (simp add: manager_ok_def NewManager_def)
next
  case (load m env)
  then show ?case by (simp add: manager_ok_def LoadProbes_def)
next
  case (stream m ticks ring)
  then show ?case
    using sim_stream_ok [of m ticks 100] ring_stream_ok [of m]
    by (auto simp: StreamExecEvents_def split: prod.splits sum.splits)
next
  case (close m)
  then show ?case by (simp add: manager_ok_def Close_manager_def)
qed



subsection \<open>Events\<close>

text \<open>The record the probe writes: the two numbers and the two names, padded with zero bytes.\<close>

definition pad_nul :: "nat \<Rightarrow> string \<Rightarrow> bytes" where
  "pad_nul n s = s @ replicate (n - length s) (CHR 0x00)"

definition exec_record :: "ExecEvent \<Rightarrow> bytes" where
  "exec_record ev = put_u32_le (ev_PID ev) @ put_u32_le (ev_PPID ev) @ pad_nul 16 (ev_Comm ev) @ pad_nul 256 (ev_Filename ev)"

definition event_ok :: "ExecEvent \<Rightarrow> bool" where
  "event_ok ev \<longleftrightarrow> length (ev_Comm ev) \<le> 16 \<and> length (ev_Filename ev) \<le> 256 \<and>
     CHR 0x00 \<notin> set (ev_Comm ev) \<and> CHR 0x00 \<notin> set (ev_Filename ev)"

lemma pad_nul_length: "length s \<le> n \<Longrightarrow> length (pad_nul n s) = n"
  by (simp add: pad_nul_def)

lemma trim_pad_nul: "CHR 0x00 \<notin> set s \<Longrightarrow> TrimRight (pad_nul n s) [CHR 0x00] = s"
proof -
  assume no_nul: "CHR 0x00 \<notin> set s"
  then have "dropWhile (\<lambda>c. c = CHR 0x00) (rev s) = rev s"
    by (cases "rev s") (auto simp: rev_swap)
  moreover have "dropWhile (\<lambda>c. c = CHR 0x00) (replicate k (CHR 0x00) @ t) = dropWhile (\<lambda>c. c = CHR 0x00) t" for k t
    by (induction k) simp_all
  ultimately show ?thesis by (simp add: TrimRight_def pad_nul_def)
qed

lemma get_u32_le_put [simp]: "get_u32_le (put_u32_le v @ r) = v"
  using u32_le.dec_enc [of v] by (simp add: get_u32_le_def put_u32_le_def)

lemma decode_exec_record:
  assumes "event_ok ev"
  shows "decode_exec (exec_record ev) (ev_Timestamp ev) = Some ev"
proof -
  have len: "length (pad_nul 16 (ev_Comm ev)) = 16" "length (pad_nul 256 (ev_Filename ev)) = 256"
    using assms by (simp_all add: event_ok_def pad_nul_length)
  then have "length (exec_record ev) = 280" by (simp add: exec_record_def)
  moreover have "take 16 (drop 8 (exec_record ev)) = pad_nul 16 (ev_Comm ev)" "take 256 (drop 24 (exec_record ev)) = pad_nul 256 (ev_Filename ev)"
    by (simp_all add: exec_record_def len)
  moreover have "get_u32_le (exec_record ev) = ev_PID ev" "get_u32_le (drop 4 (exec_record ev)) = ev_PPID ev"
    by (simp_all add: exec_record_def)
  ultimately show ?thesis
    using assms by (simp add: decode_exec_def trim_pad_nul event_ok_def len)
qed

text \<open>A sequence of ring buffer records: usable ones and ones that are too short.\<close>

fun ring_reads :: "(bytes + ExecEvent) list \<Rightarrow> ring_read list" where
  "ring_reads [] = [RingClosed]"
| "ring_reads (Inl raw # es) = RingRecord raw 0 False # ring_reads es"
| "ring_reads (Inr ev # es) = RingRecord (exec_record ev) (ev_Timestamp ev) False # ring_reads es"

fun traced :: "(bytes + ExecEvent) list \<Rightarrow> ExecEvent list" where
  "traced [] = []"
| "traced (Inl raw # es) = traced es"
| "traced (Inr ev # es) = ev # traced es"

text \<open>
  Every traced execution is reported once, in order. If the ring buffer delivers the records of some
  events, with unusable shorter records anywhere between them, and is then closed, the stream
  delivers exactly these events and the counter grows by their number.
\<close>

theorem exec_events_delivered:
  assumes "om_isLoaded m" and "\<not> om_fallbackMode m"
    and "list_all (\<lambda>e. case e of Inl raw \<Rightarrow> length raw < 280 | Inr ev \<Rightarrow> event_ok ev) es"
  shows "\<exists>m'. StreamExecEvents ticks (Inr (ring_reads es)) m = (StreamEnd None, traced es, m') \<and>
    om_execCount m' = om_execCount m + word_of_nat (length (traced es))"
proof -
  have "\<exists>m'. ring_stream (ring_reads es) m = (StreamEnd None, traced es, m') \<and>
      om_execCount m' = om_execCount m + word_of_nat (length (traced es))"
    using assms(3)
  proof (induction es arbitrary: m rule: traced.induct)
    case (2 raw es)
    then show ?case by (simp add: decode_exec_def)
  next
    case (3 ev es)
    let ?m = "m\<lparr>om_execCount := om_execCount m + 1, om_lastUpdated := ev_Timestamp ev\<rparr>"
    from "3.prems" have ev: "decode_exec (exec_record ev) (ev_Timestamp ev) = Some ev" by (simp add: decode_exec_record)
    obtain m' where "ring_stream (ring_reads es) ?m = (StreamEnd None, traced es, m')"
      "om_execCount m' = om_execCount ?m + word_of_nat (length (traced es))"
      using "3.IH" [of ?m] "3.prems" by auto
    with ev show ?case by (simp add: add.assoc)
  qed simp
  with assms(1,2) show ?thesis by (simp add: StreamExecEvents_def)
qed

definition sample_event :: ExecEvent where
  "sample_event = \<lparr>ev_PID = 42, ev_PPID = 1, ev_Comm = ''cat'', ev_Filename = ''/bin/cat'', ev_Timestamp = 5\<rparr>"

definition loaded_manager :: Manager where
  "loaded_manager = LoadProbes \<lparr>pe_execsnoop = None, pe_runqlat = None, pe_biolatency = None\<rparr> (NewManager 0)"

theorem exec_events_delivered_witness:
  "\<exists>m'. StreamExecEvents [] (Inr (ring_reads [Inr sample_event, Inl ''x'', Inr sample_event])) loaded_manager =
     (StreamEnd None, [sample_event, sample_event], m') \<and> om_execCount m' = 2"
  using exec_events_delivered [of loaded_manager "[Inr sample_event, Inl ''x'', Inr sample_event]" "[]"]
  by (simp add: loaded_manager_def LoadProbes_def load_errors_def NewManager_def event_ok_def sample_event_def)

subsection \<open>The daemon behind the control server\<close>

definition small :: "bytes \<Rightarrow> bool" where
  "small b \<longleftrightarrow> length b \<le> MaxFrameSize"

lemma small_bound: "small b \<Longrightarrow> length b < 2 ^ 32"
  by (simp add: small_def MaxFrameSize_def)

lemma write_frames_all_ok:
  "list_all small bs \<Longrightarrow> \<exists>out. steps (map (WriteFrame all_ok) bs) tr = (None, out) \<and> concat out = concat tr @ concat (map frame_bytes bs)"
proof (induction bs arbitrary: tr)
  case (Cons b bs)
  obtain t where w: "WriteFrame all_ok b tr = (None, t)" using WriteFrame_all_ok by blast
  then have "concat t = concat tr @ frame_bytes b"
    using Cons.prems small_bound by (intro WriteFrame_bytes) auto
  moreover obtain out where "steps (map (WriteFrame all_ok) bs) t = (None, out)" "concat out = concat t @ concat (map frame_bytes bs)"
    using Cons.IH [of t] Cons.prems by auto
  ultimately show ?case using w by (simp add: and_then_def)
qed (simp add: ok_def)

lemma write_frame_all_ok: "small b \<Longrightarrow> \<exists>out. WriteFrame all_ok b tr = (None, out) \<and> concat out = concat tr @ frame_bytes b"
  using write_frames_all_ok [of "[b]" tr] by (simp add: and_then_def ok_def split: prod.splits option.splits)

text \<open>What the daemon answers on a connection that carries one request, and accepts what it writes.\<close>

definition obsd_answer :: "obsd_report json_ops \<Rightarrow> (bytes \<Rightarrow> string) \<Rightarrow> (ExecEvent \<Rightarrow> bytes) \<Rightarrow> obsd_state \<Rightarrow> bytes \<Rightarrow> bytes" where
  "obsd_answer js part_id ev_json s request =
     concat (snd (obsd_handleConn js part_id ev_json s all_ok \<lparr>rd_data = frame_bytes request, rd_end = AtEOF\<rparr> []))"

lemma read_request: "small b \<Longrightarrow> ReadFrame \<lparr>rd_data = frame_bytes b, rd_end = e\<rparr> = (Inr b, \<lparr>rd_data = [], rd_end = e\<rparr>)"
  using vsock.recv_wire [of b "[]" e] by (simp add: small_def)

lemma obsd_answer_trace:
  assumes "small request" and "js_decode_req js request = Inr req" and "req_Command req = ''trace''"
    and "list_all small (encode_or_nil js (ok_response req (TextData ''STREAM_START'')) # map ev_json (os_events s))"
  shows "obsd_answer js part_id ev_json s request =
    concat (map frame_bytes (encode_or_nil js (ok_response req (TextData ''STREAM_START'')) # map ev_json (os_events s)))"
proof -
  let ?bs = "encode_or_nil js (ok_response req (TextData ''STREAM_START'')) # map ev_json (os_events s)"
  obtain out where "steps (map (WriteFrame all_ok) ?bs) [] = (None, out)" "concat out = concat (map frame_bytes ?bs)"
    using write_frames_all_ok [OF assms(4), of "[]"] by auto
  then show ?thesis
    using assms(1-3) by (simp add: obsd_answer_def obsd_handleConn_def read_request ignore_err_def comp_def)
qed

lemma obsd_answer_metrics:
  assumes "small request" and "js_decode_req js request = Inr req" and "req_Command req = ''get_metrics''"
    and "small (encode_or_nil js (ok_response req (HostData (obsd_report_of s))))"
  shows "obsd_answer js part_id ev_json s request = frame_bytes (encode_or_nil js (ok_response req (HostData (obsd_report_of s))))"
proof -
  obtain out where "WriteFrame all_ok (encode_or_nil js (ok_response req (HostData (obsd_report_of s)))) [] = (None, out)"
    "concat out = frame_bytes (encode_or_nil js (ok_response req (HostData (obsd_report_of s))))"
    using write_frame_all_ok [OF assms(4), of "[]"] by auto
  then show ?thesis
    using assms(1-3) by (simp add: obsd_answer_def obsd_handleConn_def read_request ignore_err_def)
qed

text \<open>The connection from the control server to the daemon.\<close>

definition daemon_peer :: "obsd_report json_ops \<Rightarrow> (bytes \<Rightarrow> string) \<Rightarrow> (ExecEvent \<Rightarrow> bytes) \<Rightarrow> obsd_state \<Rightarrow> bytes \<Rightarrow> obsd_peer" where
  "daemon_peer js part_id ev_json s request =
     \<lparr>od_dial = None, od_write = all_ok, od_read = \<lparr>rd_data = obsd_answer js part_id ev_json s request, rd_end = AtEOF\<rparr>\<rparr>"

definition trace_request :: "RPCRequest \<Rightarrow> RPCRequest" where
  "trace_request req = \<lparr>req_ID = req_ID req, req_Command = ''trace'', req_Service = [], req_Args = [], req_Payload = []\<rparr>"

definition metrics_request :: RPCRequest where
  "metrics_request = \<lparr>req_ID = ''obsd-1'', req_Command = ''get_metrics'', req_Service = [], req_Args = [], req_Payload = []\<rparr>"


text \<open>An encoding that tells apart the messages of one exchange.\<close>

definition sample_obsd :: obsd_state where
  "sample_obsd = \<lparr>os_manager = loaded_manager, os_runq = None, os_bio = None, os_now = 9, os_events = [sample_event, sample_event]\<rparr>"

definition telemetry_json :: "obsd_report json_ops" where
  "telemetry_json =
     \<lparr>js_decode_req = \<lambda>b. if b = ''m'' then Inr metrics_request else Inr (trace_request ping_request),
      js_encode_resp = \<lambda>r. Inr (case resp_Data r of TextData t \<Rightarrow> t | _ \<Rightarrow> ''report''),
      js_encode_req = \<lambda>r. if r = metrics_request then ''m'' else ''t''\<rparr>"

definition telemetry_decode :: "bytes \<Rightarrow> (string, obsd_report RPCResponse) result" where
  "telemetry_decode b =
     Inr (if b = ''report'' then ok_response metrics_request (HostData (obsd_report_of sample_obsd))
          else ok_response (trace_request ping_request) (TextData b))"


end
