(* ===== verification/SystemStatus.thy ===== *)
theory SystemStatus
  imports GoStrings GoBytes
begin

text \<open>
  \<open>internal/system/system.go\<close>: what the guest reports of itself, freezing and thawing a file
  system around a snapshot, and the repair of entropy and clock after a restore.

  The environment answers with the contents of the files under \<open>/proc\<close>, with the result of an
  \<open>ioctl\<close> (an error number or none), with the bytes of the hardware generator and with the fields
  read from the clock device. \<open>time.Date\<close> is Go's, in the proleptic Gregorian calendar.
\<close>

unbundle bit_operations_syntax

subsection \<open>Status\<close>

record SystemStatus =
  st_EntropyAvail :: int
  st_RTCSynced :: bool
  st_CurrentTime :: int
  st_DebugMode :: bool
  st_KernelCmdline :: string
  st_UptimeSeconds :: int

definition procEntropyPath :: string where
  "procEntropyPath = ''/proc/sys/kernel/random/entropy_avail''"

definition procCmdlinePath :: string where
  "procCmdlinePath = ''/proc/cmdline''"

definition rtcDevPath :: string where
  "rtcDevPath = ''/dev/rtc0''"

record status_env =
  se_readfile :: "string \<Rightarrow> (string, string) result"
  se_stat :: "string \<Rightarrow> bool"
  se_sysinfo :: "int option"
  se_now :: int

datatype status_error = ReadFailed string string | InvalidEntropy string num_error

definition GetEntropyAvailable :: "status_env \<Rightarrow> (status_error, int) result" where
  "GetEntropyAvailable env =
     (case se_readfile env procEntropyPath of
        Inl e \<Rightarrow> Inl (ReadFailed procEntropyPath e)
      | Inr data \<Rightarrow>
          (let valStr = TrimSpace data
           in case ParseInt10 valStr of Inl e \<Rightarrow> Inl (InvalidEntropy valStr e) | Inr val \<Rightarrow> Inr val))"

definition IsDebugEnabled :: "status_env \<Rightarrow> bool" where
  "IsDebugEnabled env =
     (case se_readfile env procCmdlinePath of
        Inl _ \<Rightarrow> False
      | Inr line \<Rightarrow> Contains line ''karim.debug=1'' \<or> Contains line ''karim.debug=shell'')"

definition ReadKernelCmdline :: "status_env \<Rightarrow> string" where
  "ReadKernelCmdline env = (case se_readfile env procCmdlinePath of Inl _ \<Rightarrow> [] | Inr data \<Rightarrow> TrimSpace data)"

definition IsRTCAvailable :: "status_env \<Rightarrow> bool" where
  "IsRTCAvailable env \<longleftrightarrow> (if se_stat env rtcDevPath then True else se_stat env ''/dev/rtc'')"

definition GetUptimeSeconds :: "status_env \<Rightarrow> int" where
  "GetUptimeSeconds env = (case se_sysinfo env of Some up \<Rightarrow> up | None \<Rightarrow> 0)"

text \<open>The error is always nil.\<close>

definition GetSystemStatus :: "status_env \<Rightarrow> SystemStatus" where
  "GetSystemStatus env =
     \<lparr>st_EntropyAvail = (case GetEntropyAvailable env of Inl _ \<Rightarrow> - 1 | Inr n \<Rightarrow> n),
      st_RTCSynced = IsRTCAvailable env, st_CurrentTime = se_now env, st_DebugMode = IsDebugEnabled env,
      st_KernelCmdline = ReadKernelCmdline env, st_UptimeSeconds = GetUptimeSeconds env\<rparr>"

subsection \<open>Freezing and thawing\<close>

definition FIFREEZE :: nat where
  "FIFREEZE = 0xc0045877"

definition FITHAW :: nat where
  "FITHAW = 0xc0045878"

datatype errno = EBUSY | EINVAL | ENOTTY | Errno string

datatype sy_call =
    SySync
  | SyOpen string
  | SyIoctl nat
  | SyClose
  | SyRead nat
  | SyOpenWrite string
  | SyWrite bytes
  | SyClockSettime int

datatype sy_error = OpenFailed string string | IoctlFailed string errno | SettimeFailed string

type_synonym ioctl_env = "sy_call list \<Rightarrow> nat \<Rightarrow> errno option"

text \<open>An \<open>ioctl\<close> whose listed error numbers are taken as success.\<close>

definition ioctl_act :: "ioctl_env \<Rightarrow> nat \<Rightarrow> errno list \<Rightarrow> (errno \<Rightarrow> sy_error) \<Rightarrow> (sy_call, sy_error) action" where
  "ioctl_act io req accepted mk tr =
     (case io tr req of
        None \<Rightarrow> (None, tr @ [SyIoctl req])
      | Some e \<Rightarrow> (if e \<in> set accepted then None else Some (mk e), tr @ [SyIoctl req]))"

definition FreezeFilesystem :: "sy_call world \<Rightarrow> ioctl_env \<Rightarrow> string \<Rightarrow> (sy_call, sy_error) action" where
  "FreezeFilesystem w io mountPath =
     (let mountPath = (if mountPath = [] then ''/'' else mountPath)
      in steps [attempt SySync,
                must w (SyOpen mountPath) (OpenFailed mountPath),
                with_deferred SyClose (ioctl_act io FIFREEZE [EBUSY, EINVAL, ENOTTY] (IoctlFailed mountPath))])"

definition ThawFilesystem :: "sy_call world \<Rightarrow> ioctl_env \<Rightarrow> string \<Rightarrow> (sy_call, sy_error) action" where
  "ThawFilesystem w io mountPath =
     (let mountPath = (if mountPath = [] then ''/'' else mountPath)
      in steps [must w (SyOpen mountPath) (OpenFailed mountPath),
                with_deferred SyClose (ioctl_act io FITHAW [EINVAL, ENOTTY] (IoctlFailed mountPath))])"

subsection \<open>Entropy\<close>

text \<open>
  \<open>byte((nowNano >> (i % 8 * 8)) ^ int64(pid+i))\<close>, in 64-bit arithmetic: the shift is arithmetic and
  the conversion keeps the low eight bits.
\<close>

definition fallback_byte :: "int \<Rightarrow> int \<Rightarrow> nat \<Rightarrow> char" where
  "fallback_byte nowNano pid i =
     char_of (nat ((drop_bit (i mod 8 * 8) nowNano XOR wrap_int64 (pid + int i)) mod 256))"

text \<open>The bytes the hardware generator delivers, cut to the buffer; without any, 64 bytes of clock and process number.\<close>

definition reseed_bytes :: "bytes option \<Rightarrow> int \<Rightarrow> int \<Rightarrow> bytes" where
  "reseed_bytes hwrng nowNano pid =
     (let randBuf = (case hwrng of None \<Rightarrow> [] | Some b \<Rightarrow> take 512 b)
      in if randBuf = [] then map (fallback_byte nowNano pid) [0..<64] else randBuf)"

definition ReseedEntropy :: "sy_call world \<Rightarrow> bytes option \<Rightarrow> int \<Rightarrow> int \<Rightarrow> (sy_call, sy_error) action" where
  "ReseedEntropy w hwrng nowNano pid =
     steps
       ((if hwrng = None then [attempt (SyOpen ''/dev/hwrng'')]
         else [attempt (SyOpen ''/dev/hwrng''), attempt (SyRead 512), attempt SyClose]) @
        [\<lambda>tr. (case w tr (SyOpenWrite ''/dev/urandom'') of
           Some _ \<Rightarrow> (None, tr @ [SyOpenWrite ''/dev/urandom''])
         | None \<Rightarrow> (None, tr @ [SyOpenWrite ''/dev/urandom'', SyWrite (reseed_bytes hwrng nowNano pid), SyClose]))])"

subsection \<open>The clock\<close>

record rtc_time =
  tm_Sec :: int
  tm_Min :: int
  tm_Hour :: int
  tm_Mday :: int
  tm_Mon :: int
  tm_Year :: int

text \<open>\<open>time.Date\<close> in UTC, in seconds since 1970: a month outside 0..11 carries into the year, the other fields simply add up.\<close>

definition is_leap :: "int \<Rightarrow> bool" where
  "is_leap y \<longleftrightarrow> y mod 4 = 0 \<and> (y mod 100 \<noteq> 0 \<or> y mod 400 = 0)"

definition daysBefore :: "int list" where
  "daysBefore = [0, 31, 59, 90, 120, 151, 181, 212, 243, 273, 304, 334]"

definition days_to_year :: "int \<Rightarrow> int" where
  "days_to_year y = 365 * (y - 1970) + ((y - 1) div 4 - (y - 1) div 100 + (y - 1) div 400) - 477"

definition Date_days :: "int \<Rightarrow> int \<Rightarrow> int \<Rightarrow> int" where
  "Date_days year month0 day =
     (let y = year + month0 div 12; m = month0 mod 12
      in days_to_year y + daysBefore ! nat m + (if is_leap y \<and> 2 \<le> m then 1 else 0) + day - 1)"

definition Date_unix :: "int \<Rightarrow> int \<Rightarrow> int \<Rightarrow> int \<Rightarrow> int \<Rightarrow> int \<Rightarrow> int" where
  "Date_unix year month0 day hour minute sec = Date_days year month0 day * 86400 + hour * 3600 + minute * 60 + sec"

text \<open>The fields are 32-bit: \<open>rtcTm.Mon+1\<close> wraps before \<open>time.Date\<close> counts months from one.\<close>

definition wrap_int32 :: "int \<Rightarrow> int" where
  "wrap_int32 i = (i + 2 ^ 31) mod 2 ^ 32 - 2 ^ 31"

definition rtc_unix_nano :: "rtc_time \<Rightarrow> int" where
  "rtc_unix_nano tm =
     wrap_int64 (Date_unix (tm_Year tm + 1900) (wrap_int32 (tm_Mon tm + 1) - 1) (tm_Mday tm) (tm_Hour tm) (tm_Min tm) (tm_Sec tm) * 1000000000)"

definition RTC_RD_TIME :: nat where
  "RTC_RD_TIME = 0x80247009"

text \<open>What reading the clock through an open device gives.\<close>

type_synonym rtc_env = "sy_call list \<Rightarrow> (errno, rtc_time) result"

definition read_rtc :: "sy_call world \<Rightarrow> rtc_env \<Rightarrow> (sy_call, sy_error) action" where
  "read_rtc w rtc tr =
     (case rtc tr of
        Inl e \<Rightarrow> (Some (IoctlFailed [] e), tr @ [SyIoctl RTC_RD_TIME])
      | Inr tm \<Rightarrow> must w (SyClockSettime (rtc_unix_nano tm)) SettimeFailed (tr @ [SyIoctl RTC_RD_TIME]))"

definition SyncRTCTime :: "sy_call world \<Rightarrow> rtc_env \<Rightarrow> (sy_call, sy_error) action" where
  "SyncRTCTime w rtc tr =
     (let dev = with_deferred SyClose (read_rtc w rtc); tr1 = tr @ [SyOpen ''/dev/rtc0'']
      in case w tr (SyOpen ''/dev/rtc0'') of
           None \<Rightarrow> dev tr1
         | Some _ \<Rightarrow>
             (case w tr1 (SyOpen ''/dev/rtc'') of
                None \<Rightarrow> dev (tr1 @ [SyOpen ''/dev/rtc''])
              | Some _ \<Rightarrow> (None, tr1 @ [SyOpen ''/dev/rtc''])))"

subsection \<open>The calendar\<close>

definition month_days :: "int \<Rightarrow> int \<Rightarrow> int" where
  "month_days y m = (if m = 1 then (if is_leap y then 29 else 28) else if m \<in> {3, 5, 8, 10} then 30 else 31)"

definition valid_date :: "int \<times> int \<times> int \<Rightarrow> bool" where
  "valid_date = (\<lambda>(y, m, d). 0 \<le> m \<and> m < 12 \<and> 1 \<le> d \<and> d \<le> month_days y m)"

definition next_date :: "int \<times> int \<times> int \<Rightarrow> int \<times> int \<times> int" where
  "next_date = (\<lambda>(y, m, d).
     if d < month_days y m then (y, m, d + 1) else if m < 11 then (y, m + 1, 1) else (y + 1, 0, 1))"

definition days_of :: "int \<times> int \<times> int \<Rightarrow> int" where
  "days_of = (\<lambda>(y, m, d). Date_days y m d)"

lemma div_step:
  assumes "0 < (n :: int)"
  shows "y div n = (y - 1) div n + (if y mod n = 0 then 1 else 0)"
proof (cases "y mod n = 0")
  case True
  then have "y - 1 = n * (y div n - 1) + (n - 1)"
    using mult_div_mod_eq [of n y] by (simp add: algebra_simps)
  then have "(y - 1) div n = y div n - 1"
    by (rule int_div_pos_eq [where r = "n - 1"]) (use assms in simp_all)
  with True show ?thesis by simp
next
  case False
  have "y - 1 = n * (y div n) + (y mod n - 1)" using mult_div_mod_eq [of n y] by simp
  moreover have "0 \<le> y mod n - 1" "y mod n - 1 < n"
    using False assms pos_mod_sign [of n y] pos_mod_bound [of n y] by linarith+
  ultimately have "(y - 1) div n = y div n" by (intro int_div_pos_eq)
  with False show ?thesis by simp
qed

lemma leap_cases: "(y :: int) mod 400 = 0 \<Longrightarrow> y mod 100 = 0" "(y :: int) mod 100 = 0 \<Longrightarrow> y mod 4 = 0"
  using mod_mod_cancel [of 100 400 y] mod_mod_cancel [of 4 100 y] by simp_all

lemma days_to_year_Suc: "days_to_year (y + 1) = days_to_year y + (if is_leap y then 366 else 365)"
proof -
  have "365 * (y + 1 - 1970) + (a' - b' + c') - 477 = 365 * (y - 1970) + (a - b + c) - 477 + 365 + (i - j + k)"
    if "a' = a + i" "b' = b + j" "c' = c + k" for a a' b b' c c' i j k :: int using that by simp
  from this [OF div_step [of 4 y] div_step [of 100 y] div_step [of 400 y]]
  have step: "days_to_year (y + 1) = days_to_year y + 365 +
      ((if y mod 4 = 0 then 1 else 0) - (if y mod 100 = 0 then 1 else 0) + (if y mod 400 = 0 then 1 else 0))"
    unfolding days_to_year_def by (simp only: add_diff_cancel_right' zero_less_numeral)
  show ?thesis
    unfolding step is_leap_def using leap_cases [of y] by (cases "y mod 4 = 0"; cases "y mod 100 = 0"; cases "y mod 400 = 0") simp_all
qed

lemma month_cases: "0 \<le> (m :: int) \<Longrightarrow> m < 12 \<Longrightarrow> m \<in> {0, 1, 2, 3, 4, 5, 6, 7, 8, 9, 10, 11}"
  by simp presburger

lemma Date_days_month:
  assumes "0 \<le> m" "m < 11"
  shows "Date_days y (m + 1) 1 = Date_days y m (month_days y m) + 1"
  using month_cases [of m] assms by (auto simp: Date_days_def daysBefore_def month_days_def)

lemma Date_days_year: "Date_days (y + 1) 0 1 = Date_days y 11 31 + 1"
  by (simp add: Date_days_def daysBefore_def days_to_year_Suc)

lemma days_of_next: "valid_date t \<Longrightarrow> days_of (next_date t) = days_of t + 1"
proof (cases t)
  case (fields y m d)
  assume v: "valid_date t"
  consider "d < month_days y m" | "d = month_days y m" "m < 11" | "d = 31" "m = 11"
    using v by (force simp: valid_date_def fields month_days_def split: if_splits)
  then show ?thesis
  proof cases
    case 1
    then show ?thesis by (simp add: days_of_def next_date_def fields Date_days_def Let_def)
  next
    case 2
    then show ?thesis using v Date_days_month [of m y]
      by (simp add: days_of_def next_date_def fields valid_date_def)
  next
    case 3
    then show ?thesis using Date_days_year [of y]
      by (simp add: days_of_def next_date_def fields month_days_def)
  qed
qed

lemma valid_next: "valid_date t \<Longrightarrow> valid_date (next_date t)"
  by (auto simp: valid_date_def next_date_def month_days_def split: prod.splits if_splits)

lemma days_of_epoch: "days_of (1970, 0, 1) = 0"
  by (simp add: days_of_def Date_days_def days_to_year_def daysBefore_def)

lemma iterated_next: "valid_date ((next_date ^^ n) (1970, 0, 1)) \<and> days_of ((next_date ^^ n) (1970, 0, 1)) = int n"
proof (induction n)
  case 0
  then show ?case by (simp add: days_of_epoch valid_date_def month_days_def)
next
  case (Suc n)
  then show ?case by (simp add: valid_next days_of_next)
qed

text \<open>
  C29: after a restore the clock is set to the time of the clock device. If the device reads the
  \<open>n\<close>-th day after 1 January 1970, counted day by day through the Gregorian calendar, at some time
  of that day, then the call that sets the clock gets that many days and seconds in nanoseconds, for
  every day until the year 2262; nothing else is done but opening, reading and closing the device, and
  the error is that of setting the clock.
\<close>

theorem rtc_clock_exact:
  assumes "(next_date ^^ n) (1970, 0, 1) = (y, m, d)" and "n < 106751"
    and "0 \<le> h" "h < 24" and "0 \<le> mi" "mi < 60" and "0 \<le> s" "s < 60"
    and "rtc [SyOpen ''/dev/rtc0''] = Inr \<lparr>tm_Sec = s, tm_Min = mi, tm_Hour = h, tm_Mday = d, tm_Mon = m, tm_Year = y - 1900\<rparr>"
    and "w [] (SyOpen ''/dev/rtc0'') = None"
  shows "SyncRTCTime w rtc [] =
    (let t = SyClockSettime ((int n * 86400 + h * 3600 + mi * 60 + s) * 1000000000)
     in (map_option SettimeFailed (w [SyOpen ''/dev/rtc0'', SyIoctl RTC_RD_TIME] t),
         [SyOpen ''/dev/rtc0'', SyIoctl RTC_RD_TIME, t, SyClose]))"
proof -
  have days: "Date_days y m d = int n" and mon: "0 \<le> m" "m < 12"
    using iterated_next [of n] by (simp_all add: assms(1) days_of_def valid_date_def)
  have "wrap_int32 (m + 1) - 1 = m" using mon by (simp add: wrap_int32_def)
  moreover have "wrap_int64 ((int n * 86400 + h * 3600 + mi * 60 + s) * 1000000000) = (int n * 86400 + h * 3600 + mi * 60 + s) * 1000000000"
    using assms(2-8) by (intro wrap_int64_id) simp_all
  ultimately show ?thesis
    using assms(9,10) by (simp add: SyncRTCTime_def with_deferred_def read_rtc_def must_def rtc_unix_nano_def Date_unix_def days Let_def)
qed

text \<open>The last second of 31 January 1970, by stepping through the month.\<close>

theorem rtc_clock_exact_witness:
  "SyncRTCTime all_ok (\<lambda>_. Inr \<lparr>tm_Sec = 59, tm_Min = 59, tm_Hour = 23, tm_Mday = 31, tm_Mon = 0, tm_Year = 70\<rparr>) [] =
     (None, [SyOpen ''/dev/rtc0'', SyIoctl RTC_RD_TIME, SyClockSettime 2678399000000000, SyClose])"
proof -
  have "(next_date ^^ 30) (1970, 0, 1) = (1970, 0, 31)"
    by (simp add: numeral_eq_Suc next_date_def month_days_def)
  from rtc_clock_exact [OF this, of 23 59 59 "\<lambda>_. Inr \<lparr>tm_Sec = 59, tm_Min = 59, tm_Hour = 23, tm_Mday = 31, tm_Mon = 0, tm_Year = 70\<rparr>" all_ok]
  show ?thesis by (simp add: all_ok_def)
qed

subsection \<open>Freezing, thawing and reseeding\<close>

text \<open>
  Freezing flushes before it freezes and closes the directory again; an already frozen or an
  unfreezable file system counts as frozen.
\<close>

lemma freeze_exact:
  assumes "w [SySync] (SyOpen p) = None" and "p \<noteq> []"
  shows "FreezeFilesystem w io p [] =
    (case io [SySync, SyOpen p] FIFREEZE of
       Some (Errno e) \<Rightarrow> Some (IoctlFailed p (Errno e)) | _ \<Rightarrow> None, [SySync, SyOpen p, SyIoctl FIFREEZE, SyClose])"
  using assms
  by (simp add: FreezeFilesystem_def attempt_def must_def and_then_def with_deferred_def ioctl_act_def split: option.splits errno.splits)

text \<open>A thaw that finds the file system busy is an error; a freeze that does is not.\<close>

lemma thaw_busy:
  "p \<noteq> [] \<Longrightarrow> w [] (SyOpen p) = None \<Longrightarrow> io [SyOpen p] FITHAW = Some EBUSY \<Longrightarrow>
     fst (ThawFilesystem w io p []) = Some (IoctlFailed p EBUSY)"
  by (simp add: ThawFilesystem_def must_def and_then_def with_deferred_def ioctl_act_def)

text \<open>The reseeding always has bytes to write: between 1 and 512, and it never reports an error.\<close>

lemma reseed_bytes_length: "1 \<le> length (reseed_bytes hw now pid) \<and> length (reseed_bytes hw now pid) \<le> 512"
  by (auto simp: reseed_bytes_def Let_def Suc_le_eq split: option.splits)

lemma reseed_never_fails: "fst (ReseedEntropy w hw now pid tr) = None"
  by (simp add: ReseedEntropy_def attempt_def and_then_def ok_def split: option.splits)

text \<open>The option is looked for anywhere in the command line: a longer value enables debugging too.\<close>

lemma debug_by_substring:
  "IsDebugEnabled \<lparr>se_readfile = \<lambda>_. Inr ''quiet karim.debug=10'', se_stat = \<lambda>_. False, se_sysinfo = None, se_now = 0\<rparr>"
  by (simp add: IsDebugEnabled_def HasPrefix_def)

end
