(* ===== verification/SvcCgroup.thy ===== *)
theory SvcCgroup
  imports SvcConfig GoEffects
begin

text \<open>
  \<open>internal/svcd/cgroup.go\<close>: the cgroup of a service. The cgroup file system is the environment.
  Arithmetic on the \<open>float64\<close> quota is a parameter: \<open>fl_positive\<close> is the comparison with 0 and
  \<open>fl_quota_us\<close> is \<open>int(q * 100000 / 100.0)\<close>.
\<close>

definition CGroupBaseDir :: string where
  "CGroupBaseDir = ''/sys/fs/cgroup/karim''"

datatype cg_call = CgMkdirAll string nat | CgWriteFile string string

datatype cg_error =
    CgBaseFailed string string
  | CgServiceFailed string string
  | CgAttachFailed int string string
  | CgSubtreeFailed string

record float_ops =
  fl_positive :: "float64 \<Rightarrow> bool"
  fl_quota_us :: "float64 \<Rightarrow> int"

text \<open>A manager is its base path.\<close>

type_synonym CGroupManager = string

definition enableSubtreeControllers :: "cg_call world \<Rightarrow> string \<Rightarrow> string \<Rightarrow> (cg_call, cg_error) action" where
  "enableSubtreeControllers w parentDir controllers =
     must w (CgWriteFile (Join_path [parentDir, ''cgroup.subtree_control'']) controllers) CgSubtreeFailed"

definition NewCGroupManager :: "cg_call world \<Rightarrow> (cg_call, cg_error) action" where
  "NewCGroupManager w = steps
     [must w (CgMkdirAll CGroupBaseDir 0x1ED) (CgBaseFailed CGroupBaseDir),
      ignore_err (enableSubtreeControllers w ''/sys/fs/cgroup'' ''+memory +cpu''),
      ignore_err (enableSubtreeControllers w CGroupBaseDir ''+memory +cpu'')]"

definition service_cgroup :: "CGroupManager \<Rightarrow> string \<Rightarrow> string" where
  "service_cgroup basePath name = Join_path [basePath, name]"

text \<open>A failed write of a limit is only reported on the console.\<close>

definition CreateServiceCGroup ::
  "float_ops \<Rightarrow> cg_call world \<Rightarrow> CGroupManager \<Rightarrow> ServiceSpec \<Rightarrow> (cg_call, cg_error) action"
where
  "CreateServiceCGroup fl w basePath spec =
     (let path = service_cgroup basePath (spec_Name spec)
      in steps
        [must w (CgMkdirAll path 0x1ED) (CgServiceFailed path),
         when_act (0 < spec_MemoryLimit spec)
           (attempt (CgWriteFile (Join_path [path, ''memory.max'']) (show_int (spec_MemoryLimit spec)))),
         when_act (fl_positive fl (spec_CPUQuota spec))
           (attempt (CgWriteFile (Join_path [path, ''cpu.max''])
             (show_int (fl_quota_us fl (spec_CPUQuota spec)) @ '' '' @ show_int 100000)))])"

definition AttachProcess :: "cg_call world \<Rightarrow> CGroupManager \<Rightarrow> string \<Rightarrow> int \<Rightarrow> (cg_call, cg_error) action" where
  "AttachProcess w basePath serviceName pid =
     (let procsPath = Join_path [basePath, serviceName, ''cgroup.procs'']
      in must w (CgWriteFile procsPath (show_int pid)) (CgAttachFailed pid procsPath))"

text \<open>The signal a child receives when the supervisor dies.\<close>

datatype death_signal = SIGKILL

definition SetupChildProcAttr :: death_signal where
  "SetupChildProcAttr = SIGKILL"

subsection \<open>Calls\<close>

definition limit_calls :: "float_ops \<Rightarrow> CGroupManager \<Rightarrow> ServiceSpec \<Rightarrow> cg_call list" where
  "limit_calls fl basePath spec =
     (let path = service_cgroup basePath (spec_Name spec)
      in [CgMkdirAll path 0x1ED] @
         (if 0 < spec_MemoryLimit spec
          then [CgWriteFile (Join_path [path, ''memory.max'']) (show_int (spec_MemoryLimit spec))] else []) @
         (if fl_positive fl (spec_CPUQuota spec)
          then [CgWriteFile (Join_path [path, ''cpu.max''])
                 (show_int (fl_quota_us fl (spec_CPUQuota spec)) @ '' '' @ show_int 100000)] else []))"

lemma CreateServiceCGroup_follows: "follows (CreateServiceCGroup fl w basePath spec) (limit_calls fl basePath spec)"
proof -
  let ?path = "service_cgroup basePath (spec_Name spec)"
  let ?m = "CgWriteFile (Join_path [?path, ''memory.max'']) (show_int (spec_MemoryLimit spec))"
  let ?c = "CgWriteFile (Join_path [?path, ''cpu.max''])
    (show_int (fl_quota_us fl (spec_CPUQuota spec)) @ '' '' @ show_int 100000)"
  have "follows (CreateServiceCGroup fl w basePath spec)
      (concat [[CgMkdirAll ?path 0x1ED], if 0 < spec_MemoryLimit spec then [?m] else [],
        if fl_positive fl (spec_CPUQuota spec) then [?c] else []])"
    unfolding CreateServiceCGroup_def Let_def
    by (rule follows_steps) (simp add: follows_must follows_attempt follows_when_act del: append.simps show_int_def)
  then show ?thesis unfolding limit_calls_def Let_def by simp
qed

end
