(* ===== verification/SvcSupervisor.thy ===== *)
theory SvcSupervisor
  imports SvcCgroup
begin

text \<open>
  \<open>internal/svcd/supervisor.go\<close>: a managed service, its start and stop operations and the
  goroutine that monitors its process and applies the restart policy.

  What the operating system answers while a service is started is the record \<open>start_env\<close>: which
  paths exist, whether the pipes can be made, and the result of starting a command (its pid). The
  cgroup file system is the environment \<open>w\<close> of theory \<open>SvcCgroup\<close>. Messages printed to the console
  and the log-streaming goroutines are left out. Durations are in seconds. The restart counter, an
  \<open>int\<close> that grows by one per process exit, is not wrapped at 2 to the 63.
\<close>

datatype ProcessState = StateStopped | StateStarting | StateRunning | StateStopping | StateTerminated

fun ProcessState_String :: "ProcessState \<Rightarrow> string" where
  "ProcessState_String StateStopped = ''STOPPED''"
| "ProcessState_String StateStarting = ''STARTING''"
| "ProcessState_String StateRunning = ''RUNNING''"
| "ProcessState_String StateStopping = ''STOPPING''"
| "ProcessState_String StateTerminated = ''TERMINATED''"

record exec_cmd =
  cmd_Path :: string
  cmd_Args :: "string list"
  cmd_Dir :: string
  cmd_Env :: "string list"
  cmd_Chroot :: string
  cmd_Pdeathsig :: death_signal

record ManagedService =
  ms_Spec :: ServiceSpec
  ms_State :: ProcessState
  ms_Cmd :: "(exec_cmd \<times> int) option"
  ms_CGroupMgr :: "CGroupManager option"
  ms_restartCount :: int
  ms_exitCodeRecorded :: bool
  ms_recordedExitCode :: int

datatype sup_error =
    AlreadyRunning string
  | ExecutableNotFound string
  | StdoutPipeFailed string string
  | StderrPipeFailed string string
  | StartFailed string string

definition RecordExitStatus :: "int \<Rightarrow> ManagedService \<Rightarrow> ManagedService" where
  "RecordExitStatus exitCode ms = ms\<lparr>ms_exitCodeRecorded := True, ms_recordedExitCode := exitCode\<rparr>"

definition NewManagedService :: "ServiceSpec \<Rightarrow> CGroupManager option \<Rightarrow> ManagedService" where
  "NewManagedService spec cgm =
     \<lparr>ms_Spec = spec, ms_State = StateStopped, ms_Cmd = None, ms_CGroupMgr = cgm, ms_restartCount = 0,
      ms_exitCodeRecorded = False, ms_recordedExitCode = 0\<rparr>"

subsection \<open>Starting\<close>

record start_env =
  se_stat :: "string \<Rightarrow> bool"
  se_lookpath :: "string \<Rightarrow> bool"
  se_stdout :: "string option"
  se_stderr :: "string option"
  se_start :: "exec_cmd \<Rightarrow> (string, int) result"

text \<open>The pre-flight check: the path to execute.\<close>

definition resolve_exec :: "start_env \<Rightarrow> ServiceSpec \<Rightarrow> (sup_error, string) result" where
  "resolve_exec env spec =
     (let execPath = spec_Exec spec;
          targetCheckPath = (if spec_RootDir spec \<noteq> [] then Join_path [spec_RootDir spec, execPath] else execPath)
      in if se_stat env targetCheckPath then Inr execPath
         else
           let buildFallback = Join_path [''build'', Base execPath]
           in if se_stat env buildFallback then Inr buildFallback
              else if se_lookpath env execPath then Inr execPath
              else Inl (ExecutableNotFound execPath))"

definition find_secd :: "start_env \<Rightarrow> string" where
  "find_secd env =
     (if se_stat env ''/sbin/karim-secd'' then ''/sbin/karim-secd''
      else if se_stat env ''build/karim-secd'' then ''build/karim-secd''
      else [])"

definition secd_args :: "ServiceSpec \<Rightarrow> string \<Rightarrow> string list" where
  "secd_args spec execPath =
     [''-profile'', spec_SeccompProfile spec, ''-exec'', execPath] @
     (if spec_CapabilitiesAdd spec \<noteq> [] then [''-caps-add'', Join_strings (spec_CapabilitiesAdd spec) '',''] else []) @
     (if spec_CapabilitiesDrop spec \<noteq> [] then [''-caps-drop'', Join_strings (spec_CapabilitiesDrop spec) '',''] else []) @
     (if \<not> spec_NoNewPrivs spec then [''-no-new-privs=false''] else []) @
     [''--''] @ spec_Args spec"

definition isolated :: "start_env \<Rightarrow> ServiceSpec \<Rightarrow> bool" where
  "isolated env spec \<longleftrightarrow> find_secd env \<noteq> [] \<and> spec_SeccompProfile spec \<noteq> ''unrestricted'' \<and>
     spec_SeccompProfile spec \<noteq> ''none'' \<and> spec_SeccompProfile spec \<noteq> ''disabled''"

definition default_env :: "string list" where
  "default_env =
     [''PATH=/usr/local/sbin:/usr/local/bin:/usr/sbin:/usr/bin:/sbin:/bin'',
      ''LD_LIBRARY_PATH=/lib:/usr/lib:/usr/local/lib:/lib64:/usr/lib64:/usr/local/lib64'',
      ''HOME=/root'', ''TMPDIR=/tmp'']"

definition service_cmd :: "start_env \<Rightarrow> ServiceSpec \<Rightarrow> string \<Rightarrow> exec_cmd" where
  "service_cmd env spec execPath =
     \<lparr>cmd_Path = (if isolated env spec then find_secd env else execPath),
      cmd_Args = (if isolated env spec then secd_args spec execPath else spec_Args spec),
      cmd_Dir = (if spec_Directory spec \<noteq> [] then spec_Directory spec
                 else if spec_RootDir spec \<noteq> [] then ''/'' else []),
      cmd_Env = default_env @ spec_Env spec,
      cmd_Chroot = spec_RootDir spec,
      cmd_Pdeathsig = SetupChildProcAttr\<rparr>"

text \<open>The cgroup calls after a successful start.\<close>

definition attach_cgroup :: "float_ops \<Rightarrow> cg_call world \<Rightarrow> ManagedService \<Rightarrow> int \<Rightarrow> cg_call list \<Rightarrow> cg_call list" where
  "attach_cgroup fl w ms pid tr =
     (case ms_CGroupMgr ms of
        None \<Rightarrow> tr
      | Some basePath \<Rightarrow>
          (case CreateServiceCGroup fl w basePath (ms_Spec ms) tr of
             (Some e, tr1) \<Rightarrow> tr1
           | (None, tr1) \<Rightarrow> snd (AttachProcess w basePath (spec_Name (ms_Spec ms)) pid tr1)))"

definition Start ::
  "float_ops \<Rightarrow> cg_call world \<Rightarrow> start_env \<Rightarrow> ManagedService \<Rightarrow> cg_call list \<Rightarrow>
     (sup_error option \<times> ManagedService) \<times> cg_call list"
where
  "Start fl w env ms tr =
     (if ms_State ms = StateRunning then ((Some (AlreadyRunning (spec_Name (ms_Spec ms))), ms), tr)
      else
        let ms1 = ms\<lparr>ms_exitCodeRecorded := False, ms_recordedExitCode := 0, ms_State := StateStarting\<rparr>;
            stopped = ms1\<lparr>ms_State := StateStopped\<rparr>;
            name = spec_Name (ms_Spec ms)
        in case resolve_exec env (ms_Spec ms) of
             Inl e \<Rightarrow> ((Some e, stopped), tr)
           | Inr execPath \<Rightarrow>
               (let cmd = service_cmd env (ms_Spec ms) execPath
                in case se_stdout env of
                     Some e \<Rightarrow> ((Some (StdoutPipeFailed name e), stopped), tr)
                   | None \<Rightarrow>
                       (case se_stderr env of
                          Some e \<Rightarrow> ((Some (StderrPipeFailed name e), stopped), tr)
                        | None \<Rightarrow>
                            (case se_start env cmd of
                               Inl e \<Rightarrow> ((Some (StartFailed name e), stopped), tr)
                             | Inr pid \<Rightarrow>
                                 ((None, ms1\<lparr>ms_Cmd := Some (cmd, pid), ms_State := StateRunning\<rparr>),
                                  attach_cgroup fl w ms pid tr)))))"

subsection \<open>Stopping\<close>

text \<open>Signals sent; \<open>fails\<close> says whether sending the first one fails.\<close>

datatype proc_signal = SendInterrupt int | SendKill int

definition Stop :: "(int \<Rightarrow> bool) \<Rightarrow> ManagedService \<Rightarrow> ManagedService \<times> proc_signal list" where
  "Stop fails ms =
     (case ms_Cmd ms of
        None \<Rightarrow> (ms, [])
      | Some (cmd, pid) \<Rightarrow>
          if ms_State ms \<noteq> StateRunning then (ms, [])
          else (ms\<lparr>ms_State := StateStopping\<rparr>,
                if fails pid then [SendInterrupt pid, SendKill pid] else [SendInterrupt pid]))"

subsection \<open>Monitoring\<close>

datatype wait_result = WaitOK | WaitExitError int | WaitError string

definition monitor_exit_code :: "ManagedService \<Rightarrow> wait_result \<Rightarrow> int" where
  "monitor_exit_code ms r =
     (if ms_exitCodeRecorded ms then ms_recordedExitCode ms
      else (case r of
              WaitOK \<Rightarrow> 0
            | WaitExitError c \<Rightarrow> c
            | WaitError e \<Rightarrow> if Contains e ''no child processes'' then 0 else 1))"

text \<open>The first critical section of \<open>monitor\<close>.\<close>

definition monitor_exited :: "wait_result \<Rightarrow> ManagedService \<Rightarrow> ManagedService \<times> int" where
  "monitor_exited r ms = (ms\<lparr>ms_State := StateTerminated\<rparr>, monitor_exit_code ms r)"

definition should_restart :: "ServiceSpec \<Rightarrow> int \<Rightarrow> bool" where
  "should_restart spec exitCode \<longleftrightarrow>
     spec_Restart spec = ''always'' \<or> spec_Restart spec = ''on-failure'' \<and> exitCode \<noteq> 0"

definition min_int :: "int \<Rightarrow> int \<Rightarrow> int" where
  "min_int a b = (if a < b then a else b)"

text \<open>\<open>1 << min(count-1, 5)\<close> seconds, capped; the counter is at least 1 here.\<close>

definition backoff :: "int \<Rightarrow> int" where
  "backoff count = (let b = 2 ^ nat (min_int (count - 1) 5) in if 30 < b then 30 else b)"

datatype monitor_next = NoRestart | RestartsExceeded int | RestartAfter int

text \<open>The decision after the exit, with the second critical section.\<close>

definition monitor_decide :: "int \<Rightarrow> ManagedService \<Rightarrow> ManagedService \<times> monitor_next" where
  "monitor_decide exitCode ms =
     (if \<not> should_restart (ms_Spec ms) exitCode then (ms, NoRestart)
      else
        let count = ms_restartCount ms + 1;
            ms1 = ms\<lparr>ms_restartCount := count\<rparr>;
            maxRestarts = spec_MaxRestarts (ms_Spec ms)
        in if 0 < maxRestarts \<and> maxRestarts < count then (ms1, RestartsExceeded count)
           else (ms1, RestartAfter (backoff count)))"

definition maxRestartsLabel :: "int \<Rightarrow> string" where
  "maxRestartsLabel m = (if m = 0 then [CHR 0xE2, CHR 0x88, CHR 0x9E] else show_int m)"

declare RecordExitStatus_def [go_eval] NewManagedService_def [go_eval] resolve_exec_def [go_eval] find_secd_def [go_eval]
  secd_args_def [go_eval] isolated_def [go_eval] default_env_def [go_eval] service_cmd_def [go_eval]
  attach_cgroup_def [go_eval] Start_def [go_eval] Stop_def [go_eval] monitor_exit_code_def [go_eval]
  monitor_exited_def [go_eval] should_restart_def [go_eval] min_int_def [go_eval] backoff_def [go_eval]
  monitor_decide_def [go_eval] maxRestartsLabel_def [go_eval]

subsection \<open>The service as a transition system\<close>

text \<open>
  The service object with its goroutines: the pids whose exit a monitor waits for, the exit codes
  of monitors between their two critical sections, the monitors asleep before a restart, and how
  many restarts monitors have performed. Each rule is one critical section, so the relation
  contains every interleaving of requests, exits and monitors.
\<close>

record service_sys =
  sys_ms :: ManagedService
  sys_waiting :: "int list"
  sys_deciding :: "int list"
  sys_sleeping :: "int list"
  sys_restarts :: nat

definition sys_init :: "ServiceSpec \<Rightarrow> CGroupManager option \<Rightarrow> service_sys" where
  "sys_init spec cgm =
     \<lparr>sys_ms = NewManagedService spec cgm, sys_waiting = [], sys_deciding = [], sys_sleeping = [], sys_restarts = 0\<rparr>"

text \<open>What a call of \<open>Start\<close> does to the system: on success a new monitor waits for the new pid.\<close>

definition sys_start :: "float_ops \<Rightarrow> cg_call world \<Rightarrow> start_env \<Rightarrow> service_sys \<Rightarrow> service_sys" where
  "sys_start fl w env s =
     (case Start fl w env (sys_ms s) [] of
        ((Some e, ms'), tr) \<Rightarrow> s\<lparr>sys_ms := ms'\<rparr>
      | ((None, ms'), tr) \<Rightarrow>
          s\<lparr>sys_ms := ms',
            sys_waiting := (case ms_Cmd ms' of Some (cmd, pid) \<Rightarrow> pid # sys_waiting s | None \<Rightarrow> sys_waiting s)\<rparr>)"

inductive sys_step :: "float_ops \<Rightarrow> service_sys \<Rightarrow> service_sys \<Rightarrow> bool" for fl :: float_ops where
  start_request: "sys_step fl s (sys_start fl w env s)"
| stop_request: "sys_step fl s (s\<lparr>sys_ms := fst (Stop fails (sys_ms s))\<rparr>)"
| exit_recorded: "sys_step fl s (s\<lparr>sys_ms := RecordExitStatus code (sys_ms s)\<rparr>)"
| process_exited: "pid \<in> set (sys_waiting s) \<Longrightarrow> monitor_exited r (sys_ms s) = (ms', code) \<Longrightarrow>
    sys_step fl s (s\<lparr>sys_ms := ms', sys_waiting := remove1 pid (sys_waiting s), sys_deciding := code # sys_deciding s\<rparr>)"
| decided_no: "code \<in> set (sys_deciding s) \<Longrightarrow> monitor_decide code (sys_ms s) = (ms', next) \<Longrightarrow>
    \<forall>b. next \<noteq> RestartAfter b \<Longrightarrow>
    sys_step fl s (s\<lparr>sys_ms := ms', sys_deciding := remove1 code (sys_deciding s)\<rparr>)"
| decided_restart: "code \<in> set (sys_deciding s) \<Longrightarrow> monitor_decide code (sys_ms s) = (ms', RestartAfter b) \<Longrightarrow>
    sys_step fl s (s\<lparr>sys_ms := ms', sys_deciding := remove1 code (sys_deciding s), sys_sleeping := b # sys_sleeping s\<rparr>)"
| woke_up: "b \<in> set (sys_sleeping s) \<Longrightarrow>
    sys_step fl s ((sys_start fl w env s)\<lparr>sys_sleeping := remove1 b (sys_sleeping s), sys_restarts := Suc (sys_restarts s)\<rparr>)"

inductive_cases sys_stepE: "sys_step fl s t"

definition reachable_sys :: "float_ops \<Rightarrow> ServiceSpec \<Rightarrow> CGroupManager option \<Rightarrow> service_sys \<Rightarrow> bool" where
  "reachable_sys fl spec cgm s \<longleftrightarrow> (sys_step fl)\<^sup>*\<^sup>* (sys_init spec cgm) s"

lemma reachable_induct [consumes 1, case_names init step]:
  assumes "reachable_sys fl spec cgm s" and "P (sys_init spec cgm)"
    and "\<And>s t. reachable_sys fl spec cgm s \<Longrightarrow> P s \<Longrightarrow> sys_step fl s t \<Longrightarrow> P t"
  shows "P s"
  using assms(1) unfolding reachable_sys_def
  by (induction rule: rtranclp_induct) (auto intro: assms(2) assms(3) [unfolded reachable_sys_def])

subsection \<open>One operation at a time\<close>

lemma Start_cases:
  obtains (running) "ms_State ms = StateRunning"
      "Start fl w env ms tr = ((Some (AlreadyRunning (spec_Name (ms_Spec ms))), ms), tr)"
    | (failed) e where "ms_State ms \<noteq> StateRunning"
      "Start fl w env ms tr = ((Some e, ms\<lparr>ms_exitCodeRecorded := False, ms_recordedExitCode := 0, ms_State := StateStopped\<rparr>), tr)"
    | (started) execPath pid where "ms_State ms \<noteq> StateRunning" "resolve_exec env (ms_Spec ms) = Inr execPath"
      "se_start env (service_cmd env (ms_Spec ms) execPath) = Inr pid"
      "Start fl w env ms tr = ((None, ms\<lparr>ms_exitCodeRecorded := False, ms_recordedExitCode := 0,
          ms_Cmd := Some (service_cmd env (ms_Spec ms) execPath, pid), ms_State := StateRunning\<rparr>), attach_cgroup fl w ms pid tr)"
proof (cases "ms_State ms = StateRunning")
  case True
  then show ?thesis by (intro running) (simp_all add: Start_def)
next
  case False
  show ?thesis
  proof (cases "resolve_exec env (ms_Spec ms)")
    case (Inl e)
    with False show ?thesis by (intro failed [of e]) (simp_all add: Start_def)
  next
    case (Inr execPath)
    consider (o) e where "se_stdout env = Some e" | (r) e where "se_stdout env = None" "se_stderr env = Some e"
      | (s) e where "se_stdout env = None" "se_stderr env = None" "se_start env (service_cmd env (ms_Spec ms) execPath) = Inl e"
      | (p) pid where "se_stdout env = None" "se_stderr env = None" "se_start env (service_cmd env (ms_Spec ms) execPath) = Inr pid"
      by (meson not_Some_eq old.sum.exhaust)
    then show ?thesis
    proof cases
      case o
      with False Inr show ?thesis by (intro failed) (simp_all add: Start_def)
    next
      case r
      with False Inr show ?thesis by (intro failed) (simp_all add: Start_def)
    next
      case s
      with False Inr show ?thesis by (intro failed) (simp_all add: Start_def)
    next
      case p
      with False Inr show ?thesis by (intro started) (simp_all add: Start_def)
    qed
  qed
qed

lemma Start_spec [simp]: "ms_Spec (snd (fst (Start fl w env ms tr))) = ms_Spec ms"
  by (cases rule: Start_cases [of ms fl w env tr]) simp_all

lemma Start_restartCount [simp]: "ms_restartCount (snd (fst (Start fl w env ms tr))) = ms_restartCount ms"
  by (cases rule: Start_cases [of ms fl w env tr]) simp_all

lemma Stop_frame [simp]:
  "ms_Spec (fst (Stop fails ms)) = ms_Spec ms" "ms_restartCount (fst (Stop fails ms)) = ms_restartCount ms"
  "ms_Cmd (fst (Stop fails ms)) = ms_Cmd ms"
  by (auto simp: Stop_def split: option.splits)

lemma sys_start_ms: "sys_ms (sys_start fl w env s) = snd (fst (Start fl w env (sys_ms s) []))"
  by (auto simp: sys_start_def split: prod.splits option.splits)

lemma sys_start_frame [simp]:
  "sys_sleeping (sys_start fl w env s) = sys_sleeping s" "sys_restarts (sys_start fl w env s) = sys_restarts s"
  "sys_deciding (sys_start fl w env s) = sys_deciding s"
  "ms_Spec (sys_ms (sys_start fl w env s)) = ms_Spec (sys_ms s)"
  "ms_restartCount (sys_ms (sys_start fl w env s)) = ms_restartCount (sys_ms s)"
  by (simp_all add: sys_start_ms) (auto simp: sys_start_def split: prod.splits option.splits)

lemma monitor_decide_cases:
  obtains (no) "monitor_decide code ms = (ms, NoRestart)" "\<not> should_restart (ms_Spec ms) code"
    | (exceeded) "monitor_decide code ms = (ms\<lparr>ms_restartCount := ms_restartCount ms + 1\<rparr>, RestartsExceeded (ms_restartCount ms + 1))"
        "should_restart (ms_Spec ms) code" "0 < spec_MaxRestarts (ms_Spec ms)" "spec_MaxRestarts (ms_Spec ms) < ms_restartCount ms + 1"
    | (again) "monitor_decide code ms = (ms\<lparr>ms_restartCount := ms_restartCount ms + 1\<rparr>, RestartAfter (backoff (ms_restartCount ms + 1)))"
        "should_restart (ms_Spec ms) code" "spec_MaxRestarts (ms_Spec ms) \<le> 0 \<or> ms_restartCount ms + 1 \<le> spec_MaxRestarts (ms_Spec ms)"
proof (cases "should_restart (ms_Spec ms) code")
  case False
  then show ?thesis by (intro no) (simp_all add: monitor_decide_def)
next
  case True
  show ?thesis
  proof (cases "0 < spec_MaxRestarts (ms_Spec ms) \<and> spec_MaxRestarts (ms_Spec ms) < ms_restartCount ms + 1")
    case bound: True
    with True show ?thesis by (intro exceeded) (simp_all add: monitor_decide_def Let_def)
  next
    case bound: False
    with True show ?thesis by (intro again) (auto simp: monitor_decide_def Let_def)
  qed
qed

lemma monitor_decide_spec: "monitor_decide code ms = (ms', n) \<Longrightarrow> ms_Spec ms' = ms_Spec ms"
  by (cases rule: monitor_decide_cases [of code ms]) auto

subsection \<open>Invariants\<close>

text \<open>What every reachable state satisfies.\<close>

definition sys_inv :: "ServiceSpec \<Rightarrow> service_sys \<Rightarrow> bool" where
  "sys_inv spec s \<longleftrightarrow>
     ms_Spec (sys_ms s) = spec \<and>
     (ms_State (sys_ms s) = StateRunning \<longrightarrow> ms_Cmd (sys_ms s) \<noteq> None) \<and>
     0 \<le> ms_restartCount (sys_ms s) \<and>
     int (sys_restarts s + length (sys_sleeping s)) \<le> ms_restartCount (sys_ms s) \<and>
     (0 < spec_MaxRestarts spec \<longrightarrow> int (sys_restarts s + length (sys_sleeping s)) \<le> spec_MaxRestarts spec) \<and>
     (\<forall>b \<in> set (sys_sleeping s). 1 \<le> b \<and> b \<le> 30)"

lemma backoff_range: "1 \<le> backoff n \<and> backoff n \<le> 30"
  by (simp add: backoff_def Let_def)

lemma Start_running_cmd:
  "ms_State ms = StateRunning \<longrightarrow> ms_Cmd ms \<noteq> None \<Longrightarrow>
   ms_State (snd (fst (Start fl w env ms tr))) = StateRunning \<longrightarrow> ms_Cmd (snd (fst (Start fl w env ms tr))) \<noteq> None"
  by (cases rule: Start_cases [of ms fl w env tr]) simp_all

lemma sys_inv_step:
  assumes "sys_inv spec s" and "sys_step fl s t"
  shows "sys_inv spec t"
  using assms(2)
proof (cases rule: sys_step.cases)
  case (start_request w env)
  with assms(1) Start_running_cmd [of "sys_ms s" fl w env "[]"] show ?thesis
    by (auto simp: sys_inv_def sys_start_ms)
next
  case (stop_request fails)
  with assms(1) show ?thesis by (auto simp: sys_inv_def) (auto simp: Stop_def split: option.splits if_splits)
next
  case (exit_recorded code)
  with assms(1) show ?thesis by (auto simp: sys_inv_def RecordExitStatus_def)
next
  case (process_exited pid r ms' code)
  with assms(1) show ?thesis by (auto simp: sys_inv_def monitor_exited_def)
next
  case (decided_no code ms' n)
  with assms(1) show ?thesis
    by (cases rule: monitor_decide_cases [of code "sys_ms s"]) (auto simp: sys_inv_def)
next
  case (decided_restart code ms' b)
  with assms(1) backoff_range show ?thesis
    by (cases rule: monitor_decide_cases [of code "sys_ms s"]) (auto simp: sys_inv_def)
next
  case (woke_up b w env)
  have "length (remove1 b (sys_sleeping s)) = length (sys_sleeping s) - 1" "0 < length (sys_sleeping s)"
    using woke_up(2) by (auto simp: length_remove1)
  then have len: "Suc (sys_restarts s) + length (remove1 b (sys_sleeping s)) = sys_restarts s + length (sys_sleeping s)"
    by simp
  have "\<forall>x \<in> set (remove1 b (sys_sleeping s)). 1 \<le> x \<and> x \<le> 30"
    using assms(1) by (auto simp: sys_inv_def dest: notin_set_remove1 set_remove1_subset [THEN subsetD])
  with woke_up(1) assms(1) Start_running_cmd [of "sys_ms s" fl w env "[]"] show ?thesis
    unfolding sys_inv_def by (simp add: sys_start_ms len del: add_Suc)
qed

lemma sys_inv_reachable: "reachable_sys fl spec cgm s \<Longrightarrow> sys_inv spec s"
proof (induction rule: reachable_induct)
  case init
  show ?case by (simp add: sys_inv_def sys_init_def NewManagedService_def)
next
  case (step s t)
  then show ?case using sys_inv_step by blast
qed

text \<open>Without a restart policy no monitor ever sleeps.\<close>

lemma no_policy_reachable:
  assumes "spec_Restart spec \<noteq> ''always''" and "spec_Restart spec \<noteq> ''on-failure''"
    and "reachable_sys fl spec cgm s"
  shows "sys_sleeping s = [] \<and> sys_restarts s = 0"
  using assms(3)
proof (induction rule: reachable_induct)
  case init
  show ?case by (simp add: sys_init_def)
next
  case (step s t)
  have spec: "ms_Spec (sys_ms s) = spec" using sys_inv_reachable [OF step(1)] by (simp add: sys_inv_def)
  have "\<not> should_restart (ms_Spec (sys_ms s)) code" for code
    using assms(1,2) by (simp add: should_restart_def spec)
  then have "monitor_decide code (sys_ms s) = (sys_ms s, NoRestart)" for code
    by (simp add: monitor_decide_def)
  with step(2,3) show ?case by (auto elim!: sys_stepE)
qed

subsection \<open>Properties of the supervisor\<close>


text \<open>The delays before successive restarts are 1, 2, 4, 8 and 16 seconds, and 30 seconds from
  the sixth on.\<close>

theorem backoff_schedule:
  assumes "1 \<le> count"
  shows "backoff count = (if count \<le> 5 then 2 ^ nat (count - 1) else 30)"
proof (cases "count \<le> 5")
  case True
  then have "count \<in> {1, 2, 3, 4, 5}" using assms by auto
  then show ?thesis by (auto simp: backoff_def min_int_def)
next
  case False
  then show ?thesis by (simp add: backoff_def min_int_def)
qed

theorem backoff_schedule_witness: "map backoff [1, 2, 3, 4, 5, 6, 100] = [1, 2, 4, 8, 16, 30, 30]"
  using backoff_schedule [of 1] backoff_schedule [of 2] backoff_schedule [of 3] backoff_schedule [of 4]
    backoff_schedule [of 5] backoff_schedule [of 6] backoff_schedule [of 100]
  by simp

text \<open>Starting a service is all or nothing. A running service refuses to start and is left
  unchanged; any failure leaves the service stopped with its exit record cleared and no cgroup
  touched; on success it is running with the command built from its specification, and the cgroup
  calls are the creation of its group with its limits followed, when the group could be made, by
  moving the new pid into it.\<close>

theorem start_all_or_nothing:
  "(ms_State ms = StateRunning \<and>
      Start fl w env ms tr = ((Some (AlreadyRunning (spec_Name (ms_Spec ms))), ms), tr)) \<or>
   (ms_State ms \<noteq> StateRunning \<and> (\<exists>e. Start fl w env ms tr =
      ((Some e, ms\<lparr>ms_exitCodeRecorded := False, ms_recordedExitCode := 0, ms_State := StateStopped\<rparr>), tr))) \<or>
   (\<exists>execPath pid ds. ms_State ms \<noteq> StateRunning \<and> resolve_exec env (ms_Spec ms) = Inr execPath \<and>
      se_start env (service_cmd env (ms_Spec ms) execPath) = Inr pid \<and>
      Start fl w env ms tr = ((None, ms\<lparr>ms_exitCodeRecorded := False, ms_recordedExitCode := 0,
        ms_Cmd := Some (service_cmd env (ms_Spec ms) execPath, pid), ms_State := StateRunning\<rparr>), tr @ ds) \<and>
      (case ms_CGroupMgr ms of
         None \<Rightarrow> ds = []
       | Some base \<Rightarrow> prefix ds (limit_calls fl base (ms_Spec ms)) \<or>
           ds = limit_calls fl base (ms_Spec ms) @
             [CgWriteFile (Join_path [base, spec_Name (ms_Spec ms), ''cgroup.procs'']) (show_int pid)]))"
proof (cases rule: Start_cases [of ms fl w env tr])
  case running
  then show ?thesis by blast
next
  case (failed e)
  then show ?thesis by blast
next
  case (started execPath pid)
  obtain ds where "attach_cgroup fl w ms pid tr = tr @ ds \<and>
    (case ms_CGroupMgr ms of
       None \<Rightarrow> ds = []
     | Some base \<Rightarrow> prefix ds (limit_calls fl base (ms_Spec ms)) \<or>
         ds = limit_calls fl base (ms_Spec ms) @
           [CgWriteFile (Join_path [base, spec_Name (ms_Spec ms), ''cgroup.procs'']) (show_int pid)])"
  proof (cases "ms_CGroupMgr ms")
    case None
    then show ?thesis by (intro that [of "[]"]) (simp add: attach_cgroup_def)
  next
    case (Some base)
    obtain r tr1 where r: "CreateServiceCGroup fl w base (ms_Spec ms) tr = (r, tr1)" by force
    show ?thesis
    proof (cases r)
      case None
      then have "tr1 = tr @ limit_calls fl base (ms_Spec ms)"
        using followsD [OF CreateServiceCGroup_follows] r by auto
      with Some None r show ?thesis
        by (intro that [of "limit_calls fl base (ms_Spec ms) @
            [CgWriteFile (Join_path [base, spec_Name (ms_Spec ms), ''cgroup.procs'']) (show_int pid)]"])
          (simp add: attach_cgroup_def AttachProcess_def must_def Let_def)
    next
      case e: (Some e)
      obtain ds where "tr1 = tr @ ds" "prefix ds (limit_calls fl base (ms_Spec ms))"
        using followsD_prefix [OF CreateServiceCGroup_follows r] by blast
      with Some e r show ?thesis by (intro that [of ds]) (simp add: attach_cgroup_def)
    qed
  qed
  with started show ?thesis
    by (intro disjI2 exI [of _ execPath] exI [of _ pid] exI [of _ ds]) simp
qed

text \<open>C34: stopping does not last under the policy \<open>always\<close>. From any state in which such a service
  runs and no other monitor is active, there is an execution that begins with a stop request,
  contains no start request, and ends with the service running again in a new process.\<close>

theorem stop_is_undone:
  assumes "ms_State (sys_ms s) = StateRunning" and "ms_Cmd (sys_ms s) = Some (cmd, pid)"
    and "spec_Restart (ms_Spec (sys_ms s)) = ''always''" and "spec_MaxRestarts (ms_Spec (sys_ms s)) = 0"
    and "sys_waiting s = [pid]" and "sys_deciding s = []" and "sys_sleeping s = []"
    and "resolve_exec env (ms_Spec (sys_ms s)) = Inr p" and "se_stdout env = None" and "se_stderr env = None"
    and "se_start env (service_cmd env (ms_Spec (sys_ms s)) p) = Inr pid'"
  shows "\<exists>s1 s2 s3 s4. s1 = s\<lparr>sys_ms := fst (Stop (\<lambda>_. False) (sys_ms s))\<rparr> \<and>
    ms_State (sys_ms s1) = StateStopping \<and> sys_step fl s s1 \<and> sys_step fl s1 s2 \<and> sys_step fl s2 s3 \<and> sys_step fl s3 s4 \<and>
    ms_State (sys_ms s4) = StateRunning \<and> ms_Cmd (sys_ms s4) = Some (service_cmd env (ms_Spec (sys_ms s)) p, pid') \<and>
    sys_restarts s4 = Suc (sys_restarts s)"
proof -
  let ?ms = "sys_ms s"
  let ?s1 = "s\<lparr>sys_ms := ?ms\<lparr>ms_State := StateStopping\<rparr>\<rparr>"
  let ?s2 = "s\<lparr>sys_ms := ?ms\<lparr>ms_State := StateTerminated\<rparr>, sys_waiting := [], sys_deciding := [monitor_exit_code ?ms WaitOK]\<rparr>"
  let ?b = "backoff (ms_restartCount ?ms + 1)"
  let ?ms3 = "?ms\<lparr>ms_State := StateTerminated, ms_restartCount := ms_restartCount ?ms + 1\<rparr>"
  let ?s3 = "s\<lparr>sys_waiting := [], sys_ms := ?ms3, sys_deciding := [], sys_sleeping := [?b]\<rparr>"
  let ?s4 = "(sys_start fl all_ok env ?s3)\<lparr>sys_sleeping := [], sys_restarts := Suc (sys_restarts s)\<rparr>"
  have s1: "s\<lparr>sys_ms := fst (Stop (\<lambda>_. False) ?ms)\<rparr> = ?s1"
    using assms(1,2) by (simp add: Stop_def)
  have "sys_step fl s ?s1" using stop_request [of fl s "\<lambda>_. False"] by (simp add: s1)
  moreover have "sys_step fl ?s1 ?s2"
    using process_exited [of pid ?s1 WaitOK "?ms\<lparr>ms_State := StateTerminated\<rparr>" "monitor_exit_code ?ms WaitOK" fl] assms(5,6)
    by (simp add: monitor_exited_def monitor_exit_code_def)
  moreover have "sys_step fl ?s2 ?s3"
    using decided_restart [of "monitor_exit_code ?ms WaitOK" ?s2 ?ms3 ?b fl] assms(3,4,7)
    by (simp add: monitor_decide_def should_restart_def Let_def)
  moreover have "sys_step fl ?s3 ?s4"
    using woke_up [of ?b ?s3 fl all_ok env] by simp
  moreover have "ms_State (sys_ms ?s4) = StateRunning \<and> ms_Cmd (sys_ms ?s4) = Some (service_cmd env (ms_Spec ?ms) p, pid')"
    using assms(8-11) by (simp add: sys_start_ms Start_def)
  moreover have "ms_State (sys_ms ?s1) = StateStopping" "sys_restarts ?s4 = Suc (sys_restarts s)" by simp_all
  ultimately show ?thesis unfolding s1 by blast
qed

definition example_env :: "int \<Rightarrow> start_env" where
  "example_env pid = \<lparr>se_stat = (\<lambda>p. True), se_lookpath = (\<lambda>p. True), se_stdout = None, se_stderr = None,
     se_start = (\<lambda>c. Inr pid)\<rparr>"

definition example_spec :: ServiceSpec where
  "example_spec = default_spec\<lparr>spec_Name := ''web'', spec_Exec := ''/bin/httpd'', spec_Restart := ''always''\<rparr>"

definition no_floats :: float_ops where
  "no_floats = \<lparr>fl_positive = (\<lambda>q. False), fl_quota_us = (\<lambda>q. 0)\<rparr>"

definition example_started :: service_sys where
  "example_started = sys_start no_floats all_ok (example_env 41) (sys_init example_spec None)"

lemma example_started_facts:
  "ms_State (sys_ms example_started) = StateRunning"
  "ms_Cmd (sys_ms example_started) = Some (service_cmd (example_env 41) example_spec ''/bin/httpd'', 41)"
  "ms_Spec (sys_ms example_started) = example_spec"
  "sys_waiting example_started = [41]" "sys_deciding example_started = []" "sys_sleeping example_started = []"
  "sys_restarts example_started = 0"
  by (simp_all add: example_started_def sys_start_def sys_init_def NewManagedService_def Start_def resolve_exec_def
      example_env_def example_spec_def default_spec_def attach_cgroup_def)


theorem stop_is_undone_witness:
  "\<exists>s4. (sys_step no_floats)\<^sup>*\<^sup>* (example_started\<lparr>sys_ms := fst (Stop (\<lambda>_. False) (sys_ms example_started))\<rparr>) s4 \<and>
     ms_State (sys_ms s4) = StateRunning \<and> sys_restarts s4 = 1"
proof -
  have spec: "spec_Restart example_spec = ''always''" "spec_MaxRestarts example_spec = 0"
    by (simp_all add: example_spec_def default_spec_def)
  have env: "resolve_exec (example_env 42) example_spec = Inr ''/bin/httpd''" "se_stdout (example_env 42) = None"
    "se_stderr (example_env 42) = None" "se_start (example_env 42) c = Inr 42" for c
    by (simp_all add: resolve_exec_def example_env_def example_spec_def default_spec_def)
  obtain s1 s2 s3 s4 where "s1 = example_started\<lparr>sys_ms := fst (Stop (\<lambda>_. False) (sys_ms example_started))\<rparr>"
    "sys_step no_floats s1 s2" "sys_step no_floats s2 s3" "sys_step no_floats s3 s4"
    "ms_State (sys_ms s4) = StateRunning" "sys_restarts s4 = Suc (sys_restarts example_started)"
    using stop_is_undone [of example_started _ 41 "example_env 42" "''/bin/httpd''" 42 no_floats]
    by (auto simp: example_started_facts spec env)
  then show ?thesis
    by (intro exI [of _ s4]) (auto simp: example_started_facts intro: converse_rtranclp_into_rtranclp)
qed

end
