(* ===== verification/Stored.thy ===== *)
theory Stored
  imports GoPath GoEffects
begin

text \<open>
  \<open>internal/stored/stored.go\<close>: overlay and squashfs mounts. The calls that change the system are
  the values of \<open>st_call\<close>, answered by the environment \<open>w\<close>; what the code only reads is the record
  \<open>st_view\<close>: the contents of \<open>/proc/mounts\<close>, device numbers, which paths exist, the effective user
  and the temporary directory. A directory tree below the lower directory is a value of
  \<open>dir_tree\<close>, the listing \<open>os.ReadDir\<close> gives at each level.
\<close>

record OverlayConfig =
  ov_LowerDir :: string
  ov_UpperDir :: string
  ov_WorkDir :: string
  ov_TargetDir :: string

datatype st_call =
    StMkdirAll string nat
  | StMountOverlay string string
  | StMountSquash string string
  | StMountTmpfs string
  | StSymlink string string
  | StUnmount string
  | StOpenFile string nat
  | StCopy string bytes

datatype lstat_result = LNotExist | LError | LDir | LOther

record st_view =
  sv_mounts :: "(string, bytes) result"
  sv_device :: "string \<Rightarrow> (string, int) result"
  sv_exists :: "string \<Rightarrow> bool"
  sv_lstat :: "string \<Rightarrow> lstat_result"
  sv_eval_symlinks :: "string \<Rightarrow> (string, string) result"
  sv_euid :: int
  sv_tmpdir :: string

datatype st_error =
    UpperDirFailed string string
  | WorkDirFailed string string
  | InvalidOverlayConfig OverlayConfig
  | TargetDirFailed string string
  | MountOverlayFailed string string
  | LowerDirFailed string string
  | NoSquashMounted string string
  | NoSquashDevice string
  | ReadLowerFailed string string
  | BaseDirFailed string string
  | UnmountFailed string string
  | EmptyContainerID
  | EmptyLowerDirs
  | OverlayDirsFailed string st_error
  | ContainerTargetFailed string string
  | DynamicMountFailed string st_error

text \<open>The messages of the errors.\<close>

fun st_error_text :: "st_error \<Rightarrow> string" where
  "st_error_text (UpperDirFailed p e) = ''failed to create overlay upperdir '' @ p @ '': '' @ e"
| "st_error_text (WorkDirFailed p e) = ''failed to create overlay workdir '' @ p @ '': '' @ e"
| "st_error_text (InvalidOverlayConfig c) =
     ''invalid OverlayConfig: all directory paths must be specified ({LowerDir:'' @ ov_LowerDir c @ '' UpperDir:'' @
     ov_UpperDir c @ '' WorkDir:'' @ ov_WorkDir c @ '' TargetDir:'' @ ov_TargetDir c @ ''})''"
| "st_error_text (TargetDirFailed p e) = ''failed to create target mount dir '' @ p @ '': '' @ e"
| "st_error_text (MountOverlayFailed p e) = ''mount overlay failed on '' @ p @ '': '' @ e"
| "st_error_text (LowerDirFailed p e) = ''failed creating lowerdir '' @ p @ '': '' @ e"
| "st_error_text (NoSquashMounted p e) = ''could not mount any SquashFS device on '' @ p @ '': '' @ e"
| "st_error_text (NoSquashDevice p) = ''no suitable SquashFS block device found for '' @ p"
| "st_error_text (ReadLowerFailed p e) = ''failed reading lowerdir '' @ p @ '': '' @ e"
| "st_error_text (BaseDirFailed p e) = ''failed to create base overlay dir '' @ p @ '': '' @ e"
| "st_error_text (UnmountFailed p e) = ''failed to unmount '' @ p @ '': '' @ e"
| "st_error_text EmptyContainerID = ''containerID cannot be empty''"
| "st_error_text EmptyLowerDirs = ''lowerDirs cannot be empty''"
| "st_error_text (OverlayDirsFailed i e) = ''failed preparing overlay dirs for container '' @ i @ '': '' @ st_error_text e"
| "st_error_text (ContainerTargetFailed p e) = ''failed creating target dir '' @ p @ '': '' @ e"
| "st_error_text (DynamicMountFailed p e) = ''failed mounting dynamic overlay on '' @ p @ '': '' @ st_error_text e"

definition BuildOverlayOptions :: "string \<Rightarrow> string \<Rightarrow> string \<Rightarrow> string" where
  "BuildOverlayOptions lowerDir upperDir workDir =
     ''lowerdir='' @ lowerDir @ '',upperdir='' @ upperDir @ '',workdir='' @ workDir"

definition upper_of :: "string \<Rightarrow> string" where
  "upper_of base = Join_path [base, ''upper'']"

definition work_of :: "string \<Rightarrow> string" where
  "work_of base = Join_path [base, ''work'']"

definition PrepareOverlayDirectories :: "st_call world \<Rightarrow> string \<Rightarrow> (st_call, st_error) action" where
  "PrepareOverlayDirectories w base = steps
     [must w (StMkdirAll (upper_of base) 0x1ED) (UpperDirFailed (upper_of base)),
      must w (StMkdirAll (work_of base) 0x1ED) (WorkDirFailed (work_of base))]"

definition MountOverlay :: "st_view \<Rightarrow> st_call world \<Rightarrow> OverlayConfig \<Rightarrow> (st_call, st_error) action" where
  "MountOverlay v w cfg =
     (if ov_LowerDir cfg = [] \<or> ov_UpperDir cfg = [] \<or> ov_WorkDir cfg = [] \<or> ov_TargetDir cfg = []
      then fail (InvalidOverlayConfig cfg)
      else and_then (must w (StMkdirAll (ov_TargetDir cfg) 0x1ED) (TargetDirFailed (ov_TargetDir cfg)))
        (\<lambda>tr.
           let c = StMountOverlay (ov_TargetDir cfg)
                     (BuildOverlayOptions (ov_LowerDir cfg) (ov_UpperDir cfg) (ov_WorkDir cfg))
           in case w tr c of
                None \<Rightarrow> (None, tr @ [c])
              | Some e \<Rightarrow> if sv_euid v \<noteq> 0 then (None, tr @ [c])
                          else (Some (MountOverlayFailed (ov_TargetDir cfg) e), tr @ [c])))"

subsection \<open>Mount points\<close>

definition isMountPointStat :: "st_view \<Rightarrow> string \<Rightarrow> (string, bool) result" where
  "isMountPointStat v path =
     bind_res (sv_device v path) (\<lambda>d. bind_res (sv_device v (Dir path)) (\<lambda>pd. Inr (d \<noteq> pd)))"

text \<open>The scan of \<open>/proc/mounts\<close>; a line too long for the scanner ends it with an error.\<close>

definition mount_line :: "string \<Rightarrow> string \<Rightarrow> bool" where
  "mount_line cleanPath line =
     (case Fields line of f0 # f1 # fs \<Rightarrow> Clean f1 = cleanPath | _ \<Rightarrow> False)"

definition IsMountPoint :: "st_view \<Rightarrow> string \<Rightarrow> (string, bool) result" where
  "IsMountPoint v path =
     (case sv_mounts v of
        Inl e \<Rightarrow> isMountPointStat v path
      | Inr data \<Rightarrow>
          (let (ls, too_long) = scan_lines data
           in if list_ex (mount_line (Clean path)) ls then Inr True
              else if too_long then Inl ''bufio.Scanner: token too long'' else Inr False))"

definition mounted :: "st_view \<Rightarrow> string \<Rightarrow> bool" where
  "mounted v path \<longleftrightarrow> IsMountPoint v path = Inr True"

subsection \<open>SquashFS\<close>

text \<open>The loop over candidate devices, with the last error seen.\<close>

fun mount_squash_devs ::
  "st_view \<Rightarrow> st_call world \<Rightarrow> string \<Rightarrow> string list \<Rightarrow> string option \<Rightarrow> (st_call, st_error) action"
where
  "mount_squash_devs v w lowerDir [] lastErr tr =
     (Some (case lastErr of Some e \<Rightarrow> NoSquashMounted lowerDir e | None \<Rightarrow> NoSquashDevice lowerDir), tr)"
| "mount_squash_devs v w lowerDir (dev # devs) lastErr tr =
     (if sv_exists v dev
      then (case w tr (StMountSquash dev lowerDir) of
              None \<Rightarrow> (None, tr @ [StMountSquash dev lowerDir])
            | Some e \<Rightarrow> mount_squash_devs v w lowerDir devs (Some e) (tr @ [StMountSquash dev lowerDir]))
      else mount_squash_devs v w lowerDir devs lastErr tr)"

definition MountSquashFSDevice :: "st_view \<Rightarrow> st_call world \<Rightarrow> string \<Rightarrow> (st_call, st_error) action" where
  "MountSquashFSDevice v w lowerDir =
     and_then (must w (StMkdirAll lowerDir 0x1ED) (LowerDirFailed lowerDir))
       (if mounted v lowerDir then ok
        else mount_squash_devs v w lowerDir [''/dev/vda'', ''/dev/sda'', ''/dev/initrd''] None)"

subsection \<open>Linking the lower directory\<close>

datatype dir_tree = TFile | TDir "(string \<times> dir_tree) list" | TUnreadable string

definition is_tdir :: "dir_tree \<Rightarrow> bool" where
  "is_tdir t \<longleftrightarrow> t \<noteq> TFile"

definition link_source :: "st_view \<Rightarrow> string \<Rightarrow> string" where
  "link_source v src = (case sv_eval_symlinks v src of Inr r \<Rightarrow> r | Inl e \<Rightarrow> src)"

text \<open>
  The calls of \<open>linkDirectoryContents\<close>: all its errors are discarded by its callers, so it is the
  list of calls it makes. The target paths it tests were not made by earlier iterations, since the
  entries of a directory have different names, except below a directory it has just made, where
  nothing exists (\<open>fresh\<close>).
\<close>

fun linkDirectoryContents :: "st_view \<Rightarrow> bool \<Rightarrow> string \<Rightarrow> string \<Rightarrow> dir_tree \<Rightarrow> st_call list"
  and link_entries :: "st_view \<Rightarrow> bool \<Rightarrow> string \<Rightarrow> string \<Rightarrow> (string \<times> dir_tree) list \<Rightarrow> st_call list"
where
  "linkDirectoryContents v fresh srcDir targetDir TFile = []"
| "linkDirectoryContents v fresh srcDir targetDir (TUnreadable e) = []"
| "linkDirectoryContents v fresh srcDir targetDir (TDir entries) = link_entries v fresh srcDir targetDir entries"
| "link_entries v fresh srcDir targetDir [] = []"
| "link_entries v fresh srcDir targetDir ((name, t) # rest) =
     (let subSrc = Join_path [srcDir, name]; subTarget = Join_path [targetDir, name];
          st = (if fresh then LNotExist else sv_lstat v subTarget)
      in (if st = LNotExist
          then (if is_tdir t then StMkdirAll subTarget 0x1ED # linkDirectoryContents v True subSrc subTarget t
                else [StSymlink (link_source v subSrc) subTarget])
          else if st = LDir \<and> is_tdir t then linkDirectoryContents v False subSrc subTarget t
          else []))
     @ link_entries v fresh srcDir targetDir rest"

definition reserved_root :: "string list" where
  "reserved_root = [''proc'', ''sys'', ''dev'', ''mnt'', ''run'']"

fun link_root_entries :: "st_view \<Rightarrow> string \<Rightarrow> (string \<times> dir_tree) list \<Rightarrow> st_call list" where
  "link_root_entries v lowerDir [] = []"
| "link_root_entries v lowerDir ((name, t) # rest) =
     (let srcPath = Join_path [lowerDir, name]; targetPath = ''/'' @ name
      in if name \<in> set reserved_root then []
         else if sv_lstat v targetPath = LNotExist then [StSymlink (link_source v srcPath) targetPath]
         else if sv_lstat v targetPath = LDir \<and> is_tdir t then linkDirectoryContents v False srcPath targetPath t
         else [])
     @ link_root_entries v lowerDir rest"

definition LinkLowerDirToRoot :: "st_view \<Rightarrow> string \<Rightarrow> dir_tree \<Rightarrow> (st_call, st_error) action" where
  "LinkLowerDirToRoot v lowerDir tree tr =
     (case tree of
        TDir entries \<Rightarrow> (None, tr @ link_root_entries v lowerDir entries)
      | TUnreadable e \<Rightarrow> (Some (ReadLowerFailed lowerDir e), tr)
      | TFile \<Rightarrow> (Some (ReadLowerFailed lowerDir ''not a directory''), tr))"

subsection \<open>The root overlay and container overlays\<close>

definition overlay_cfg :: "string \<Rightarrow> string \<Rightarrow> string \<Rightarrow> OverlayConfig" where
  "overlay_cfg lower base target =
     \<lparr>ov_LowerDir = lower, ov_UpperDir = upper_of base, ov_WorkDir = work_of base, ov_TargetDir = target\<rparr>"

definition PrepareAndMountRootOverlay ::
  "st_view \<Rightarrow> st_call world \<Rightarrow> dir_tree \<Rightarrow> string \<Rightarrow> string \<Rightarrow> string \<Rightarrow> (st_call, st_error) action"
where
  "PrepareAndMountRootOverlay v w tree lowerDir base targetDir = steps
     ([ignore_err (MountSquashFSDevice v w lowerDir)] @
      map (\<lambda>d. and_then (attempt (StMkdirAll d 0x1ED)) (when_act (\<not> mounted v d) (attempt (StMountTmpfs d))))
        [''/var'', ''/tmp'', ''/run''] @
      [ignore_err (LinkLowerDirToRoot v lowerDir tree),
       must w (StMkdirAll base 0x1ED) (BaseDirFailed base),
       when_act (\<not> mounted v base) (attempt (StMountTmpfs base)),
       PrepareOverlayDirectories w base,
       when_act (targetDir \<noteq> ''/'' \<and> sv_exists v lowerDir)
         (ignore_err (MountOverlay v w (overlay_cfg lowerDir base targetDir)))])"

definition UnmountOverlay :: "st_call world \<Rightarrow> string \<Rightarrow> (st_call, st_error) action" where
  "UnmountOverlay w targetDir tr =
     ((case w tr (StUnmount targetDir) of
         None \<Rightarrow> None
       | Some e \<Rightarrow> if e = ''invalid argument'' then None else Some (UnmountFailed targetDir e)),
      tr @ [StUnmount targetDir])"

text \<open>The directory for containers: the fallback below the temporary directory when it cannot be made.\<close>

definition container_base :: "st_view \<Rightarrow> st_call world \<Rightarrow> st_call list \<Rightarrow> string \<times> st_call list" where
  "container_base v w tr =
     (let b = ''/run/karim/containers''; f = Join_path [sv_tmpdir v, ''karim_containers'']
      in case w tr (StMkdirAll b 0x1ED) of
           None \<Rightarrow> (b, tr @ [StMkdirAll b 0x1ED])
         | Some e \<Rightarrow> (f, tr @ [StMkdirAll b 0x1ED, StMkdirAll f 0x1ED]))"

definition MountDynamicOverlay ::
  "st_view \<Rightarrow> st_call world \<Rightarrow> string \<Rightarrow> string list \<Rightarrow> string \<Rightarrow> (st_call, st_error) action"
where
  "MountDynamicOverlay v w containerID lowerDirs targetDir0 =
     (if containerID = [] then fail EmptyContainerID
      else if lowerDirs = [] then fail EmptyLowerDirs
      else (\<lambda>tr.
        let (base, tr1) = container_base v w tr;
            targetDir = (if targetDir0 = [] then Join_path [base, containerID, ''rootfs''] else targetDir0);
            overlay = Join_path [base, containerID, ''overlay'']
        in steps
          [map_err (OverlayDirsFailed containerID) (PrepareOverlayDirectories w overlay),
           must w (StMkdirAll targetDir 0x1ED) (ContainerTargetFailed targetDir),
           map_err (DynamicMountFailed targetDir)
             (MountOverlay v w (overlay_cfg (Join_strings lowerDirs '':'') overlay targetDir))] tr1))"

subsection \<open>Properties of linking\<close>

text \<open>What a call creates.\<close>

fun created_path :: "st_call \<Rightarrow> string option" where
  "created_path (StMkdirAll p m) = Some p"
| "created_path (StSymlink s p) = Some p"
| "created_path c = None"

text \<open>\<open>p\<close> does not exist, or lies below a directory on the way that does not exist.\<close>

inductive absent :: "st_view \<Rightarrow> string \<Rightarrow> bool" for v :: st_view where
  absent_here: "sv_lstat v p = LNotExist \<Longrightarrow> absent v p"
| absent_below: "absent v d \<Longrightarrow> absent v (Join_path [d, n])"

lemma link_creates_absent:
  "(fresh \<Longrightarrow> absent v targetDir) \<Longrightarrow> c \<in> set (linkDirectoryContents v fresh srcDir targetDir t) \<Longrightarrow>
     \<exists>p. created_path c = Some p \<and> absent v p"
  "(fresh \<Longrightarrow> absent v targetDir) \<Longrightarrow> c \<in> set (link_entries v fresh srcDir targetDir es) \<Longrightarrow>
     \<exists>p. created_path c = Some p \<and> absent v p"
proof (induction v fresh srcDir targetDir t and v fresh srcDir targetDir es
    rule: linkDirectoryContents_link_entries.induct)
  case (5 v fresh srcDir targetDir name t rest)
  let ?sub = "Join_path [targetDir, name]"
  have sub: "absent v ?sub" if "(if fresh then LNotExist else sv_lstat v ?sub) = LNotExist"
    using that "5.prems"(1) by (auto split: if_splits intro: absent.intros)
  show ?case
  proof (cases "c \<in> set (link_entries v fresh srcDir targetDir rest)")
    case True
    with "5.IH"(3) "5.prems"(1) show ?thesis by blast
  next
    case False
    with "5.prems"(2) sub "5.IH"(1,2) show ?thesis
      by (auto simp: Let_def split: if_splits)
  qed
qed auto


definition empty_view :: st_view where
  "empty_view = \<lparr>sv_mounts = Inr [], sv_device = (\<lambda>p. Inr 0), sv_exists = (\<lambda>p. False), sv_lstat = (\<lambda>p. LNotExist),
     sv_eval_symlinks = Inr, sv_euid = 0, sv_tmpdir = ''/tmp''\<rparr>"


end
