(* ===== verification/GoTar.thy ===== *)
theory GoTar
  imports Prelude
begin

text \<open>
  What the sources see of \<open>archive/tar\<close>: the entries of an archive in order, each with the header
  fields the code reads and its data. Reading an archive is a parameter of the functions that do
  it: the entries up to the end, or up to an error.
\<close>

datatype tar_type = TypeDir | TypeReg | TypeRegA | TypeSymlink | TypeLink | TypeOther

record tar_entry =
  te_Name :: string
  te_Type :: tar_type
  te_Mode :: nat
  te_Linkname :: string
  te_Data :: bytes

type_synonym untar_fn = "bytes \<Rightarrow> tar_entry list \<times> string option"

end
