(* ===== verification/SvcBundle.thy ===== *)
theory SvcBundle
  imports SvcConfig Stored GoTar
begin

text \<open>
  \<open>internal/svcd/bundle.go\<close> and the OCI runtime structures of \<open>internal/pkgd/oci_spec.go\<close>: a container
  bundle received over the control plane is unpacked, its root file system is mounted, and a
  service specification is made for it. Decoding the JSON is the parameter \<open>decode\<close>; the entries
  that \<open>archive/tar\<close> reads from the bundle's tarball are the parameter \<open>untar\<close>: the entries up to
  the end, or up to an error.
\<close>

record User =
  user_UID :: u32
  user_GID :: u32

record POSIXRlimit =
  rlim_Type :: string
  rlim_Hard :: u64
  rlim_Soft :: u64

record LinuxCapabilities =
  lcap_Bounding :: "string list"
  lcap_Effective :: "string list"
  lcap_Inheritable :: "string list"
  lcap_Permitted :: "string list"
  lcap_Ambient :: "string list"

record Process =
  proc_Terminal :: bool
  proc_User :: User
  proc_Args :: "string list"
  proc_Env :: "string list"
  proc_Cwd :: string
  proc_Capabilities :: "LinuxCapabilities option"
  proc_Rlimits :: "POSIXRlimit list"
  proc_NoNewPrivileges :: bool

record LinuxSeccomp =
  lsec_DefaultAction :: string
  lsec_ProfileName :: string

record LinuxResources =
  lres_Memory :: "int option option"
  lres_CPU :: "int option option"

record LinuxNamespace =
  lns_Type :: string
  lns_Path :: string

record Linux =
  lin_Namespaces :: "LinuxNamespace list"
  lin_Seccomp :: "LinuxSeccomp option"
  lin_Resources :: "LinuxResources option"

record Root =
  root_Path :: string
  root_Readonly :: bool

record Mount =
  mnt_Destination :: string
  mnt_Type :: string
  mnt_Source :: string
  mnt_Options :: "string list"

record Spec =
  oci_Version :: "string option"
  oci_Root :: "Root option"
  oci_Process :: "Process option"
  oci_Hostname :: string
  oci_Mounts :: "Mount list"
  oci_Linux :: "Linux option"

record OCIContainerBundle =
  bun_BundleID :: string
  bun_Spec :: "Spec option"
  bun_LowerDirs :: "string list"
  bun_RootfsTar :: bytes
  bun_Restart :: string

datatype bundle_error =
    BundleJSON string
  | BundleNoID
  | LayerDirFailed string string
  | ExtractFailed string string
  | OverlayFailed string st_error

subsection \<open>The specification of the container\<close>

definition bundle_base_spec :: "OCIContainerBundle \<Rightarrow> string \<Rightarrow> ServiceSpec" where
  "bundle_base_spec b rootfs =
     \<lparr>spec_Name = bun_BundleID b, spec_Exec = ''/bin/sh'', spec_Args = [],
      spec_Env = [''PATH=/usr/local/sbin:/usr/local/bin:/usr/sbin:/usr/bin:/sbin:/bin'', ''TERM=xterm''],
      spec_Directory = ''/'', spec_RootDir = rootfs, spec_After = [], spec_MemoryLimit = 0, spec_CPUQuota = 0,
      spec_Restart = (if bun_Restart b = [] then ''on-failure'' else bun_Restart b), spec_MaxRestarts = 0,
      spec_SeccompProfile = ''app-default'', spec_CapabilitiesAdd = [], spec_CapabilitiesDrop = [],
      spec_NoNewPrivs = True\<rparr>"

definition apply_process :: "Process \<Rightarrow> ServiceSpec \<Rightarrow> ServiceSpec" where
  "apply_process p s0 =
     (let s1 = (case proc_Args p of [] \<Rightarrow> s0 | a # as \<Rightarrow> s0\<lparr>spec_Exec := a, spec_Args := (if as = [] then spec_Args s0 else as)\<rparr>);
          s2 = (if proc_Env p \<noteq> [] then s1\<lparr>spec_Env := proc_Env p\<rparr> else s1);
          s3 = (if proc_Cwd p \<noteq> [] then s2\<lparr>spec_Directory := proc_Cwd p\<rparr> else s2)
      in case proc_Capabilities p of
           None \<Rightarrow> s3
         | Some c \<Rightarrow> s3\<lparr>spec_CapabilitiesAdd := lcap_Permitted c, spec_CapabilitiesDrop := [''ALL'']\<rparr>)"

definition apply_linux :: "Linux \<Rightarrow> ServiceSpec \<Rightarrow> ServiceSpec" where
  "apply_linux l s0 =
     (let s1 = (case lin_Seccomp l of
                  Some c \<Rightarrow> if lsec_ProfileName c \<noteq> [] then s0\<lparr>spec_SeccompProfile := lsec_ProfileName c\<rparr> else s0
                | None \<Rightarrow> s0)
      in case lin_Resources l of
           None \<Rightarrow> s1
         | Some r \<Rightarrow> (case lres_Memory r of Some (Some lim) \<Rightarrow> s1\<lparr>spec_MemoryLimit := lim\<rparr> | _ \<Rightarrow> s1))"

definition bundle_spec :: "OCIContainerBundle \<Rightarrow> string \<Rightarrow> ServiceSpec" where
  "bundle_spec b rootfs =
     (case bun_Spec b of
        None \<Rightarrow> bundle_base_spec b rootfs
      | Some oci \<Rightarrow>
          (case oci_Linux oci of None \<Rightarrow> (\<lambda>s. s) | Some l \<Rightarrow> apply_linux l)
            ((case oci_Process oci of None \<Rightarrow> (\<lambda>s. s) | Some p \<Rightarrow> apply_process p) (bundle_base_spec b rootfs)))"

subsection \<open>Unpacking\<close>

definition extract_entry :: "st_call world \<Rightarrow> string \<Rightarrow> tar_entry \<Rightarrow> (st_call, string) action" where
  "extract_entry w destDir h =
     (let target = Join_path [destDir, te_Name h]
      in case te_Type h of
           TypeDir \<Rightarrow> must w (StMkdirAll target (te_Mode h)) (\<lambda>e. e)
         | TypeReg \<Rightarrow> steps
             [must w (StMkdirAll (Dir target) 0x1ED) (\<lambda>e. e),
              must w (StOpenFile target (te_Mode h)) (\<lambda>e. e),
              must w (StCopy target (te_Data h)) (\<lambda>e. e)]
         | _ \<Rightarrow> ok)"

definition extractTarBytes ::
  "st_call world \<Rightarrow> (bytes \<Rightarrow> tar_entry list \<times> string option) \<Rightarrow> bytes \<Rightarrow> string \<Rightarrow> (st_call, string) action"
where
  "extractTarBytes w untar tarBytes destDir =
     (let (entries, err) = untar tarBytes
      in and_then (steps (map (extract_entry w destDir) entries))
           (case err of None \<Rightarrow> ok | Some e \<Rightarrow> fail e))"

definition ParseAndPrepareOCIBundle ::
  "(string \<Rightarrow> (string, OCIContainerBundle) result) \<Rightarrow> (bytes \<Rightarrow> tar_entry list \<times> string option) \<Rightarrow> st_view \<Rightarrow>
     st_call world \<Rightarrow> string \<Rightarrow> st_call list \<Rightarrow> (bundle_error, ServiceSpec) result \<times> st_call list"
where
  "ParseAndPrepareOCIBundle decode untar v w bundleJSON tr =
     (case decode bundleJSON of
        Inl e \<Rightarrow> (Inl (BundleJSON e), tr)
      | Inr b \<Rightarrow>
          if bun_BundleID b = [] then (Inl BundleNoID, tr)
          else
            let containerID = bun_BundleID b;
                (base, tr1) = container_base v w tr;
                targetRootfs = Join_path [base, containerID, ''rootfs''];
                layerDir = Join_path [base, containerID, ''extracted''];
                unpack = (if bun_RootfsTar b = [] then ok
                          else and_then (must w (StMkdirAll layerDir 0x1ED) (LayerDirFailed layerDir))
                                 (map_err (ExtractFailed containerID) (extractTarBytes w untar (bun_RootfsTar b) layerDir)));
                lowers0 = bun_LowerDirs b @ (if bun_RootfsTar b = [] then [] else [layerDir]);
                lowers = (if lowers0 = [] then [''/mnt/lower''] else lowers0)
            in case and_then unpack (map_err (OverlayFailed containerID) (MountDynamicOverlay v w containerID lowers targetRootfs)) tr1 of
                 (Some e, tr2) \<Rightarrow> (Inl e, tr2)
               | (None, tr2) \<Rightarrow> (Inr (bundle_spec b targetRootfs), tr2))"

lemma apply_process_frame [simp]:
  "spec_Name (apply_process p s) = spec_Name s" "spec_RootDir (apply_process p s) = spec_RootDir s"
  "spec_NoNewPrivs (apply_process p s) = spec_NoNewPrivs s"
  by (simp_all add: apply_process_def Let_def split: option.split list.split)

lemma apply_linux_frame [simp]:
  "spec_Name (apply_linux l s) = spec_Name s" "spec_RootDir (apply_linux l s) = spec_RootDir s"
  "spec_NoNewPrivs (apply_linux l s) = spec_NoNewPrivs s"
  by (simp_all add: apply_linux_def Let_def split: option.split)

lemma bundle_spec_facts:
  "spec_Name (bundle_spec b r) = bun_BundleID b" "spec_RootDir (bundle_spec b r) = r"
  "spec_NoNewPrivs (bundle_spec b r)"
  by (simp_all add: bundle_spec_def bundle_base_spec_def split: option.split)

lemma bundle_success:
  assumes "ParseAndPrepareOCIBundle decode untar v w json tr = (Inr spec, tr')"
  obtains b base where "decode json = Inr b" "bun_BundleID b \<noteq> []"
    "spec = bundle_spec b (Join_path [base, bun_BundleID b, ''rootfs''])"
    "base \<in> {''/run/karim/containers'', Join_path [sv_tmpdir v, ''karim_containers'']}"
  using assms
  by (auto simp: ParseAndPrepareOCIBundle_def container_base_def Let_def split: sum.splits if_splits option.splits prod.splits)


definition example_bundle :: OCIContainerBundle where
  "example_bundle = \<lparr>bun_BundleID = ''c1'', bun_Spec = None, bun_LowerDirs = [], bun_RootfsTar = [], bun_Restart = []\<rparr>"


text \<open>Unlike the layer extractor, the bundle extractor does not confine paths. An archive whose
  entry name climbs with \<open>..\<close> makes it open a file outside the layer directory; the resulting path
  is the cleaned join, whatever it is.\<close>

theorem bundle_tar_escapes:
  "extract_entry all_ok ''/run/karim/containers/c1/extracted''
     \<lparr>te_Name = ''../../../../../etc/passwd'', te_Type = TypeReg, te_Mode = 420, te_Linkname = [], te_Data = ''x''\<rparr> [] =
   (None, [StMkdirAll ''/etc'' 0x1ED, StOpenFile ''/etc/passwd'' 420, StCopy ''/etc/passwd'' ''x''])"
  by (simp add: extract_entry_def go_eval)

end
