(* ===== verification/SvcGraph.thy ===== *)
theory SvcGraph
  imports SvcConfig "HOL-Library.AList" "HOL-Library.While_Combinator" "HOL-Library.Multiset"
begin

text \<open>
  \<open>internal/svcd/graph.go\<close>: the start-up order of the services, by Kahn's algorithm.

  The Go map \<open>services\<close> is an association list with distinct keys. Go leaves the order of a
  \<open>range\<close> over a map open, so the two ranges whose order can be seen are arguments: \<open>o2\<close> is the
  order in which the dependency loop visits the services and \<open>o3\<close> the one in which the queue is
  first filled; every theorem holds for all permutations of the keys. Maps read with Go's
  zero default are total functions.
\<close>

datatype graph_error = ErrCyclicDependency nat nat

type_synonym services = "(string \<times> ServiceSpec) list"

definition NewDependencyGraph :: "ServiceSpec list \<Rightarrow> services" where
  "NewDependencyGraph specs = fold (\<lambda>spec g. AList.update (spec_Name spec) spec g) specs []"

type_synonym tables = "(string \<Rightarrow> int) \<times> (string \<Rightarrow> string list)"

text \<open>The inner loop over \<open>spec.After\<close> for the service \<open>name\<close>.\<close>

fun add_after :: "services \<Rightarrow> string \<Rightarrow> string list \<Rightarrow> tables \<Rightarrow> tables" where
  "add_after g name [] t = t"
| "add_after g name (dep # deps) (inDegree, adj) =
     add_after g name deps
       (if map_of g dep \<noteq> None
        then (inDegree(name := inDegree name + 1), adj(dep := adj dep @ [name]))
        else (inDegree, adj))"

fun build_tables :: "services \<Rightarrow> string list \<Rightarrow> tables \<Rightarrow> tables" where
  "build_tables g [] t = t"
| "build_tables g (name # names) t =
     build_tables g names
       (case map_of g name of None \<Rightarrow> t | Some spec \<Rightarrow> add_after g name (spec_After spec) t)"

text \<open>The inner loop over \<open>adj[curr]\<close>: decrement, and enqueue what reaches zero.\<close>

fun relax :: "string list \<Rightarrow> (string \<Rightarrow> int) \<Rightarrow> string list \<Rightarrow> (string \<Rightarrow> int) \<times> string list" where
  "relax [] inDegree queue = (inDegree, queue)"
| "relax (neighbor # ns) inDegree queue =
     (let d = inDegree(neighbor := inDegree neighbor - 1)
      in relax ns d (if d neighbor = 0 then queue @ [neighbor] else queue))"

record kahn =
  k_queue :: "string list"
  k_inDegree :: "string \<Rightarrow> int"
  k_ordered :: "ServiceSpec list"

definition kahn_step :: "services \<Rightarrow> (string \<Rightarrow> string list) \<Rightarrow> kahn \<Rightarrow> kahn" where
  "kahn_step g adj s =
     (let curr = hd (k_queue s);
          ordered = (case map_of g curr of Some spec \<Rightarrow> k_ordered s @ [spec] | None \<Rightarrow> k_ordered s);
          (inDegree, queue) = relax (adj curr) (k_inDegree s) (tl (k_queue s))
      in \<lparr>k_queue = queue, k_inDegree = inDegree, k_ordered = ordered\<rparr>)"

definition kahn_loop :: "services \<Rightarrow> (string \<Rightarrow> string list) \<Rightarrow> kahn \<Rightarrow> kahn option" where
  "kahn_loop g adj = while_option (\<lambda>s. k_queue s \<noteq> []) (kahn_step g adj)"

definition kahn_init :: "services \<Rightarrow> string list \<Rightarrow> string list \<Rightarrow> kahn" where
  "kahn_init g o2 o3 =
     (let inDegree = fst (build_tables g o2 (\<lambda>_. 0, \<lambda>_. []))
      in \<lparr>k_queue = filter (\<lambda>name. inDegree name = 0) o3, k_inDegree = inDegree, k_ordered = []\<rparr>)"

text \<open>\<open>None\<close> would mean that the loop does not end.\<close>

definition ResolveTopologicalSort ::
  "services \<Rightarrow> string list \<Rightarrow> string list \<Rightarrow> (graph_error, ServiceSpec list) result option"
where
  "ResolveTopologicalSort g o2 o3 =
     (let adj = snd (build_tables g o2 (\<lambda>_. 0, \<lambda>_. []))
      in map_option
           (\<lambda>s. if length (k_ordered s) \<noteq> length g
                then Inl (ErrCyclicDependency (length (k_ordered s)) (length g))
                else Inr (k_ordered s))
           (kahn_loop g adj (kahn_init g o2 o3)))"

subsection \<open>The graph\<close>

definition graph_wf :: "services \<Rightarrow> bool" where
  "graph_wf g \<longleftrightarrow> distinct (map fst g) \<and> (\<forall>(k, s) \<in> set g. spec_Name s = k)"

definition keys :: "services \<Rightarrow> string set" where
  "keys g = fst ` set g"

text \<open>The dependencies of a service that are themselves services, with their multiplicity.\<close>

definition deps :: "services \<Rightarrow> string \<Rightarrow> string list" where
  "deps g n = (case map_of g n of None \<Rightarrow> [] | Some s \<Rightarrow> filter (\<lambda>d. map_of g d \<noteq> None) (spec_After s))"

definition dep_rel :: "services \<Rightarrow> (string \<times> string) set" where
  "dep_rel g = {(d, n). d \<in> set (deps g n)}"

lemma in_keys_iff: "n \<in> keys g \<longleftrightarrow> map_of g n \<noteq> None"
  by (simp add: keys_def map_of_eq_None_iff)

lemma set_deps: "set (deps g n) \<subseteq> keys g"
  by (auto simp: deps_def in_keys_iff split: option.splits)

lemma deps_Nil_outside: "n \<notin> keys g \<Longrightarrow> deps g n = []"
  by (simp add: deps_def in_keys_iff)

lemma set_AList_update: "set (AList.update k v g) \<subseteq> insert (k, v) (set g)"
  by (induction g) auto

lemma graph_wf_update:
  assumes "graph_wf g"
  shows "graph_wf (AList.update (spec_Name s) s g)"
  using assms set_AList_update [of "spec_Name s" s g]
  by (auto simp: graph_wf_def distinct_update)

lemma graph_wf_NewDependencyGraph: "graph_wf (NewDependencyGraph specs)"
proof -
  have "graph_wf g \<Longrightarrow> graph_wf (fold (\<lambda>spec g. AList.update (spec_Name spec) spec g) specs g)" for g
    by (induction specs arbitrary: g) (auto simp: graph_wf_update)
  moreover have "graph_wf []" by (simp add: graph_wf_def)
  ultimately show ?thesis by (simp add: NewDependencyGraph_def)
qed

lemma graph_wf_lookup: "graph_wf g \<Longrightarrow> map_of g n = Some s \<Longrightarrow> spec_Name s = n"
  by (auto simp: graph_wf_def dest: map_of_SomeD)

subsection \<open>The tables\<close>

lemma count_list_snoc [simp]: "count_list (xs @ [y]) x = count_list xs x + (if x = y then 1 else 0)"
  by simp

lemma add_after_spec:
  "add_after g name ds (d, adj) = (d', adj') \<Longrightarrow>
     d' = d(name := d name + int (length (filter (\<lambda>x. map_of g x \<noteq> None) ds))) \<and>
     (\<forall>x n. count_list (adj' x) n =
        count_list (adj x) n + (if n = name then count_list (filter (\<lambda>x. map_of g x \<noteq> None) ds) x else 0))"
proof (induction ds arbitrary: d adj d' adj')
  case Nil
  then show ?case by auto
next
  case (Cons dep ds)
  show ?case
  proof (cases "map_of g dep = None")
    case True
    with Cons show ?thesis by auto
  next
    case False
    with Cons.prems
    have "add_after g name ds (d(name := d name + 1), adj(dep := adj dep @ [name])) = (d', adj')"
      by simp
    from Cons.IH [OF this] False show ?thesis by auto
  qed
qed

text \<open>After the dependency loop: in-degrees count dependency edges, and \<open>adj\<close> holds each edge once per mention.\<close>

lemma build_tables_spec:
  assumes "distinct names" and "build_tables g names (d, adj) = (d', adj')"
  shows "(\<forall>n. d' n = d n + (if n \<in> set names then int (length (deps g n)) else 0)) \<and>
     (\<forall>x n. count_list (adj' x) n = count_list (adj x) n + (if n \<in> set names then count_list (deps g n) x else 0))"
  using assms
proof (induction names arbitrary: d adj)
  case Nil
  then show ?case by simp
next
  case (Cons name names)
  show ?case
  proof (cases "map_of g name")
    case None
    with Cons.prems have "build_tables g names (d, adj) = (d', adj')" by simp
    with Cons.IH [OF _ this] Cons.prems(1) None show ?thesis by (auto simp: deps_def)
  next
    case (Some spec)
    obtain d1 adj1 where 1: "add_after g name (spec_After spec) (d, adj) = (d1, adj1)"
      by fastforce
    with Cons.prems Some have "build_tables g names (d1, adj1) = (d', adj')" by simp
    with Cons.IH [OF _ this] Cons.prems(1) add_after_spec [OF 1] Some show ?thesis
      by (auto simp: deps_def)
  qed
qed

text \<open>What one more neighbour adds to the queue: itself, if this mention was its last missing dependency.\<close>

lemma relaxed_Cons:
  assumes le: "\<And>n. int (count_list (x # ns) n) \<le> d n"
    and new: "set new = {n \<in> set ns. (d(x := d x - 1)) n = int (count_list ns n)}"
  shows "set (if d x = 1 then x # new else new) = {n \<in> set (x # ns). d n = int (count_list (x # ns) n)}"
    and "d x = 1 \<Longrightarrow> x \<notin> set new"
proof -
  have mem: "n \<in> set new \<longleftrightarrow> n \<in> set ns \<and> d n = int (count_list (x # ns) n)" for n
    by (cases "n = x") (auto simp: new)
  have last: "count_list ns x = 0" if "d x = 1" using le [of x] that by simp
  then show "d x = 1 \<Longrightarrow> x \<notin> set new" by (simp add: mem count_list_0_iff)
  have more: "x \<in> set ns" if "d x \<noteq> 1" "d x = int (count_list (x # ns) x)"
    using that count_list_0_iff [of ns x] by (cases "x \<in> set ns") auto
  show "set (if d x = 1 then x # new else new) = {n \<in> set (x # ns). d n = int (count_list (x # ns) n)}"
  proof (cases "d x = 1")
    case True
    have "n \<in> set (x # new) \<longleftrightarrow> n \<in> set (x # ns) \<and> d n = int (count_list (x # ns) n)" for n
      using True last [OF True] mem [of n] by (cases "n = x") simp_all
    then have "set (x # new) = {n \<in> set (x # ns). d n = int (count_list (x # ns) n)}" by blast
    with True show ?thesis by (simp only: refl if_True)
  next
    case False
    have "n \<in> set new \<longleftrightarrow> n \<in> set (x # ns) \<and> d n = int (count_list (x # ns) n)" for n
      using more [OF False] mem [of n] by (cases "n = x") (simp_all del: count_list.simps, blast?)
    then have "set new = {n \<in> set (x # ns). d n = int (count_list (x # ns) n)}" by blast
    with False show ?thesis by (simp only: if_False)
  qed
qed

lemma relax_spec:
  assumes "\<And>n. int (count_list ns n) \<le> d n"
  shows "\<exists>new. relax ns d q = (\<lambda>n. d n - int (count_list ns n), q @ new) \<and> distinct new \<and>
     set new = {n \<in> set ns. d n = int (count_list ns n)}"
  using assms
proof (induction ns arbitrary: d q)
  case Nil
  then show ?case by auto
next
  case (Cons x ns)
  let ?d = "d(x := d x - 1)"
  let ?q = "if ?d x = 0 then q @ [x] else q"
  have "int (count_list ns n) \<le> ?d n" for n
    using Cons.prems [of n] by (auto split: if_splits)
  from Cons.IH [OF this, of ?q] obtain new where
    new: "relax ns ?d ?q = (\<lambda>n. ?d n - int (count_list ns n), ?q @ new)" "distinct new"
      "set new = {n \<in> set ns. ?d n = int (count_list ns n)}"
    by blast
  let ?new = "if d x = 1 then x # new else new"
  have "(\<lambda>n. ?d n - int (count_list ns n)) = (\<lambda>n. d n - int (count_list (x # ns) n))"
    by (auto simp: fun_eq_iff)
  moreover have "?q @ new = q @ ?new" by simp
  moreover have "relax (x # ns) d q = relax ns ?d ?q" by (simp add: Let_def)
  ultimately have "relax (x # ns) d q = (\<lambda>n. d n - int (count_list (x # ns) n), q @ ?new)"
    using new(1) by (simp only:)
  moreover have "distinct ?new" using new(2) relaxed_Cons(2) [OF Cons.prems new(3)] by simp
  ultimately show ?case using relaxed_Cons(1) [OF Cons.prems new(3)] by blast
qed

text \<open>After relaxing, the services without missing dependencies are those before and the new ones.\<close>

lemma relaxed_zero:
  assumes le: "\<And>n. int (count_list ns n) \<le> d n" and new: "set new = {n \<in> set ns. d n = int (count_list ns n)}"
    and zero: "d n = 0 \<longleftrightarrow> n \<in> set Z"
  shows "d n - int (count_list ns n) = 0 \<longleftrightarrow> n \<in> set (Z @ new)" and "n \<in> set new \<Longrightarrow> n \<notin> set Z"
proof -
  have pos: "n \<in> set ns \<Longrightarrow> d n \<noteq> 0"
    using le [of n] count_list_0_iff [of ns n] by (cases "count_list ns n") auto
  then show "n \<in> set new \<Longrightarrow> n \<notin> set Z" using zero new by auto
  show "d n - int (count_list ns n) = 0 \<longleftrightarrow> n \<in> set (Z @ new)"
    using pos zero new by (cases "n \<in> set ns") (auto simp: count_list_0_iff)
qed

subsection \<open>The loop invariant\<close>

text \<open>
  \<open>P\<close> lists the services already ordered: they and the queue are distinct services, an in-degree
  counts the dependencies still missing from \<open>P\<close>, it is zero exactly for what has been ordered or
  queued, and in \<open>P\<close> every dependency comes before its dependants.
\<close>

definition kahn_inv :: "services \<Rightarrow> string list \<Rightarrow> kahn \<Rightarrow> bool" where
  "kahn_inv g P s \<longleftrightarrow>
     distinct (P @ k_queue s) \<and> set (P @ k_queue s) \<subseteq> keys g \<and>
     k_ordered s = map (\<lambda>n. the (map_of g n)) P \<and>
     (\<forall>n. k_inDegree s n = int (length (filter (\<lambda>d. d \<notin> set P) (deps g n)))) \<and>
     (\<forall>n \<in> keys g. k_inDegree s n = 0 \<longleftrightarrow> n \<in> set (P @ k_queue s)) \<and>
     (\<forall>n \<in> set P. \<forall>d \<in> set (deps g n). precedes d n P)"

definition adj_ok :: "services \<Rightarrow> (string \<Rightarrow> string list) \<Rightarrow> bool" where
  "adj_ok g adj \<longleftrightarrow> (\<forall>x n. count_list (adj x) n = count_list (deps g n) x)"

lemma length_filter_notin_insert:
  "c \<notin> set P \<Longrightarrow>
    length (filter (\<lambda>d. d \<notin> set (P @ [c])) xs) + count_list xs c = length (filter (\<lambda>d. d \<notin> set P) xs)"
  by (induction xs) auto

lemma adj_nbr: "adj_ok g adj \<Longrightarrow> n \<in> set (adj c) \<longleftrightarrow> c \<in> set (deps g n)"
  by (metis adj_ok_def count_list_0_iff)

lemma adj_keys: "adj_ok g adj \<Longrightarrow> set (adj c) \<subseteq> keys g"
  by (auto simp: adj_nbr) (metis deps_Nil_outside empty_iff empty_set)

lemma kahn_inv_nonzero:
  assumes "kahn_inv g P s" and "n \<in> keys g" and "k_inDegree s n = 0"
  shows "set (deps g n) \<subseteq> set P"
  using assms by (auto simp: kahn_inv_def filter_empty_conv)

lemma precedes_extend:
  assumes "\<forall>n \<in> set P. \<forall>d \<in> set (D n). precedes d n P" and "set (D c) \<subseteq> set P"
  shows "\<forall>n \<in> set (P @ [c]). \<forall>d \<in> set (D n). precedes d n (P @ [c])"
  using assms by (auto intro: precedes_snoc precedes_new)

lemma kahn_inv_step:
  assumes inv: "kahn_inv g P s" and adj: "adj_ok g adj" and q: "k_queue s = c # q"
  shows "kahn_inv g (P @ [c]) (kahn_step g adj s)"
proof -
  have c: "c \<notin> set P" "c \<in> keys g" "c \<notin> set q"
    and dist: "distinct (P @ [c] @ q)" and sub: "set (P @ q) \<subseteq> keys g"
    and deg: "\<And>n. k_inDegree s n = int (length (filter (\<lambda>d. d \<notin> set P) (deps g n)))"
    and zero: "\<And>n. n \<in> keys g \<Longrightarrow> k_inDegree s n = 0 \<longleftrightarrow> n \<in> set (P @ c # q)"
    and ord: "k_ordered s = map (\<lambda>n. the (map_of g n)) P"
    using inv q by (auto simp: kahn_inv_def)
  obtain spec where spec: "map_of g c = Some spec"
    using c(2) by (auto simp: in_keys_iff)
  have split: "int (length (filter (\<lambda>d. d \<notin> set (P @ [c])) (deps g n)))
      = k_inDegree s n - int (count_list (adj c) n)" for n
    using length_filter_notin_insert [OF c(1), of "deps g n"] adj
    by (simp add: deg adj_ok_def del: set_append)
  then have le: "int (count_list (adj c) n) \<le> k_inDegree s n" for n
    by (metis diff_ge_0_iff_ge of_nat_0_le_iff)
  from relax_spec [OF this, of q] obtain new where
    new: "relax (adj c) (k_inDegree s) q = (\<lambda>n. k_inDegree s n - int (count_list (adj c) n), q @ new)"
      "distinct new" "set new = {n \<in> set (adj c). k_inDegree s n = int (count_list (adj c) n)}"
    by blast
  have step: "kahn_step g adj s = \<lparr>k_queue = q @ new,
      k_inDegree = \<lambda>n. k_inDegree s n - int (count_list (adj c) n),
      k_ordered = map (\<lambda>n. the (map_of g n)) (P @ [c])\<rparr>"
    using new(1) by (simp add: kahn_step_def q spec ord)
  have newk: "set new \<subseteq> keys g" using adj_keys [OF adj] new(3) by blast
  note relaxed = relaxed_zero [OF le new(3) zero]
  have fresh: "n \<notin> set (P @ c # q)" if "n \<in> set new" for n
    using relaxed(2) [of n] newk that by blast
  have "set (deps g c) \<subseteq> set P"
    by (rule kahn_inv_nonzero [OF inv c(2)]) (use zero c(2) in auto)
  then have pre: "\<forall>n \<in> set (P @ [c]). \<forall>d \<in> set (deps g n). precedes d n (P @ [c])"
    using inv by (intro precedes_extend) (auto simp: kahn_inv_def)
  have dist': "distinct ((P @ [c]) @ q @ new)"
    using dist new(2) fresh by auto
  have sub': "set ((P @ [c]) @ q @ new) \<subseteq> keys g"
    using sub c(2) newk by auto
  show ?thesis
    unfolding kahn_inv_def step using dist' sub' relaxed(1) pre split by simp
qed

lemma kahn_inv_init:
  assumes wf: "graph_wf g" and o2: "mset o2 = mset (map fst g)" and o3: "mset o3 = mset (map fst g)"
  shows "kahn_inv g [] (kahn_init g o2 o3)"
    and "adj_ok g (snd (build_tables g o2 (\<lambda>_. 0, \<lambda>_. [])))"
proof -
  obtain d adj where t: "build_tables g o2 (\<lambda>_. 0, \<lambda>_. []) = (d, adj)" by fastforce
  have set: "set o2 = keys g" "set o3 = keys g"
    using mset_eq_setD [OF o2] mset_eq_setD [OF o3] by (simp_all add: keys_def)
  have dist: "distinct o2" "distinct o3"
    using wf mset_eq_imp_distinct_iff [OF o2] mset_eq_imp_distinct_iff [OF o3]
    by (auto simp: graph_wf_def)
  have d: "d n = int (length (deps g n))" and a: "count_list (adj x) n = count_list (deps g n) x" for x n
    using build_tables_spec [OF dist(1) t] set(1) deps_Nil_outside [of n g] by auto
  show "kahn_inv g [] (kahn_init g o2 o3)"
    using d dist(2) set(2) by (auto simp: kahn_inv_def kahn_init_def t)
  show "adj_ok g (snd (build_tables g o2 (\<lambda>_. 0, \<lambda>_. [])))"
    using a by (simp add: t adj_ok_def)
qed

lemma kahn_inv_length:
  assumes "kahn_inv g P s"
  shows "length (P @ k_queue s) \<le> card (keys g)" and "length (k_ordered s) = length P"
proof -
  have "distinct (P @ k_queue s)" "set (P @ k_queue s) \<subseteq> keys g"
    using assms by (auto simp: kahn_inv_def)
  then show "length (P @ k_queue s) \<le> card (keys g)"
    by (metis card_mono distinct_card finite_imageI finite_set keys_def)
  show "length (k_ordered s) = length P"
    using assms by (simp add: kahn_inv_def)
qed

lemma kahn_loop_ends:
  assumes inv: "kahn_inv g P0 s0" and adj: "adj_ok g adj"
  shows "\<exists>P s. kahn_loop g adj s0 = Some s \<and> kahn_inv g P s \<and> k_queue s = []"
proof -
  let ?I = "\<lambda>s. \<exists>P. kahn_inv g P s"
  let ?f = "\<lambda>s. card (keys g) - length (k_ordered s)"
  have step: "?I (kahn_step g adj s) \<and> ?f (kahn_step g adj s) < ?f s"
    if I: "?I s" and b: "k_queue s \<noteq> []" for s
  proof -
    from I obtain P where P: "kahn_inv g P s" ..
    obtain c q where q: "k_queue s = c # q" using b by (cases "k_queue s") auto
    have P': "kahn_inv g (P @ [c]) (kahn_step g adj s)"
      by (rule kahn_inv_step [OF P adj q])
    have "length P < card (keys g)" using kahn_inv_length(1) [OF P] q by simp
    with kahn_inv_length(2) [OF P] kahn_inv_length(2) [OF P'] P' show ?thesis by auto
  qed
  have "\<exists>s. while_option (\<lambda>s. k_queue s \<noteq> []) (kahn_step g adj) s0 = Some s"
    by (rule measure_while_option_Some [where P = ?I and f = ?f]) (use step inv in blast)+
  then obtain s where s: "while_option (\<lambda>s. k_queue s \<noteq> []) (kahn_step g adj) s0 = Some s" ..
  have "?I s"
    by (rule while_option_rule [OF _ s]) (use step inv in blast)+
  moreover have "k_queue s = []" using while_option_stop [OF s] by simp
  ultimately show ?thesis using s by (auto simp: kahn_loop_def)
qed

lemma finite_dep_rel: "finite (dep_rel g)"
proof (rule finite_subset)
  show "dep_rel g \<subseteq> keys g \<times> keys g"
    using set_deps deps_Nil_outside by (fastforce simp: dep_rel_def)
  show "finite (keys g \<times> keys g)" by (simp add: keys_def)
qed

text \<open>When services are left over, each of them waits for another of them: a cycle.\<close>

lemma leftover_not_acyclic:
  assumes inv: "kahn_inv g P s" and q: "k_queue s = []" and left: "set P \<noteq> keys g"
  shows "\<not> acyclic (dep_rel g)"
proof
  assume "acyclic (dep_rel g)"
  moreover have "finite (dep_rel g)" by (rule finite_dep_rel)
  ultimately have "wf (dep_rel g)" by (simp add: finite_acyclic_wf)
  moreover from left inv q obtain x where "x \<in> keys g - set P" by (auto simp: kahn_inv_def)
  ultimately obtain n where n: "n \<in> keys g - set P" "\<And>d. (d, n) \<in> dep_rel g \<Longrightarrow> d \<notin> keys g - set P"
    by (metis wfE_min)
  then have "set (deps g n) \<subseteq> set P" using set_deps by (fastforce simp: dep_rel_def)
  then have "k_inDegree s n = 0" using inv by (auto simp: kahn_inv_def filter_empty_conv)
  with n(1) inv q show False by (auto simp: kahn_inv_def)
qed

lemma ordered_acyclic:
  assumes inv: "kahn_inv g P s" and all: "set P = keys g"
  shows "acyclic (dep_rel g)"
proof -
  have dist: "distinct P" using inv by (simp add: kahn_inv_def)
  let ?pos = "\<lambda>n. length (takeWhile (\<lambda>x. x \<noteq> n) P)"
  have "?pos d < ?pos n" if "(d, n) \<in> dep_rel g" for d n
  proof -
    have "n \<in> set P" using that all deps_Nil_outside by (force simp: dep_rel_def)
    then have "precedes d n P" using inv that by (auto simp: kahn_inv_def dep_rel_def)
    then obtain as bs where P: "P = as @ n # bs" "d \<in> set as" by (auto simp: precedes_def)
    with dist have "n \<notin> set as" by auto
    then have "?pos n = length as" by (simp add: P(1) takeWhile_append_neq)
    moreover obtain us vs where as: "as = us @ d # vs" "d \<notin> set us"
      using P(2) by (metis split_list_first)
    then have "?pos d = length us" by (simp add: P(1) takeWhile_append_neq)
    ultimately show ?thesis by (simp add: as(1))
  qed
  then have "dep_rel g \<subseteq> measure ?pos" by auto
  then have "wf (dep_rel g)" by (rule wf_subset [OF wf_measure])
  then show ?thesis by (rule wf_acyclic)
qed

lemma ResolveTopologicalSort_cases:
  assumes wf: "graph_wf g" and o2: "mset o2 = mset (map fst g)" and o3: "mset o3 = mset (map fst g)"
  shows "\<exists>P s. kahn_inv g P s \<and> k_queue s = [] \<and>
    ResolveTopologicalSort g o2 o3 =
      Some (if set P = keys g then Inr (k_ordered s) else Inl (ErrCyclicDependency (length P) (length g))) \<and>
    (set P \<noteq> keys g \<longrightarrow> length P < length g)"
proof -
  let ?adj = "snd (build_tables g o2 (\<lambda>_. 0, \<lambda>_. []))"
  obtain P s where s: "kahn_loop g ?adj (kahn_init g o2 o3) = Some s" "kahn_inv g P s" "k_queue s = []"
    using kahn_loop_ends [OF kahn_inv_init(1) kahn_inv_init(2), OF assms assms] by blast
  have P: "distinct P" "set P \<subseteq> keys g" using s(2) by (auto simp: kahn_inv_def)
  have card: "card (keys g) = length g"
    using wf by (metis distinct_card graph_wf_def keys_def length_map list.set_map)
  have eq: "length P = length g \<longleftrightarrow> set P = keys g"
    using P card card_subset_eq [of "keys g" "set P"] distinct_card [OF P(1)] by (auto simp: keys_def)
  have "ResolveTopologicalSort g o2 o3 =
      Some (if set P = keys g then Inr (k_ordered s) else Inl (ErrCyclicDependency (length P) (length g)))"
    using s(1) kahn_inv_length(2) [OF s(2)] eq by (simp add: ResolveTopologicalSort_def)
  moreover have "length P < length g" if "set P \<noteq> keys g"
    using that eq kahn_inv_length(1) [OF s(2)] card s(3) by auto
  ultimately show ?thesis using s(2,3) by blast
qed

lemma keys_NewDependencyGraph: "keys (NewDependencyGraph specs) = spec_Name ` set specs"
proof -
  have "keys (fold (\<lambda>spec g. AList.update (spec_Name spec) spec g) specs g) = spec_Name ` set specs \<union> keys g" for g
    by (induction specs arbitrary: g) (auto simp: keys_def dom_update)
  then show ?thesis by (simp add: NewDependencyGraph_def keys_def)
qed

lemma kahn_inv_ordered:
  assumes wf: "graph_wf g" and inv: "kahn_inv g P s" and all: "set P = keys g"
  shows "mset (k_ordered s) = mset (map snd g)" and "map spec_Name (k_ordered s) = P"
    and "\<And>t. t \<in> set (k_ordered s) \<Longrightarrow> map_of g (spec_Name t) = Some t"
proof -
  have ord: "k_ordered s = map (\<lambda>n. the (map_of g n)) P" and dist: "distinct P"
    using inv by (auto simp: kahn_inv_def)
  have look: "map_of g n = Some (the (map_of g n))" if "n \<in> set P" for n
    using that all by (auto simp: in_keys_iff)
  have "mset P = mset (map fst g)"
    using wf dist all by (metis graph_wf_def keys_def list.set_map set_eq_iff_mset_eq_distinct)
  then have "mset (k_ordered s) = image_mset (\<lambda>n. the (map_of g n)) (mset (map fst g))"
    by (simp add: ord)
  also have "\<dots> = mset (map (\<lambda>(k, v). the (map_of g k)) g)"
    by (simp add: case_prod_beta' image_mset.compositionality comp_def)
  also have "map (\<lambda>(k, v). the (map_of g k)) g = map snd g"
    using wf by (auto simp: graph_wf_def)
  finally show "mset (k_ordered s) = mset (map snd g)" .
  show "map spec_Name (k_ordered s) = P"
    unfolding ord map_map comp_def
    by (rule map_idI) (use look graph_wf_lookup [OF wf] in blast)
  show "map_of g (spec_Name t) = Some t" if "t \<in> set (k_ordered s)" for t
    using that look graph_wf_lookup [OF wf] by (auto simp: ord)
qed

lemma deps_of_spec: "map_of g n = Some t \<Longrightarrow> d \<in> set (spec_After t) \<Longrightarrow> d \<in> keys g \<Longrightarrow> d \<in> set (deps g n)"
  by (simp add: deps_def in_keys_iff)

lemma graph_names: "spec_Name ` snd ` set (NewDependencyGraph specs) = spec_Name ` set specs"
proof -
  have "spec_Name ` snd ` set g = keys g" if "graph_wf g" for g
    using that by (force simp: graph_wf_def keys_def image_image)
  then show ?thesis
    using graph_wf_NewDependencyGraph [of specs] keys_NewDependencyGraph [of specs] by simp
qed

lemma topological_sound:
  assumes o2: "mset o2 = mset (map fst (NewDependencyGraph specs))"
    and o3: "mset o3 = mset (map fst (NewDependencyGraph specs))"
    and res: "ResolveTopologicalSort (NewDependencyGraph specs) o2 o3 = Some (Inr ordered)"
  shows "mset ordered = mset (map snd (NewDependencyGraph specs)) \<and>
    (\<forall>t \<in> set ordered. \<forall>d \<in> set (spec_After t).
       d \<in> spec_Name ` set specs \<longrightarrow> precedes d (spec_Name t) (map spec_Name ordered))"
proof -
  let ?g = "NewDependencyGraph specs"
  note wf = graph_wf_NewDependencyGraph [of specs]
  obtain P s where inv: "kahn_inv ?g P s" and r: "ResolveTopologicalSort ?g o2 o3 =
      Some (if set P = keys ?g then Inr (k_ordered s) else Inl (ErrCyclicDependency (length P) (length ?g)))"
    using ResolveTopologicalSort_cases [OF wf o2 o3] by blast
  from r res have P: "set P = keys ?g" and ord: "ordered = k_ordered s"
    by (simp_all split: if_splits)
  note facts = kahn_inv_ordered [OF wf inv P]
  have "precedes d (spec_Name t) P"
    if t: "t \<in> set (k_ordered s)" and d: "d \<in> set (spec_After t)" "d \<in> keys ?g" for t d
    using deps_of_spec [OF facts(3) [OF t] d] inv P facts(3) [OF t]
    by (auto simp: kahn_inv_def in_keys_iff)
  then show ?thesis using facts by (auto simp: ord keys_NewDependencyGraph)
qed

subsection \<open>Properties\<close>

text \<open>
  C2. Whatever the iteration order of Go's maps, an order that \<open>ResolveTopologicalSort\<close> returns
  holds every service exactly once, and every service stands after each of its \<open>After\<close>
  dependencies that is a known service.
\<close>

theorem topological_order_sound:
  assumes o2: "mset o2 = mset (map fst (NewDependencyGraph specs))"
    and o3: "mset o3 = mset (map fst (NewDependencyGraph specs))"
    and res: "ResolveTopologicalSort (NewDependencyGraph specs) o2 o3 = Some (Inr ordered)"
  shows "mset ordered = mset (map snd (NewDependencyGraph specs)) \<and>
    (\<forall>t \<in> set ordered. \<forall>d \<in> set (spec_After t).
       d \<in> spec_Name ` set specs \<longrightarrow> precedes d (spec_Name t) (map spec_Name ordered))"
  using assms by (rule topological_sound)

text \<open>
  C15. \<open>ResolveTopologicalSort\<close> always ends; it returns an order exactly when the dependency
  relation among the known services is acyclic, and otherwise the cyclic-dependency error with
  the number of services it could place, which is smaller than the number of services.
\<close>

theorem topological_order_complete:
  assumes o2: "mset o2 = mset (map fst (NewDependencyGraph specs))"
    and o3: "mset o3 = mset (map fst (NewDependencyGraph specs))"
  shows "if acyclic (dep_rel (NewDependencyGraph specs))
     then \<exists>ordered. ResolveTopologicalSort (NewDependencyGraph specs) o2 o3 = Some (Inr ordered)
     else \<exists>k < length (NewDependencyGraph specs).
       ResolveTopologicalSort (NewDependencyGraph specs) o2 o3 =
         Some (Inl (ErrCyclicDependency k (length (NewDependencyGraph specs))))"
proof -
  let ?g = "NewDependencyGraph specs"
  obtain P s where inv: "kahn_inv ?g P s" and q: "k_queue s = []"
    and res: "ResolveTopologicalSort ?g o2 o3 =
      Some (if set P = keys ?g then Inr (k_ordered s) else Inl (ErrCyclicDependency (length P) (length ?g)))"
    and short: "set P \<noteq> keys ?g \<Longrightarrow> length P < length ?g"
    using ResolveTopologicalSort_cases [OF graph_wf_NewDependencyGraph o2 o3] by blast
  have "acyclic (dep_rel ?g) \<longleftrightarrow> set P = keys ?g"
    using leftover_not_acyclic [OF inv q] ordered_acyclic [OF inv] by blast
  with res short show ?thesis by auto
qed

text \<open>Two small configurations: a chain with a dependency on an unknown service, and a cycle.\<close>

definition example_service :: "string \<Rightarrow> string list \<Rightarrow> ServiceSpec" where
  "example_service name after = default_spec\<lparr>spec_Name := name, spec_Exec := ''/bin/app'', spec_After := after\<rparr>"

definition example_chain :: "ServiceSpec list" where
  "example_chain = [example_service ''web'' [''db'', ''syslog''], example_service ''db'' []]"

definition example_cycle :: "ServiceSpec list" where
  "example_cycle = [example_service ''a'' [''b''], example_service ''b'' [''a''], example_service ''c'' []]"

lemmas graph_eval = NewDependencyGraph_def ResolveTopologicalSort_def kahn_loop_def kahn_init_def
  kahn_step_def while_option_unfold example_service_def example_chain_def example_cycle_def Let_def

theorem topological_order_sound_witness:
  "precedes ''db'' ''web'' (map spec_Name [example_service ''db'' [], example_service ''web'' [''db'', ''syslog'']])"
proof -
  let ?r = "[example_service ''db'' [], example_service ''web'' [''db'', ''syslog'']]"
  have m: "mset [''web'', ''db''] = mset (map fst (NewDependencyGraph example_chain))"
    by (simp add: graph_eval)
  have "ResolveTopologicalSort (NewDependencyGraph example_chain) [''web'', ''db''] [''web'', ''db''] = Some (Inr ?r)"
    by (simp add: graph_eval)
  from topological_order_sound [OF m m this] show ?thesis
    by (simp add: example_chain_def example_service_def)
qed

theorem topological_order_complete_witness:
  "\<exists>k < 3. ResolveTopologicalSort (NewDependencyGraph example_cycle) [''a'', ''b'', ''c''] [''c'', ''b'', ''a''] =
     Some (Inl (ErrCyclicDependency k 3))"
proof -
  have m: "mset [''a'', ''b'', ''c''] = mset (map fst (NewDependencyGraph example_cycle))"
    "mset [''c'', ''b'', ''a''] = mset (map fst (NewDependencyGraph example_cycle))"
    by (simp_all add: graph_eval)
  have e: "(''a'', ''b'') \<in> dep_rel (NewDependencyGraph example_cycle)"
    "(''b'', ''a'') \<in> dep_rel (NewDependencyGraph example_cycle)"
    by (simp_all add: dep_rel_def deps_def graph_eval)
  then have "\<not> acyclic (dep_rel (NewDependencyGraph example_cycle))"
    by (meson acyclic_def trancl.simps)
  moreover have "length (NewDependencyGraph example_cycle) = 3" by (simp add: graph_eval)
  ultimately show ?thesis using topological_order_complete [OF m] by simp
qed

end
