(* ===== verification/SvcBridge.thy ===== *)
theory SvcBridge
  imports SvcSupervisor SvcBundle VsockServer SvcGraph
begin

text \<open>
  The two implementations of \<open>ServiceProvider\<close>: \<open>supervisorBridge\<close> in \<open>cmd/karim-svcd/main.go\<close> and
  \<open>svcdBridge\<close> in \<open>cmd/karim-vsockd/main.go\<close>, with the supervisor's boot sequence, its reaper of
  child processes and its shutdown.

  The state is the map of managed services together with the effects other parts can see: the
  files written to persist services, the calls to freeze and thaw the guest and the signals sent to
  processes. What the system
  answers while an operation runs is the record \<open>bridge_env\<close>. Go leaves the order of a \<open>range\<close> over a
  map open: \<open>be_order\<close> is the order of the keys. A service that is replaced keeps no trace in the
  map; its monitor is that of theory \<open>SvcSupervisor\<close>.
\<close>

datatype guest_call = GuestFreeze string | GuestThaw string | GuestReseed | GuestSyncRTC | GuestSync

record bridge =
  br_services :: "string \<rightharpoonup> ManagedService"
  br_files :: "(string \<times> string) list"
  br_guest :: "guest_call list"
  br_signals :: "proc_signal list"

definition empty_bridge :: bridge where
  "empty_bridge = \<lparr>br_services = Map.empty, br_files = [], br_guest = [], br_signals = []\<rparr>"

record bridge_env =
  be_fl :: float_ops
  be_cg :: "cg_call world"
  be_start :: start_env
  be_fails :: "int \<Rightarrow> bool"
  be_pf :: "string \<Rightarrow> (string, float64) result"
  be_decode :: "string \<Rightarrow> (string, OCIContainerBundle) result"
  be_untar :: "bytes \<Rightarrow> tar_entry list \<times> string option"
  be_view :: st_view
  be_stw :: "st_call world"
  be_order :: "(string \<rightharpoonup> ManagedService) \<Rightarrow> string list"
  be_readdir :: "string \<Rightarrow> read_dir_result"
  be_readfile :: "string \<Rightarrow> (string, bytes) result"

fun sup_error_text :: "sup_error \<Rightarrow> string" where
  "sup_error_text (AlreadyRunning n) = ''service '' @ n @ '' is already running''"
| "sup_error_text (ExecutableNotFound p) =
     ''executable '' @ Quote p @ '' not found on rootfs (import container layer via '' @ [squote] @ ''karim import'' @ [squote] @ '')''"
| "sup_error_text (StdoutPipeFailed n e) = ''failed stdout pipe for '' @ n @ '': '' @ e"
| "sup_error_text (StderrPipeFailed n e) = ''failed stderr pipe for '' @ n @ '': '' @ e"
| "sup_error_text (StartFailed n e) = ''failed to start service process '' @ n @ '': '' @ e"

definition service_info :: "ManagedService \<Rightarrow> ServiceInfo" where
  "service_info ms =
     \<lparr>si_Name = spec_Name (ms_Spec ms), si_State = ProcessState_String (ms_State ms),
      si_PID = (case ms_Cmd ms of Some (c, pid) \<Rightarrow> pid | None \<Rightarrow> 0),
      si_Exec = spec_Exec (ms_Spec ms), si_MemoryLimit = spec_MemoryLimit (ms_Spec ms),
      si_CPUQuota = spec_CPUQuota (ms_Spec ms), si_Restart = spec_Restart (ms_Spec ms),
      si_SeccompProfile = spec_SeccompProfile (ms_Spec ms), si_After = spec_After (ms_Spec ms)\<rparr>"

definition list_infos :: "bridge_env \<Rightarrow> bridge \<Rightarrow> ServiceInfo list" where
  "list_infos env b = map service_info (List.map_filter (br_services b) (be_order env (br_services b)))"

text \<open>Starting and stopping the service registered under a name.\<close>

definition start_named :: "bridge_env \<Rightarrow> string \<Rightarrow> ManagedService \<Rightarrow> bridge \<Rightarrow> sup_error option \<times> bridge" where
  "start_named env name ms b =
     (case fst (Start (be_fl env) (be_cg env) (be_start env) ms []) of
        (r, ms') \<Rightarrow> (r, b\<lparr>br_services := (br_services b)(name \<mapsto> ms')\<rparr>))"

definition stop_named :: "bridge_env \<Rightarrow> string \<Rightarrow> bridge \<Rightarrow> bridge" where
  "stop_named env name b =
     (case br_services b name of
        None \<Rightarrow> b
      | Some ms \<Rightarrow> (case Stop (be_fails env) ms of (ms', sigs) \<Rightarrow>
          b\<lparr>br_services := (br_services b)(name \<mapsto> ms'), br_signals := br_signals b @ sigs\<rparr>))"

text \<open>Replacing a service: a service of that name is stopped, the new one registered and started.\<close>

definition replace_and_start :: "bridge_env \<Rightarrow> ManagedService \<Rightarrow> bridge \<Rightarrow> sup_error option \<times> bridge" where
  "replace_and_start env ms b =
     (let name = spec_Name (ms_Spec ms) in start_named env name ms (stop_named env name b))"

definition call_result :: "sup_error option \<Rightarrow> call_error option" where
  "call_result r = map_option (\<lambda>e. CallFailed (sup_error_text e)) r"

subsection \<open>The supervisor's bridge\<close>

definition not_found :: "string \<Rightarrow> string" where
  "not_found name = ''service '' @ name @ '' not found''"

definition sb_StartService :: "bridge_env \<Rightarrow> string \<Rightarrow> bridge \<Rightarrow> call_error option \<times> bridge" where
  "sb_StartService env name b =
     (case br_services b name of
        None \<Rightarrow> (Some (CallFailed (not_found name)), b)
      | Some ms \<Rightarrow> (case start_named env name ms b of (r, b') \<Rightarrow> (call_result r, b')))"

definition sb_StopService :: "bridge_env \<Rightarrow> string \<Rightarrow> bridge \<Rightarrow> call_error option \<times> bridge" where
  "sb_StopService env name b =
     (case br_services b name of
        None \<Rightarrow> (Some (CallFailed (not_found name)), b)
      | Some ms \<Rightarrow> (None, stop_named env name b))"

definition sb_GetServiceLogs :: "string \<Rightarrow> bridge \<Rightarrow> (call_error, string) result \<times> bridge" where
  "sb_GetServiceLogs name b =
     (case br_services b name of
        None \<Rightarrow> (Inl (CallFailed (not_found name)), b)
      | Some ms \<Rightarrow> (Inr (''[karim-svcd | '' @ name @ ''] Active service status: '' @
                       ProcessState_String (ms_State ms) @ [CHR 0x0A]), b))"

text \<open>The errors of freezing, thawing, reseeding and clock synchronisation are only printed.\<close>

definition sb_Quiesce :: "bridge \<Rightarrow> call_error option \<times> bridge" where
  "sb_Quiesce b = (None, b\<lparr>br_guest := br_guest b @ [GuestFreeze ''/'']\<rparr>)"

definition sb_Unquiesce :: "bridge \<Rightarrow> call_error option \<times> bridge" where
  "sb_Unquiesce b = (None, b\<lparr>br_guest := br_guest b @ [GuestThaw ''/'', GuestReseed, GuestSyncRTC]\<rparr>)"

definition new_cgm :: "bridge_env \<Rightarrow> CGroupManager option" where
  "new_cgm env = (case NewCGroupManager (be_cg env) [] of (None, _) \<Rightarrow> Some CGroupBaseDir | (Some e, _) \<Rightarrow> None)"

definition defaultServiceDir :: string where
  "defaultServiceDir = ''/etc/karim/services''"

definition persist_path :: "string \<Rightarrow> string" where
  "persist_path name = Join_path [defaultServiceDir, name @ ''.toml'']"

definition sb_LoadService :: "bridge_env \<Rightarrow> string \<Rightarrow> bridge \<Rightarrow> call_error option \<times> bridge" where
  "sb_LoadService env configTOML b =
     (case ParseServiceSpecFromBytes (be_pf env) configTOML of
        Inl PanicSliceBounds \<Rightarrow> (Some CallPanic, b)
      | Inl e \<Rightarrow> (Some (CallFailed (''failed to parse service TOML payload: '' @ config_error_text e)), b)
      | Inr spec \<Rightarrow>
          (case replace_and_start env (NewManagedService spec (new_cgm env)) b of
             (Some e, b') \<Rightarrow>
               (Some (CallFailed (''failed to start hot-loaded service '' @ spec_Name spec @ '': '' @ sup_error_text e)), b')
           | (None, b') \<Rightarrow>
               (None, b'\<lparr>br_files := br_files b' @ [(persist_path (spec_Name spec), configTOML)]\<rparr>)))"

fun bundle_error_text :: "bundle_error \<Rightarrow> string" where
  "bundle_error_text (BundleJSON e) = ''failed to unmarshal OCI bundle JSON: '' @ e"
| "bundle_error_text BundleNoID = ''bundle_id cannot be empty''"
| "bundle_error_text (LayerDirFailed d e) = ''failed creating layer dir '' @ d @ '': '' @ e"
| "bundle_error_text (ExtractFailed i e) = ''failed extracting rootfs tarball for container '' @ i @ '': '' @ e"
| "bundle_error_text (OverlayFailed i e) = ''failed mounting dynamic overlay for bundle '' @ i @ '': '' @ st_error_text e"

definition prepare_bundle :: "bridge_env \<Rightarrow> string \<Rightarrow> (bundle_error, ServiceSpec) result" where
  "prepare_bundle env json =
     fst (ParseAndPrepareOCIBundle (be_decode env) (be_untar env) (be_view env) (be_stw env) json [])"

definition sb_ApplyBundle :: "bridge_env \<Rightarrow> string \<Rightarrow> bridge \<Rightarrow> call_error option \<times> bridge" where
  "sb_ApplyBundle env bundleJSON b =
     (case prepare_bundle env bundleJSON of
        Inl e \<Rightarrow> (Some (CallFailed (''failed to prepare OCI bundle: '' @ bundle_error_text e)), b)
      | Inr spec \<Rightarrow>
          (case replace_and_start env (NewManagedService spec (new_cgm env)) b of
             (Some e, b') \<Rightarrow>
               (Some (CallFailed (''failed to start dynamic OCI container bundle '' @ spec_Name spec @ '': '' @ sup_error_text e)), b')
           | (None, b') \<Rightarrow> (None, b')))"

definition supervisorBridge :: "bridge_env \<Rightarrow> bridge ServiceProvider" where
  "supervisorBridge env =
     \<lparr>prov_ListServices = (\<lambda>b. (Inr (list_infos env b), b)), prov_StartService = sb_StartService env,
      prov_StopService = sb_StopService env, prov_GetServiceLogs = sb_GetServiceLogs,
      prov_Quiesce = sb_Quiesce, prov_Unquiesce = sb_Unquiesce,
      prov_LoadService = sb_LoadService env, prov_ApplyBundle = sb_ApplyBundle env\<rparr>"

subsection \<open>The bridge of karim-vsockd\<close>

definition reload_one :: "CGroupManager option \<Rightarrow> ServiceSpec \<Rightarrow> (string \<rightharpoonup> ManagedService) \<Rightarrow> (string \<rightharpoonup> ManagedService)" where
  "reload_one cgm spec m =
     (case m (spec_Name spec) of
        None \<Rightarrow> m(spec_Name spec \<mapsto> NewManagedService spec cgm)
      | Some ms \<Rightarrow> m(spec_Name spec \<mapsto> ms\<lparr>ms_Spec := spec\<rparr>))"

definition reloadSpecs :: "bridge_env \<Rightarrow> string \<Rightarrow> CGroupManager option \<Rightarrow> bridge \<Rightarrow> (call_error, unit) result \<times> bridge" where
  "reloadSpecs env serviceDir cgm b =
     (case LoadServiceDir (be_pf env) (be_readdir env) (be_readfile env) serviceDir of
        Inl PanicSliceBounds \<Rightarrow> (Inl CallPanic, b)
      | Inl e \<Rightarrow> (Inr (), b)
      | Inr specs \<Rightarrow> (Inr (), b\<lparr>br_services := fold (reload_one cgm) specs (br_services b)\<rparr>))"

definition newSvcdBridge :: "bridge_env \<Rightarrow> string \<Rightarrow> (call_error, unit) result \<times> bridge" where
  "newSvcdBridge env serviceDir = reloadSpecs env serviceDir (new_cgm env) empty_bridge"

definition not_found_quoted :: "string \<Rightarrow> string" where
  "not_found_quoted name = ''service '' @ Quote name @ '' not found''"

definition vb_StartService :: "bridge_env \<Rightarrow> string \<Rightarrow> bridge \<Rightarrow> call_error option \<times> bridge" where
  "vb_StartService env name b =
     (case br_services b name of
        None \<Rightarrow> (Some (CallFailed (not_found_quoted name)), b)
      | Some ms \<Rightarrow> (case start_named env name ms b of (r, b') \<Rightarrow> (call_result r, b')))"

definition vb_StopService :: "bridge_env \<Rightarrow> string \<Rightarrow> bridge \<Rightarrow> call_error option \<times> bridge" where
  "vb_StopService env name b =
     (case br_services b name of
        None \<Rightarrow> (Some (CallFailed (not_found_quoted name)), b)
      | Some ms \<Rightarrow> (None, stop_named env name b))"

definition vb_GetServiceLogs :: "string \<Rightarrow> bridge \<Rightarrow> (call_error, string) result \<times> bridge" where
  "vb_GetServiceLogs name b =
     (case br_services b name of
        None \<Rightarrow> (Inl (CallFailed (not_found_quoted name)), b)
      | Some ms \<Rightarrow> (Inr (''[vsockd] Active service telemetry log buffer for '' @ name @ [CHR 0x0A]), b))"

definition vb_Quiesce :: "bridge \<Rightarrow> call_error option \<times> bridge" where
  "vb_Quiesce b = (None, b\<lparr>br_guest := br_guest b @ [GuestSync]\<rparr>)"

definition vb_Unquiesce :: "bridge \<Rightarrow> call_error option \<times> bridge" where
  "vb_Unquiesce b = (None, b)"

definition vb_LoadService :: "bridge_env \<Rightarrow> CGroupManager option \<Rightarrow> string \<Rightarrow> bridge \<Rightarrow> call_error option \<times> bridge" where
  "vb_LoadService env cgm configTOML b =
     (case ParseServiceSpecFromBytes (be_pf env) configTOML of
        Inl PanicSliceBounds \<Rightarrow> (Some CallPanic, b)
      | Inl e \<Rightarrow> (Some (CallFailed (''failed to parse service TOML payload: '' @ config_error_text e)), b)
      | Inr spec \<Rightarrow>
          (case replace_and_start env (NewManagedService spec cgm) b of (r, b') \<Rightarrow> (call_result r, b')))"

definition vb_ApplyBundle :: "bridge_env \<Rightarrow> CGroupManager option \<Rightarrow> string \<Rightarrow> bridge \<Rightarrow> call_error option \<times> bridge" where
  "vb_ApplyBundle env cgm bundleJSON b =
     (case prepare_bundle env bundleJSON of
        Inl e \<Rightarrow> (Some (CallFailed (''failed to prepare OCI bundle: '' @ bundle_error_text e)), b)
      | Inr spec \<Rightarrow>
          (case replace_and_start env (NewManagedService spec cgm) b of (r, b') \<Rightarrow> (call_result r, b')))"

definition svcdBridge :: "bridge_env \<Rightarrow> string \<Rightarrow> CGroupManager option \<Rightarrow> bridge ServiceProvider" where
  "svcdBridge env serviceDir cgm =
     \<lparr>prov_ListServices = (\<lambda>b. case reloadSpecs env serviceDir cgm b of
          (Inl e, b') \<Rightarrow> (Inl e, b') | (Inr _, b') \<Rightarrow> (Inr (list_infos env b'), b')),
      prov_StartService = vb_StartService env, prov_StopService = vb_StopService env,
      prov_GetServiceLogs = vb_GetServiceLogs, prov_Quiesce = vb_Quiesce, prov_Unquiesce = vb_Unquiesce,
      prov_LoadService = vb_LoadService env cgm, prov_ApplyBundle = vb_ApplyBundle env cgm\<rparr>"

subsection \<open>Boot, reaping and shutdown of the supervisor\<close>

text \<open>The start loop of \<open>main\<close>: errors of single services are only printed.\<close>

definition boot_one :: "bridge_env \<Rightarrow> CGroupManager option \<Rightarrow> ServiceSpec \<Rightarrow> bridge \<Rightarrow> bridge" where
  "boot_one env cgm spec b = snd (start_named env (spec_Name spec) (NewManagedService spec cgm) b)"

datatype boot_outcome = BootExit nat | BootPanic | BootRunning bridge "ServiceSpec list"

definition svcd_boot ::
  "bridge_env \<Rightarrow> string \<Rightarrow> string list \<Rightarrow> string list \<Rightarrow> boot_outcome option"
where
  "svcd_boot env serviceDir o2 o3 =
     (let cgm = new_cgm env;
          loaded = LoadServiceDir (be_pf env) (be_readdir env) (be_readfile env) serviceDir;
          specs = (case loaded of Inl e \<Rightarrow> [] | Inr specs \<Rightarrow> specs)
      in if loaded = Inl PanicSliceBounds then Some BootPanic
         else if specs = [] then Some (BootRunning empty_bridge [])
         else map_option
                (\<lambda>r. case r of
                       Inl e \<Rightarrow> BootExit 1
                     | Inr ordered \<Rightarrow> BootRunning (fold (boot_one env cgm) ordered empty_bridge) ordered)
                (ResolveTopologicalSort (NewDependencyGraph specs) o2 o3))"

text \<open>A reaped child: its pid and how it ended.\<close>

datatype wait_status = Exited int | Signaled int

definition status_code :: "wait_status \<Rightarrow> int" where
  "status_code st = (case st of Exited c \<Rightarrow> c | Signaled s \<Rightarrow> 128 + s)"

definition has_pid :: "int \<Rightarrow> ManagedService \<Rightarrow> bool" where
  "has_pid pid ms \<longleftrightarrow> (case ms_Cmd ms of Some (c, p) \<Rightarrow> p = pid | None \<Rightarrow> False)"

definition reap_child :: "bridge_env \<Rightarrow> int \<times> wait_status \<Rightarrow> bridge \<Rightarrow> bridge" where
  "reap_child env child b =
     (case child of (pid, st) \<Rightarrow>
        (case filter (\<lambda>n. case br_services b n of Some ms \<Rightarrow> has_pid pid ms | None \<Rightarrow> False) (be_order env (br_services b)) of
           [] \<Rightarrow> b
         | n # ns \<Rightarrow> b\<lparr>br_services := (br_services b)(n \<mapsto> RecordExitStatus (status_code st) (the (br_services b n)))\<rparr>))"

text \<open>The loop on SIGCHLD: \<open>Wait4\<close> returns children until it has none.\<close>

definition on_sigchld :: "bridge_env \<Rightarrow> (int \<times> wait_status) list \<Rightarrow> bridge \<Rightarrow> bridge" where
  "on_sigchld env children b = fold (reap_child env) children b"

definition shutdown :: "bridge_env \<Rightarrow> bridge \<Rightarrow> bridge" where
  "shutdown env b = fold (stop_named env) (be_order env (br_services b)) b"

subsection \<open>The registry\<close>

text \<open>Every service is registered under its own name, and a running service has a process.\<close>

definition service_ok :: "string \<Rightarrow> ManagedService \<Rightarrow> bool" where
  "service_ok n ms \<longleftrightarrow> spec_Name (ms_Spec ms) = n \<and> (ms_State ms = StateRunning \<longrightarrow> ms_Cmd ms \<noteq> None)"

definition bridge_inv :: "bridge \<Rightarrow> bool" where
  "bridge_inv b \<longleftrightarrow> (\<forall>n ms. br_services b n = Some ms \<longrightarrow> service_ok n ms)"

lemma service_ok_new [simp]: "service_ok n (NewManagedService spec cgm) \<longleftrightarrow> spec_Name spec = n"
  by (simp add: service_ok_def NewManagedService_def)

lemma service_ok_Start: "service_ok n ms \<Longrightarrow> service_ok n (snd (fst (Start fl w env ms tr)))"
  using Start_running_cmd [of ms fl w env tr] by (simp add: service_ok_def)

lemma service_ok_Stop: "service_ok n ms \<Longrightarrow> service_ok n (fst (Stop fails ms))"
  by (auto simp: service_ok_def Stop_def split: option.splits)

lemma start_named_inv:
  "bridge_inv b \<Longrightarrow> service_ok n ms \<Longrightarrow> bridge_inv (snd (start_named env n ms b))"
  using service_ok_Start [of n ms "be_fl env" "be_cg env" "be_start env" "[]"]
  by (auto simp: start_named_def bridge_inv_def split: prod.split)

lemma stop_named_inv: "bridge_inv b \<Longrightarrow> bridge_inv (stop_named env n b)"
  using service_ok_Stop [of n _ "be_fails env"]
  by (auto simp: stop_named_def bridge_inv_def split: option.split prod.split) (metis fst_conv)

lemma replace_and_start_inv:
  "bridge_inv b \<Longrightarrow> bridge_inv (snd (replace_and_start env (NewManagedService spec cgm) b))"
  unfolding replace_and_start_def Let_def
  by (intro start_named_inv stop_named_inv) (simp_all add: NewManagedService_def service_ok_def)

lemma bridge_inv_frame [simp]:
  "bridge_inv (b\<lparr>br_files := f\<rparr>) = bridge_inv b" "bridge_inv (b\<lparr>br_guest := g\<rparr>) = bridge_inv b"
  by (simp_all add: bridge_inv_def)

lemma reload_fold_inv:
  "\<forall>n ms. m n = Some ms \<longrightarrow> service_ok n ms \<Longrightarrow>
     \<forall>n ms. fold (reload_one cgm) specs m n = Some ms \<longrightarrow> service_ok n ms"
proof (induction specs arbitrary: m)
  case (Cons spec specs)
  have "\<forall>n ms. reload_one cgm spec m n = Some ms \<longrightarrow> service_ok n ms"
    using Cons.prems by (auto simp: reload_one_def service_ok_def NewManagedService_def split: option.splits if_splits)
  then show ?case using Cons.IH by simp
qed simp

lemma reloadSpecs_inv: "bridge_inv b \<Longrightarrow> bridge_inv (snd (reloadSpecs env d cgm b))"
  using reload_fold_inv [of "br_services b" cgm]
  by (auto simp: reloadSpecs_def bridge_inv_def split: sum.split config_error.split)

lemma load_inv_cases:
  "bridge_inv b \<Longrightarrow> bridge_inv (snd (sb_LoadService env c b))"
  "bridge_inv b \<Longrightarrow> bridge_inv (snd (vb_LoadService env cgm c b))"
  using replace_and_start_inv [of b env]
  by (auto simp: sb_LoadService_def vb_LoadService_def split: sum.split config_error.split option.split prod.split)
    (metis snd_conv)+

lemma bundle_inv_cases:
  "bridge_inv b \<Longrightarrow> bridge_inv (snd (sb_ApplyBundle env c b))"
  "bridge_inv b \<Longrightarrow> bridge_inv (snd (vb_ApplyBundle env cgm c b))"
  using replace_and_start_inv [of b env]
  by (auto simp: sb_ApplyBundle_def vb_ApplyBundle_def split: sum.split option.split prod.split) (metis snd_conv)+

lemma start_inv_cases:
  assumes "bridge_inv b"
  shows "bridge_inv (snd (sb_StartService env n b))" "bridge_inv (snd (vb_StartService env n b))"
  using assms start_named_inv [OF assms, of n _ env]
  by (auto simp: sb_StartService_def vb_StartService_def bridge_inv_def [of b] split: option.split prod.split) (metis snd_conv)+

interpretation supervisor: registry_provider "supervisorBridge env" bridge_inv "\<lambda>b. dom (br_services b)" for env
  by unfold_locales
    (auto simp: supervisorBridge_def sb_StopService_def sb_GetServiceLogs_def sb_Quiesce_def sb_Unquiesce_def
      sb_StartService_def load_inv_cases bundle_inv_cases start_inv_cases [unfolded sb_StartService_def]
      intro: stop_named_inv split: option.split)

interpretation vsockd: registry_provider "svcdBridge env dir cgm" bridge_inv "\<lambda>b. dom (br_services b)" for env dir cgm
proof unfold_locales
  fix p
  assume "bridge_inv p"
  with reloadSpecs_inv [of p env dir cgm] show "bridge_inv (snd (prov_ListServices (svcdBridge env dir cgm) p))"
    by (auto simp: svcdBridge_def split: prod.split sum.split)
qed (auto simp: svcdBridge_def vb_StopService_def vb_GetServiceLogs_def vb_Quiesce_def vb_Unquiesce_def
      vb_StartService_def load_inv_cases bundle_inv_cases start_inv_cases [unfolded vb_StartService_def]
      intro: stop_named_inv split: option.split)

subsection \<open>Properties of the control plane\<close>


definition idle_env :: bridge_env where
  "idle_env = \<lparr>be_fl = no_floats, be_cg = all_ok, be_start = example_env 41, be_fails = (\<lambda>p. False), be_pf = (\<lambda>s. Inl []),
     be_decode = (\<lambda>j. Inl ''no json''), be_untar = (\<lambda>t. ([], None)), be_view = empty_view, be_stw = all_ok,
     be_order = (\<lambda>m. []), be_readdir = (\<lambda>d. DirNotExist), be_readfile = (\<lambda>f. Inl ''none'')\<rparr>"

lemma empty_bridge_inv: "bridge_inv empty_bridge"
  by (simp add: bridge_inv_def empty_bridge_def)


lemma hot_load_parsed:
  assumes "sb_LoadService env payload b = (None, b')"
  shows "\<exists>spec ms. ParseServiceSpecFromBytes (be_pf env) payload = Inr spec \<and>
    br_services b' (spec_Name spec) = Some ms \<and> ms_Spec ms = spec \<and> ms_State ms = StateRunning \<and>
    (\<forall>n. n \<noteq> spec_Name spec \<longrightarrow> br_services b' n = br_services b n) \<and>
    br_files b' = br_files b @ [(persist_path (spec_Name spec), payload)] \<and>
    ParseServiceConfig (be_pf env) (persist_path (spec_Name spec)) (Inr payload) = Inr spec"
proof -
  from assms obtain spec b1 where spec: "ParseServiceSpecFromBytes (be_pf env) payload = Inr spec"
    and rs: "replace_and_start env (NewManagedService spec (new_cgm env)) b = (None, b1)"
    and b': "b' = b1\<lparr>br_files := br_files b1 @ [(persist_path (spec_Name spec), payload)]\<rparr>"
    by (auto simp: sb_LoadService_def split: sum.splits config_error.splits prod.splits option.splits)
  let ?ms = "NewManagedService spec (new_cgm env)"
  obtain ms' where st: "fst (Start (be_fl env) (be_cg env) (be_start env) ?ms []) = (None, ms')"
    and b1: "b1 = (stop_named env (spec_Name spec) b)\<lparr>br_services := (br_services (stop_named env (spec_Name spec) b))(spec_Name spec \<mapsto> ms')\<rparr>"
    using rs by (auto simp: replace_and_start_def start_named_def NewManagedService_def Let_def split: prod.splits)
  have "ms_Spec ms' = spec \<and> ms_State ms' = StateRunning"
    using st by (cases rule: Start_cases [of ?ms "be_fl env" "be_cg env" "be_start env" "[]"])
      (auto simp: NewManagedService_def)
  moreover have "br_files (stop_named env (spec_Name spec) b) = br_files b"
    by (simp add: stop_named_def split: option.split prod.split)
  moreover have "br_services (stop_named env (spec_Name spec) b) n = br_services b n" if "n \<noteq> spec_Name spec" for n
    using that by (simp add: stop_named_def split: option.split prod.split)
  moreover have "ParseServiceConfig (be_pf env) p (Inr payload) = Inr spec" for p
    using spec payload_reads_back by blast
  ultimately show ?thesis using spec b' b1 by auto
qed


text \<open>C10: at boot, dependencies come first. When the services of the directory load and the
  supervisor reaches its main loop, it has registered exactly the services of the directory and
  started them one after the other in an order in which each one follows all services it names as
  dependencies.\<close>

theorem boot_dependencies_first:
  assumes "LoadServiceDir (be_pf env) (be_readdir env) (be_readfile env) dir = Inr specs" and "specs \<noteq> []"
    and "mset o2 = mset (map fst (NewDependencyGraph specs))" and "mset o3 = mset (map fst (NewDependencyGraph specs))"
    and "svcd_boot env dir o2 o3 = Some (BootRunning b ordered)"
  shows "b = fold (boot_one env (new_cgm env)) ordered empty_bridge \<and> bridge_inv b \<and>
    dom (br_services b) = spec_Name ` set specs \<and>
    (\<forall>t \<in> set ordered. \<forall>d \<in> set (spec_After t).
       d \<in> spec_Name ` set specs \<longrightarrow> precedes d (spec_Name t) (map spec_Name ordered))"
proof -
  from assms(1,2,5) have res: "ResolveTopologicalSort (NewDependencyGraph specs) o2 o3 = Some (Inr ordered)"
    and b: "b = fold (boot_one env (new_cgm env)) ordered empty_bridge"
  proof -
    obtain r where r: "ResolveTopologicalSort (NewDependencyGraph specs) o2 o3 = Some r"
      using assms(1,2,5) by (auto simp: svcd_boot_def)
    with assms(1,2,5) have "r = Inr ordered \<and> b = fold (boot_one env (new_cgm env)) ordered empty_bridge"
      by (cases r) (auto simp: svcd_boot_def)
    with r show "ResolveTopologicalSort (NewDependencyGraph specs) o2 o3 = Some (Inr ordered)"
      and "b = fold (boot_one env (new_cgm env)) ordered empty_bridge" by auto
  qed
  note sound = topological_sound [OF assms(3,4) res]
  have dom: "dom (br_services (fold (boot_one env cgm) ts b0)) = dom (br_services b0) \<union> spec_Name ` set ts" for cgm ts b0
    by (induction ts arbitrary: b0) (auto simp: boot_one_def start_named_def split: prod.split)
  have inv: "bridge_inv (fold (boot_one env cgm) ts b0)" if "bridge_inv b0" for cgm ts b0
    using that by (induction ts arbitrary: b0) (simp_all add: boot_one_def start_named_inv)
  have "set ordered = set (map snd (NewDependencyGraph specs))"
    using sound by (metis mset_eq_setD)
  then have "spec_Name ` set ordered = spec_Name ` set specs"
    using graph_names [of specs] by simp
  with sound b dom inv [OF empty_bridge_inv] show ?thesis by (simp add: empty_bridge_def)
qed

definition web_payload :: bytes where
  "web_payload = ''name = web'' @ [CHR 0x0A] @ ''exec = /bin/httpd'' @ [CHR 0x0A]"

definition web_spec :: ServiceSpec where
  "web_spec = default_spec\<lparr>spec_Name := ''web'', spec_Exec := ''/bin/httpd''\<rparr>"

lemma web_payload_parses: "ParseServiceSpecFromBytes (\<lambda>s. Inl []) web_payload = Inr web_spec"
  unfolding web_payload_def web_spec_def by (simp add: go_eval cong: strict_congs)

lemma web_starts: "\<exists>b'. replace_and_start idle_env (NewManagedService web_spec (new_cgm idle_env)) empty_bridge = (None, b')"
  by (simp add: replace_and_start_def stop_named_def empty_bridge_def start_named_def Start_def NewManagedService_def
      idle_env_def example_env_def resolve_exec_def web_spec_def default_spec_def Let_def)


theorem boot_dependencies_first_witness:
  "\<exists>b. svcd_boot (idle_env\<lparr>be_readdir := \<lambda>d. DirEntries [(''web.toml'', False)], be_readfile := \<lambda>f. Inr web_payload\<rparr>)
     ''/etc/karim/services'' [''web''] [''web''] = Some (BootRunning b [web_spec]) \<and> dom (br_services b) = {''web''}"
proof -
  let ?env = "idle_env\<lparr>be_readdir := \<lambda>d. DirEntries [(''web.toml'', False)], be_readfile := \<lambda>f. Inr web_payload\<rparr>"
  have "ParseServiceConfig (be_pf ?env) p (Inr web_payload) = Inr web_spec" for p
    using payload_reads_back [OF web_payload_parses] by (simp add: idle_env_def)
  moreover have "HasSuffix ''web.toml'' ''.toml''" by (simp add: HasSuffix_def)
  ultimately have load: "LoadServiceDir (be_pf ?env) (be_readdir ?env) (be_readfile ?env) ''/etc/karim/services'' = Inr [web_spec]"
    by (simp add: LoadServiceDir_def load_entry_def Let_def)
  have name: "spec_Name web_spec = ''web''" "spec_After web_spec = []" by (simp_all add: web_spec_def default_spec_def)
  have graph: "mset [''web''] = mset (map fst (NewDependencyGraph [web_spec]))"
    by (simp add: NewDependencyGraph_def name)
  have "ResolveTopologicalSort (NewDependencyGraph [web_spec]) [''web''] [''web''] = Some (Inr [web_spec])"
    by (simp add: graph_eval name)
  then obtain b where boot: "svcd_boot ?env ''/etc/karim/services'' [''web''] [''web''] = Some (BootRunning b [web_spec])"
    using load by (simp add: svcd_boot_def Let_def)
  with boot_dependencies_first [OF load _ graph graph boot] name show ?thesis by auto
qed

end
