(* ===== verification/VsockTransport.thy ===== *)
theory VsockTransport
  imports GoEffects GoStrings
begin

text \<open>
  \<open>internal/vsockd/transport.go\<close>: choosing a transport from an address string, and opening
  AF_VSOCK and Unix sockets. The kernel and package \<open>net\<close> are the environment; \<open>fd\<close> is the
  descriptor that \<open>socket\<close> returns when it succeeds. \<open>SFileClose\<close> is the deferred
  \<open>file.Close()\<close>, which closes the descriptor number the file was made from.
\<close>

definition DefaultVSockPort :: u32 where
  "DefaultVSockPort = 1024"

definition DefaultGuestCID :: u32 where
  "DefaultGuestCID = 3"

definition DefaultHostCID :: u32 where
  "DefaultHostCID = 2"

record VSockAddr =
  va_CID :: u32
  va_Port :: u32

definition VSockAddr_Network :: "VSockAddr \<Rightarrow> string" where
  "VSockAddr_Network a = ''vsock''"

definition VSockAddr_String :: "VSockAddr \<Rightarrow> string" where
  "VSockAddr_String a = show_nat (unat (va_CID a)) @ '':'' @ show_nat (unat (va_Port a))"

text \<open>
  The connection and listener types wrap those of package \<open>net\<close>, which are parameters: \<open>net_conn\<close> and
  \<open>net_listener\<close> hold their operations on a state \<open>'s\<close>; a deadline is a number of nanoseconds.
\<close>

record 's net_conn =
  nc_Read :: "nat \<Rightarrow> 's \<Rightarrow> (string, string) result \<times> 's"
  nc_Write :: "string \<Rightarrow> 's \<Rightarrow> (string, nat) result \<times> 's"
  nc_Close :: "'s \<Rightarrow> string option \<times> 's"
  nc_SetDeadline :: "int \<Rightarrow> 's \<Rightarrow> string option \<times> 's"
  nc_SetReadDeadline :: "int \<Rightarrow> 's \<Rightarrow> string option \<times> 's"
  nc_SetWriteDeadline :: "int \<Rightarrow> 's \<Rightarrow> string option \<times> 's"

record 's net_listener =
  nl_Accept :: "'s \<Rightarrow> (string, 's net_conn) result \<times> 's"
  nl_Close :: "'s \<Rightarrow> string option \<times> 's"

record 's VSockConn =
  vc_conn :: "'s net_conn"
  vc_laddr :: VSockAddr
  vc_raddr :: VSockAddr

definition VSockConn_Read :: "'s VSockConn \<Rightarrow> nat \<Rightarrow> 's \<Rightarrow> (string, string) result \<times> 's" where
  "VSockConn_Read c n = nc_Read (vc_conn c) n"

definition VSockConn_Write :: "'s VSockConn \<Rightarrow> string \<Rightarrow> 's \<Rightarrow> (string, nat) result \<times> 's" where
  "VSockConn_Write c b = nc_Write (vc_conn c) b"

definition VSockConn_Close :: "'s VSockConn \<Rightarrow> 's \<Rightarrow> string option \<times> 's" where
  "VSockConn_Close c = nc_Close (vc_conn c)"

definition VSockConn_SetDeadline :: "'s VSockConn \<Rightarrow> int \<Rightarrow> 's \<Rightarrow> string option \<times> 's" where
  "VSockConn_SetDeadline c = nc_SetDeadline (vc_conn c)"

definition VSockConn_SetReadDeadline :: "'s VSockConn \<Rightarrow> int \<Rightarrow> 's \<Rightarrow> string option \<times> 's" where
  "VSockConn_SetReadDeadline c = nc_SetReadDeadline (vc_conn c)"

definition VSockConn_SetWriteDeadline :: "'s VSockConn \<Rightarrow> int \<Rightarrow> 's \<Rightarrow> string option \<times> 's" where
  "VSockConn_SetWriteDeadline c = nc_SetWriteDeadline (vc_conn c)"

record 's VSockListener =
  vl_listener :: "'s net_listener"
  vl_addr :: VSockAddr

text \<open>\<open>cid_any\<close> is the constant \<open>VMADDR_CID_ANY\<close> of package \<open>unix\<close>: the peer of an accepted connection is not looked up.\<close>

definition VSockListener_Accept :: "u32 \<Rightarrow> 's VSockListener \<Rightarrow> 's \<Rightarrow> (string, 's VSockConn) result \<times> 's" where
  "VSockListener_Accept cid_any l s =
     (case nl_Accept (vl_listener l) s of
        (Inl e, s') \<Rightarrow> (Inl e, s')
      | (Inr c, s') \<Rightarrow> (Inr \<lparr>vc_conn = c, vc_laddr = vl_addr l, vc_raddr = \<lparr>va_CID = cid_any, va_Port = 0\<rparr>\<rparr>, s'))"

definition VSockListener_Close :: "'s VSockListener \<Rightarrow> 's \<Rightarrow> string option \<times> 's" where
  "VSockListener_Close l = nl_Close (vl_listener l)"

datatype sock_call =
    SSocket
  | SCloseOnExec nat
  | SBind nat u32
  | SListen nat nat
  | SConnect nat u32 u32
  | SFileListener nat
  | SFileConn nat
  | SClose nat
  | SFileClose nat
  | SRemove string
  | SListenUnix string
  | SChmod string nat
  | SCloseListener string
  | SNetDial string string

datatype sock_error =
    SocketFailed string
  | BindFailed u32 string
  | ListenFailed u32 string
  | NetpollFailed string
  | ConnectFailed u32 u32 string
  | ListenUnixFailed string
  | ChmodFailed string string
  | NetDialFailed string
  | InvalidVSockFormat string
  | InvalidCID string num_error
  | InvalidPort string num_error

text \<open>A step that on failure first closes the descriptor.\<close>

definition must_or_close :: "sock_call world \<Rightarrow> nat \<Rightarrow> sock_call \<Rightarrow> (string \<Rightarrow> sock_error) \<Rightarrow> (sock_call, sock_error) action" where
  "must_or_close w fd c mk tr =
     (case w tr c of None \<Rightarrow> (None, tr @ [c]) | Some e \<Rightarrow> (Some (mk e), tr @ [c, SClose fd]))"

definition ListenVSock :: "sock_call world \<Rightarrow> nat \<Rightarrow> u32 \<Rightarrow> (sock_call, sock_error) action" where
  "ListenVSock w fd port = steps
     [must w SSocket SocketFailed,
      attempt (SCloseOnExec fd),
      must_or_close w fd (SBind fd port) (BindFailed port),
      must_or_close w fd (SListen fd 128) (ListenFailed port),
      with_deferred (SFileClose fd) (must_or_close w fd (SFileListener fd) NetpollFailed)]"

definition DialVSock :: "sock_call world \<Rightarrow> nat \<Rightarrow> u32 \<Rightarrow> u32 \<Rightarrow> (sock_call, sock_error) action" where
  "DialVSock w fd cid port = steps
     [must w SSocket SocketFailed,
      attempt (SCloseOnExec fd),
      must_or_close w fd (SConnect fd cid port) (ConnectFailed cid port),
      with_deferred (SFileClose fd) (must_or_close w fd (SFileConn fd) NetpollFailed)]"

definition ListenUnix :: "sock_call world \<Rightarrow> string \<Rightarrow> (sock_call, sock_error) action" where
  "ListenUnix w socketPath = steps
     [attempt (SRemove socketPath),
      must w (SListenUnix socketPath) ListenUnixFailed,
      (\<lambda>tr. case w tr (SChmod socketPath 0x180) of
              None \<Rightarrow> (None, tr @ [SChmod socketPath 0x180])
            | Some e \<Rightarrow> (Some (ChmodFailed socketPath e), tr @ [SChmod socketPath 0x180, SCloseListener socketPath]))]"

definition DialUnix :: "sock_call world \<Rightarrow> string \<Rightarrow> (sock_call, sock_error) action" where
  "DialUnix w socketPath = must w (SNetDial ''unix'' socketPath) NetDialFailed"

definition Dial :: "sock_call world \<Rightarrow> nat \<Rightarrow> string \<Rightarrow> (sock_call, sock_error) action" where
  "Dial w fd address =
     (let addr = TrimSpace address
      in if HasPrefix addr ''vsock://'' then
           (case Split (TrimPrefix addr ''vsock://'') CHR '':'' of
              [p0, p1] \<Rightarrow>
                (case ParseUint10 32 p0 of
                   Inl e \<Rightarrow> fail (InvalidCID addr e)
                 | Inr cid \<Rightarrow>
                     (case ParseUint10 32 p1 of
                        Inl e \<Rightarrow> fail (InvalidPort addr e)
                      | Inr port \<Rightarrow> DialVSock w fd (word_of_nat cid) (word_of_nat port)))
            | _ \<Rightarrow> fail (InvalidVSockFormat addr))
         else if HasPrefix addr ''unix://'' then DialUnix w (TrimPrefix addr ''unix://'')
         else if HasPrefix addr ''/'' \<or> HasPrefix addr ''.'' then DialUnix w addr
         else if HasPrefix addr ''tcp://'' then must w (SNetDial ''tcp'' (TrimPrefix addr ''tcp://'')) NetDialFailed
         else must w (SNetDial ''tcp'' addr) NetDialFailed)"

definition IsVSockSupported :: "sock_call world \<Rightarrow> nat \<Rightarrow> sock_call list \<Rightarrow> bool \<times> sock_call list" where
  "IsVSockSupported w fd tr =
     (case w tr SSocket of Some e \<Rightarrow> (False, tr @ [SSocket]) | None \<Rightarrow> (True, tr @ [SSocket, SClose fd]))"

lemma show_nat_no_colon: "CHR '':'' \<notin> set (show_nat n)"
  using show_nat_digits [of n] by (auto simp: list_all_iff is_digit_def)

lemma TrimSpace_address: "TrimSpace (''vsock://'' @ show_nat c @ '':'' @ show_nat p) = ''vsock://'' @ show_nat c @ '':'' @ show_nat p"
proof (rule TrimSpace_id, rule disjI2, rule conjI)
  show "\<not> is_space (hd (''vsock://'' @ show_nat c @ '':'' @ show_nat p))" by (simp add: is_space_def)
  have "is_digit (last (show_nat p))" using show_nat_digits [of p] by (simp add: list_all_iff)
  moreover have "is_digit d \<Longrightarrow> \<not> is_space d" for d by (auto simp: is_digit_def is_space_def)
  ultimately show "\<not> is_space (last (''vsock://'' @ show_nat c @ '':'' @ show_nat p))" by simp
qed

text \<open>The printed form of a vsock address dials that address. For every context identifier and
  port, \<open>Dial\<close> on the scheme followed by \<open>VSockAddr.String\<close> connects to exactly this identifier and
  port; an address whose part after the scheme does not have exactly one colon is refused without
  any call.\<close>

theorem dial_printed_address:
  "Dial w fd (''vsock://'' @ VSockAddr_String a) = DialVSock w fd (va_CID a) (va_Port a) \<and>
   (HasPrefix (TrimSpace s) ''vsock://'' \<and> length (Split (TrimPrefix (TrimSpace s) ''vsock://'') CHR '':'') \<noteq> 2
      \<longrightarrow> Dial w fd s tr = (Some (InvalidVSockFormat (TrimSpace s)), tr))"
proof
  let ?s = "''vsock://'' @ show_nat (unat (va_CID a)) @ '':'' @ show_nat (unat (va_Port a))"
  have "HasPrefix ?s ''vsock://''" by (rule HasPrefix_append)
  moreover then have "TrimPrefix ?s ''vsock://'' = show_nat (unat (va_CID a)) @ CHR '':'' # show_nat (unat (va_Port a))"
    unfolding TrimPrefix_def by (simp only: if_True) simp
  moreover have "Split (show_nat (unat (va_CID a)) @ CHR '':'' # show_nat (unat (va_Port a))) CHR '':'' =
      [show_nat (unat (va_CID a)), show_nat (unat (va_Port a))]"
    by (simp add: Split_append_sep show_nat_no_colon Split_no_sep)
  moreover have "ParseUint10 32 (show_nat (unat v)) = Inr (unat v)" for v :: u32
    by (rule ParseUint10_show_nat) (use unsigned_less [of v, where ?'a = nat] in simp)
  ultimately show "Dial w fd (''vsock://'' @ VSockAddr_String a) = DialVSock w fd (va_CID a) (va_Port a)"
    unfolding Dial_def VSockAddr_String_def TrimSpace_address Let_def by simp
  show "HasPrefix (TrimSpace s) ''vsock://'' \<and> length (Split (TrimPrefix (TrimSpace s) ''vsock://'') CHR '':'') \<noteq> 2
      \<longrightarrow> Dial w fd s tr = (Some (InvalidVSockFormat (TrimSpace s)), tr)"
    by (auto simp: Dial_def Let_def fail_def split: list.splits)
qed

theorem dial_printed_address_witness:
  "Dial all_ok 7 ''vsock://3'' [] = (Some (InvalidVSockFormat ''vsock://3''), [])"
  using dial_printed_address [THEN conjunct2, of "''vsock://3''" all_ok 7 "[]"] by (simp add: go_eval)

subsection \<open>Descriptors\<close>

text \<open>How often the descriptor is closed by its number.\<close>

definition closes :: "nat \<Rightarrow> sock_call list \<Rightarrow> nat" where
  "closes fd tr = length (filter (\<lambda>c. c = SClose fd \<or> c = SFileClose fd) tr)"

text \<open>Opening sockets never leaks a descriptor. For every behaviour of the kernel, once
  \<open>socket\<close> succeeded the descriptor is closed before \<open>ListenVSock\<close> returns (the listener works on a
  duplicate), and it is closed exactly once unless registering it with the poller fails, in which
  case it is closed twice; a Unix listener is only handed out with mode 0600.\<close>

theorem sockets_closed:
  "(case ListenVSock w fd port [] of (r, tr) \<Rightarrow>
      (case r of
         Some (SocketFailed e) \<Rightarrow> closes fd tr = 0
       | Some (NetpollFailed e) \<Rightarrow> closes fd tr = 2
       | _ \<Rightarrow> closes fd tr = 1)) \<and>
   (case ListenUnix w path [] of (r, tr) \<Rightarrow>
      (r = None \<longleftrightarrow> tr = [SRemove path, SListenUnix path, SChmod path 0x180] \<and>
         w [SRemove path] (SListenUnix path) = None \<and>
         w [SRemove path, SListenUnix path] (SChmod path 0x180) = None))"
  by (auto simp: ListenVSock_def ListenUnix_def must_def attempt_def and_then_def must_or_close_def with_deferred_def
      ok_def closes_def split: option.splits)

end
