(* ===== verification/Cli.thy ===== *)
theory Cli
  imports GoFlag Obsd SystemStatus SvcBridge VsockTransport
begin

text \<open>
  \<open>cmd/karim/main.go\<close>, the commands that talk to the guest: the command line, the request each command
  sends and what it shows of the answer. (The commands that build and import images and that drive
  snapshots are in the theory \<open>CliTools\<close>.)

  A command ends with an \<open>outcome\<close>: the exit status with the error it prints, or what it shows. Banners
  and the alignment of tables are left out; a table is its rows. The connection is \<open>peer\<close>: the
  environment of the dialled sockets, of what is written, and what can be read. JSON is a parameter
  (\<open>cli_json\<close>), also where a command re-reads the data of a response as a structure.
\<close>

subsection \<open>The exchange\<close>

datatype cli_error =
    DialError string sock_error
  | EncodeError string
  | WriteError frame_error
  | ReadError_frame frame_error
  | DecodeError string
  | ServerError string
  | UsageError string
  | FlagError flag_error
  | FileError string string
  | EmptyToml string
  | SpecError string string
  | UnknownCommand string

record 'd cli_json =
  cj_encode_req :: "RPCRequest \<Rightarrow> (string, bytes) result"
  cj_decode_resp :: "bytes \<Rightarrow> (string, 'd RPCResponse) result"

record peer =
  pr_sock :: "sock_call world"
  pr_fd :: nat
  pr_write :: "bytes world"
  pr_read :: reader

text \<open>
  Dial, encode, write, read, decode, in this order, each with its error; the connection is closed on
  return. The second component is what was written to the connection.
\<close>

definition rpc :: "'d cli_json \<Rightarrow> peer \<Rightarrow> string \<Rightarrow> RPCRequest \<Rightarrow> (cli_error, 'd RPCResponse) result \<times> bytes list" where
  "rpc js p target req =
     (case fst (Dial (pr_sock p) (pr_fd p) target []) of
        Some e \<Rightarrow> (Inl (DialError target e), [])
      | None \<Rightarrow>
          (case cj_encode_req js req of
             Inl e \<Rightarrow> (Inl (EncodeError e), [])
           | Inr reqBytes \<Rightarrow>
               (case WriteFrame (pr_write p) reqBytes [] of
                  (Some e, out) \<Rightarrow> (Inl (WriteError e), out)
                | (None, out) \<Rightarrow>
                    (case ReadFrame (pr_read p) of
                       (Inl e, _) \<Rightarrow> (Inl (ReadError_frame e), out)
                     | (Inr respBytes, _) \<Rightarrow>
                         (case cj_decode_resp js respBytes of
                            Inl e \<Rightarrow> (Inl (DecodeError e), out)
                          | Inr resp \<Rightarrow> (Inr resp, out))))))"

definition cli_request :: "string \<Rightarrow> string \<Rightarrow> string \<Rightarrow> string \<Rightarrow> RPCRequest" where
  "cli_request ident command service pl =
     \<lparr>req_ID = ident, req_Command = command, req_Service = service, req_Args = [], req_Payload = pl\<rparr>"

definition sendRPC :: "'d cli_json \<Rightarrow> peer \<Rightarrow> string \<Rightarrow> string \<Rightarrow> string \<Rightarrow> (cli_error, 'd RPCResponse) result \<times> bytes list" where
  "sendRPC js p target command service = rpc js p target (cli_request ''req-1'' command service [])"

text \<open>What a command shows on success.\<close>

datatype 'd shown =
    ShowText "'d rpc_data"
  | ShowRows "string list list"
  | ShowNoServices
  | ShowHistograms bool "(string \<times> nat \<times> nat) list option" "(string \<times> nat \<times> nat) list option"
  | ShowRaw
  | ShowStatus string bool bool string
  | ShowHelp

datatype 'd outcome = Exited nat "cli_error option" | Showed "'d shown"

text \<open>The pattern of every command: an error or an unsuccessful response ends it with status 1.\<close>

definition on_success ::
  "(cli_error, 'd RPCResponse) result \<times> bytes list \<Rightarrow> ('d rpc_data \<Rightarrow> 'd shown) \<Rightarrow> 'd outcome \<times> bytes list"
where
  "on_success rt show =
     (case rt of
        (Inl e, out) \<Rightarrow> (Exited 1 (Some e), out)
      | (Inr resp, out) \<Rightarrow>
          if \<not> resp_Success resp then (Exited 1 (Some (ServerError (resp_Error resp))), out)
          else (Showed (show (resp_Data resp)), out))"

definition runPing :: "'d cli_json \<Rightarrow> peer \<Rightarrow> string \<Rightarrow> 'd outcome \<times> bytes list" where
  "runPing js p target = on_success (sendRPC js p target ''ping'' []) ShowText"

text \<open>\<open>s.MemoryLimit/(1024*1024)\<close> truncates; the limit is positive there.\<close>

definition memory_text :: "int \<Rightarrow> string" where
  "memory_text limit = (if 0 < limit then show_int (limit div (1024 * 1024)) @ ''MB'' else ''unlimited'')"

definition service_row :: "ServiceInfo \<Rightarrow> string list" where
  "service_row s =
     [si_Name s, si_State s, show_int (si_PID s), si_Exec s, memory_text (si_MemoryLimit s), si_SeccompProfile s, si_Restart s]"

text \<open>\<open>services\<close> stands for the data of the response read as a list of services.\<close>

definition runPS :: "'d cli_json \<Rightarrow> ('d rpc_data \<Rightarrow> ServiceInfo list) \<Rightarrow> peer \<Rightarrow> string \<Rightarrow> 'd outcome \<times> bytes list" where
  "runPS js services p target =
     on_success (sendRPC js p target ''list_services'' [])
       (\<lambda>d. if services d = [] then ShowNoServices else ShowRows (map service_row (services d)))"

definition runStart :: "'d cli_json \<Rightarrow> peer \<Rightarrow> string \<Rightarrow> string \<Rightarrow> 'd outcome \<times> bytes list" where
  "runStart js p target service = on_success (sendRPC js p target ''start_service'' service) ShowText"

definition runStop :: "'d cli_json \<Rightarrow> peer \<Rightarrow> string \<Rightarrow> string \<Rightarrow> 'd outcome \<times> bytes list" where
  "runStop js p target service = on_success (sendRPC js p target ''stop_service'' service) ShowText"

definition runLogs :: "'d cli_json \<Rightarrow> peer \<Rightarrow> string \<Rightarrow> string \<Rightarrow> 'd outcome \<times> bytes list" where
  "runLogs js p target service = on_success (sendRPC js p target ''get_logs'' service) ShowText"

text \<open>
  \<open>vsockd.SystemMetrics\<close>; \<open>'f\<close> stands for \<open>float64\<close>. The data of the response is read as such metrics
  (\<open>metrics\<close>), and the fields are what is shown.
\<close>

record 'f SystemMetrics =
  sm_UptimeSeconds :: 'f
  sm_NumGoroutine :: int
  sm_MemoryAlloc :: u64
  sm_MemorySys :: u64
  sm_NumServices :: int

definition runMetrics ::
  "'d cli_json \<Rightarrow> ('d rpc_data \<Rightarrow> 'f SystemMetrics) \<Rightarrow> peer \<Rightarrow> string \<Rightarrow> (cli_error, 'f SystemMetrics) result \<times> bytes list"
where
  "runMetrics js metrics p target =
     (case sendRPC js p target ''get_metrics'' [] of
        (Inl e, out) \<Rightarrow> (Inl e, out)
      | (Inr resp, out) \<Rightarrow>
          if \<not> resp_Success resp then (Inl (ServerError (resp_Error resp)), out)
          else (Inr (metrics (resp_Data resp)), out))"

subsection \<open>Telemetry\<close>

definition getSlotRange :: "nat \<Rightarrow> string" where
  "getSlotRange idx =
     (if idx = 0 then ''0 -> 1 us''
      else if 19 \<le> idx then show_nat (2 ^ (idx - 1)) @ ''+ us''
      else show_nat (2 ^ (idx - 1)) @ '' -> '' @ show_nat (2 ^ idx) @ '' us'')"

text \<open>The length of a bar: \<open>int((count * 35) / maxCount)\<close> in 64-bit arithmetic, at least one.\<close>

definition bar_length :: "u64 \<Rightarrow> u64 \<Rightarrow> nat" where
  "bar_length maxCount n =
     (let barLen = (if 0 < maxCount then unat ((n * 35) div maxCount) else 0)
      in if barLen = 0 \<and> 0 < n then 1 else barLen)"

definition max_count :: "u64 list \<Rightarrow> u64" where
  "max_count slots = foldl (\<lambda>m c. if m < c then c else m) 0 slots"

fun histogram_rows :: "u64 \<Rightarrow> nat \<Rightarrow> u64 list \<Rightarrow> (string \<times> nat \<times> nat) list" where
  "histogram_rows maxCount i [] = []"
| "histogram_rows maxCount i (n # slots) =
     (if n = 0 then histogram_rows maxCount (i + 1) slots
      else (getSlotRange i, unat n, bar_length maxCount n) # histogram_rows maxCount (i + 1) slots)"

text \<open>\<open>None\<close> when the histogram has no events.\<close>

definition printHistogram :: "Histogram \<Rightarrow> (string \<times> nat \<times> nat) list option" where
  "printHistogram hist =
     (if hg_TotalCount hist = 0 then None else Some (histogram_rows (max_count (hg_Slots hist)) 0 (hg_Slots hist)))"

text \<open>The data of the response read as \<open>ObsdResponseData\<close>; \<open>None\<close> when it cannot be.\<close>

definition runObsd :: "'d cli_json \<Rightarrow> ('d rpc_data \<Rightarrow> obsd_report option) \<Rightarrow> peer \<Rightarrow> string \<Rightarrow> 'd outcome \<times> bytes list" where
  "runObsd js report p target =
     on_success (sendRPC js p target ''obsd'' [])
       (\<lambda>d. case report d of
              None \<Rightarrow> ShowRaw
            | Some r \<Rightarrow> ShowHistograms (\<not> (or_fallback_mode r \<or> \<not> or_is_loaded r))
                          (printHistogram (or_runq_latency r)) (printHistogram (or_bio_latency r)))"

text \<open>Eight frames at most; a frame that is not an event is skipped, the first read error ends the stream.\<close>

fun trace_rows :: "(bytes \<Rightarrow> ExecEvent option) \<Rightarrow> nat \<Rightarrow> reader \<Rightarrow> ExecEvent list" where
  "trace_rows ev 0 conn = []"
| "trace_rows ev (Suc n) conn =
     (case ReadFrame conn of
        (Inl e, _) \<Rightarrow> []
      | (Inr frame, conn') \<Rightarrow>
          (case ev frame of None \<Rightarrow> trace_rows ev n conn' | Some e \<Rightarrow> e # trace_rows ev n conn'))"

text \<open>\<open>reqBytes, _ := EncodeJSON(...)\<close>: no bytes when encoding fails. A first frame that does not decode is let pass.\<close>

definition runTrace ::
  "'d cli_json \<Rightarrow> (bytes \<Rightarrow> ExecEvent option) \<Rightarrow> peer \<Rightarrow> string \<Rightarrow> (cli_error, ExecEvent list) result \<times> bytes list"
where
  "runTrace js ev p target =
     (case fst (Dial (pr_sock p) (pr_fd p) target []) of
        Some e \<Rightarrow> (Inl (DialError target e), [])
      | None \<Rightarrow>
          (let reqBytes = (case cj_encode_req js (cli_request ''trace-1'' ''trace'' [] []) of Inl _ \<Rightarrow> [] | Inr b \<Rightarrow> b)
           in case WriteFrame (pr_write p) reqBytes [] of
                (Some e, out) \<Rightarrow> (Inl (WriteError e), out)
              | (None, out) \<Rightarrow>
                  (case ReadFrame (pr_read p) of
                     (Inl e, _) \<Rightarrow> (Inl (ReadError_frame e), out)
                   | (Inr respFrame, conn) \<Rightarrow>
                       (case cj_decode_resp js respFrame of
                          Inr initResp \<Rightarrow>
                            if \<not> resp_Success initResp then (Inl (ServerError (resp_Error initResp)), out)
                            else (Inr (trace_rows ev 8 conn), out)
                        | Inl _ \<Rightarrow> (Inr (trace_rows ev 8 conn), out)))))"

definition runSystem :: "'d cli_json \<Rightarrow> ('d rpc_data \<Rightarrow> SystemStatus option) \<Rightarrow> peer \<Rightarrow> string \<Rightarrow> 'd outcome \<times> bytes list" where
  "runSystem js status p target =
     on_success (sendRPC js p target ''get_system_status'' [])
       (\<lambda>d. case status d of
              None \<Rightarrow> ShowRaw
            | Some st \<Rightarrow>
                ShowStatus (show_int (st_EntropyAvail st) @ (if st_EntropyAvail st < 1000 then '' bits (LOW)'' else '' bits (HEALTHY)''))
                  (st_RTCSynced st) (st_DebugMode st) (st_KernelCmdline st))"

subsection \<open>Services\<close>

definition runApply :: "'d cli_json \<Rightarrow> (string \<Rightarrow> (string, bytes) result) \<Rightarrow> peer \<Rightarrow> string \<Rightarrow> string \<Rightarrow> 'd outcome \<times> bytes list" where
  "runApply js readFile p target tomlPath =
     (case readFile tomlPath of
        Inl e \<Rightarrow> (Exited 1 (Some (FileError tomlPath e)), [])
      | Inr tomlBytes \<Rightarrow>
          if TrimSpace tomlBytes = [] then (Exited 1 (Some (EmptyToml tomlPath)), [])
          else on_success (rpc js p target (cli_request ''apply-1'' ''load_service'' [] tomlBytes)) ShowText)"

text \<open>The flags of \<open>karim run\<close>.\<close>

record run_flags =
  rf_name :: string
  rf_exec :: string
  rf_memory :: string
  rf_restart :: string
  rf_seccomp :: string

definition run_defaults :: run_flags where
  "run_defaults = \<lparr>rf_name = [], rf_exec = [], rf_memory = [], rf_restart = ''on-failure'', rf_seccomp = ''app-default''\<rparr>"

definition run_kinds :: "string \<Rightarrow> flag_kind option" where
  "run_kinds name = (if name \<in> set [''name'', ''exec'', ''memory'', ''restart'', ''seccomp''] then Some FString else None)"

definition run_set :: "string \<Rightarrow> string \<Rightarrow> run_flags \<Rightarrow> run_flags" where
  "run_set name v f =
     (if name = ''name'' then f\<lparr>rf_name := v\<rparr>
      else if name = ''exec'' then f\<lparr>rf_exec := v\<rparr>
      else if name = ''memory'' then f\<lparr>rf_memory := v\<rparr>
      else if name = ''restart'' then f\<lparr>rf_restart := v\<rparr>
      else f\<lparr>rf_seccomp := v\<rparr>)"

definition toml_assign :: "string \<Rightarrow> string \<Rightarrow> string" where
  "toml_assign key v = key @ '' = '' @ Quote v @ [CHR 0x0A]"

definition run_toml :: "run_flags \<Rightarrow> string" where
  "run_toml f =
     ''# Generated by karim run'' @ [CHR 0x0A] @
     toml_assign ''name'' (rf_name f) @ toml_assign ''exec'' (rf_exec f) @ toml_assign ''restart'' (rf_restart f) @
     toml_assign ''seccomp_profile'' (rf_seccomp f) @
     (if rf_memory f \<noteq> [] then toml_assign ''memory_limit'' (rf_memory f) else [])"

text \<open>
  A flag set made with \<open>flag.ExitOnError\<close>: an error ends the program with status 2, a request for help
  (an undeclared \<open>-h\<close> or \<open>-help\<close>) with status 0.
\<close>

definition flag_exit :: "flag_error \<Rightarrow> 'd outcome" where
  "flag_exit e = (if e \<in> {FlagNotDefined ''h'', FlagNotDefined ''help''} then Exited 0 None else Exited 2 (Some (FlagError e)))"

definition runRun :: "'d cli_json \<Rightarrow> peer \<Rightarrow> string \<Rightarrow> string list \<Rightarrow> 'd outcome \<times> bytes list" where
  "runRun js p target cmdArgs =
     (case parse_flags run_kinds run_set (\<lambda>_ _ f. f) cmdArgs run_defaults of
        Inl e \<Rightarrow> (flag_exit e, [])
      | Inr (f, _) \<Rightarrow>
          if rf_name f = [] then (Exited 1 (Some (UsageError ''--name is required'')), [])
          else if rf_exec f = [] then (Exited 1 (Some (UsageError ''--exec is required'')), [])
          else on_success (rpc js p target (cli_request ''run-1'' ''run_service'' (rf_name f) (run_toml f))) ShowText)"

text \<open>
  \<open>isDir\<close> tells whether a path exists and is a directory. The specification read from the file is
  encoded again as part of the bundle; \<open>bundle\<close> is that conversion, from the contents of the file and the
  bundle identifier, with the errors of reading (\<open>Inl\<close>) the specification.
\<close>

definition bundle_source :: "(string \<Rightarrow> bool) \<Rightarrow> string list \<Rightarrow> string \<times> string" where
  "bundle_source isDir args =
     (let bundlePath = hd args;
          bundleID = (case tl args of [] \<Rightarrow> ''oci-container'' | b # _ \<Rightarrow> b)
      in if isDir bundlePath
         then (Join_path [bundlePath, ''config.json''],
               if bundleID = ''oci-container'' then Base (Clean bundlePath) else bundleID)
         else (bundlePath, bundleID))"

definition runApplyBundle ::
  "'d cli_json \<Rightarrow> (string \<Rightarrow> bool) \<Rightarrow> (string \<Rightarrow> (string, bytes) result) \<Rightarrow> (bytes \<Rightarrow> string \<Rightarrow> (cli_error, string) result) \<Rightarrow>
     peer \<Rightarrow> string \<Rightarrow> string list \<Rightarrow> 'd outcome \<times> bytes list"
where
  "runApplyBundle js isDir readFile bundle p target args =
     (let (configPath, bundleID) = bundle_source isDir args
      in case readFile configPath of
           Inl e \<Rightarrow> (Exited 1 (Some (FileError configPath e)), [])
         | Inr configBytes \<Rightarrow>
             (case bundle configBytes bundleID of
                Inl e \<Rightarrow> (Exited 1 (Some e), [])
              | Inr bundleBytes \<Rightarrow>
                  on_success (rpc js p target (cli_request ''bundle-1'' ''apply_bundle'' bundleID bundleBytes)) ShowText))"

subsection \<open>The command line\<close>

text \<open>Which command an invocation selects, with the arguments it uses.\<close>

datatype cli_command =
    CmdHelp nat
  | CmdPing
  | CmdPS
  | CmdStart string
  | CmdStop string
  | CmdLogs string
  | CmdMetrics
  | CmdObsd
  | CmdTrace
  | CmdBuild "string list"
  | CmdLayer "string list"
  | CmdSnapshot "string list"
  | CmdSystem
  | CmdApply string
  | CmdApplyBundle "string list"
  | CmdRun "string list"
  | CmdFail nat "cli_error option"

definition needs_arg :: "string list \<Rightarrow> string \<Rightarrow> (string \<Rightarrow> cli_command) \<Rightarrow> cli_command" where
  "needs_arg args what mk = (case args of _ # a # _ \<Rightarrow> mk a | _ \<Rightarrow> CmdFail 1 (Some (UsageError what)))"

definition select_command :: "string list \<Rightarrow> cli_command" where
  "select_command args =
     (case args of
        [] \<Rightarrow> CmdHelp 0
      | a # rest \<Rightarrow>
          (let c = ToLower a
           in if c \<in> {''help'', ''-h'', ''--help''} then CmdHelp 0
              else if c = ''ping'' then CmdPing
              else if c \<in> {''ps'', ''list''} then CmdPS
              else if c = ''start'' then needs_arg args ''missing service name'' CmdStart
              else if c = ''stop'' then needs_arg args ''missing service name'' CmdStop
              else if c = ''logs'' then needs_arg args ''missing service name'' CmdLogs
              else if c \<in> {''metrics'', ''top''} then CmdMetrics
              else if c \<in> {''obsd'', ''ebpf''} then CmdObsd
              else if c \<in> {''trace'', ''execsnoop''} then CmdTrace
              else if c \<in> {''build'', ''image''} then CmdBuild rest
              else if c \<in> {''import'', ''layer''} then CmdLayer rest
              else if c \<in> {''snapshot'', ''qmp''} then CmdSnapshot rest
              else if c \<in> {''system'', ''status'', ''hardd''} then CmdSystem
              else if c = ''apply'' then needs_arg args ''missing TOML file path'' CmdApply
              else if c \<in> {''apply-bundle'', ''apply_bundle'', ''bundle''}
                then needs_arg args ''missing bundle directory or config path'' (\<lambda>_. CmdApplyBundle rest)
              else if c = ''run'' then CmdRun rest
              else CmdFail 1 (Some (UnknownCommand c))))"

text \<open>The global flag, then the command: \<open>main\<close> without the work of the command.\<close>

definition karim_main :: "string list \<Rightarrow> string \<times> cli_command" where
  "karim_main argv =
     (case parse_flags (\<lambda>n. if n = ''target'' then Some FString else None) (\<lambda>_ v _. v) (\<lambda>_ _ t. t) argv ''vsock://3:1024'' of
        Inl e \<Rightarrow> (''vsock://3:1024'', case flag_exit e of Exited n err \<Rightarrow> CmdFail n err | Showed _ \<Rightarrow> CmdHelp 0)
      | Inr (target, args) \<Rightarrow> (target, select_command args))"

subsection \<open>What \<open>karim run\<close> asks for\<close>

definition run_ok :: "run_flags \<Rightarrow> bool" where
  "run_ok f \<longleftrightarrow> rf_name f \<noteq> [] \<and> rf_exec f \<noteq> [] \<and> quotable (rf_name f) \<and> quotable (rf_exec f) \<and> quotable (rf_memory f) \<and>
     quotable (rf_restart f) \<and> quotable (rf_seccomp f)"

definition run_spec :: "run_flags \<Rightarrow> int \<Rightarrow> ServiceSpec" where
  "run_spec f mem =
     default_spec\<lparr>spec_Name := rf_name f, spec_Exec := rf_exec f, spec_Restart := rf_restart f,
       spec_SeccompProfile := rf_seccomp f, spec_MemoryLimit := mem\<rparr>"

definition run_lines :: "run_flags \<Rightarrow> string list" where
  "run_lines f =
     [''# Generated by karim run'', key_line ''name'' (rf_name f), key_line ''exec'' (rf_exec f), key_line ''restart'' (rf_restart f),
      key_line ''seccomp_profile'' (rf_seccomp f)] @
     (if rf_memory f \<noteq> [] then [key_line ''memory_limit'' (rf_memory f)] else [])"

lemma run_toml_lines: "run_ok f \<Longrightarrow> run_toml f = concat (map (\<lambda>l. l @ [CHR 0x0A]) (run_lines f))"
  by (simp add: run_ok_def run_toml_def run_lines_def toml_assign_def key_line_def Quote_quotable)

lemma quotable_no_quote: "quotable v \<Longrightarrow> dquote \<notin> set v"
  by (auto simp: quotable_def list_all_iff)

lemma quotable_length: "quotable v \<Longrightarrow> length v \<le> 65000"
  by (simp add: quotable_def)

lemma run_line_shape:
  assumes "run_ok f"
  shows "\<forall>l \<in> set (run_lines f). CHR 0x0A \<notin> set l \<and> CHR 0x0D \<notin> set l \<and> length l < MaxScanTokenSize"
proof -
  have "CHR 0x0A \<notin> set (key_line k v) \<and> CHR 0x0D \<notin> set (key_line k v) \<and> length (key_line k v) < MaxScanTokenSize"
    if "quotable v" "CHR 0x0A \<notin> set k" "CHR 0x0D \<notin> set k" "length k \<le> 100" for k v
    using that quotable_no_break [OF that(1)] quotable_length [OF that(1)] by (simp add: key_line_def MaxScanTokenSize_def)
  with assms show ?thesis by (simp add: run_lines_def run_ok_def MaxScanTokenSize_def)
qed

lemma setting_keys [simp]: "setting_key ''name''" "setting_key ''exec''" "setting_key ''restart''" "setting_key ''seccomp_profile''"
  "setting_key ''memory_limit''"
  by (simp_all add: setting_key_def word_key_def is_space_def)

lemma set_key_values:
  "set_key pf n ''name'' (quoted v) s = Inr (s\<lparr>spec_Name := v\<rparr>)"
  "set_key pf n ''exec'' (quoted v) s = Inr (s\<lparr>spec_Exec := v\<rparr>)"
  "set_key pf n ''restart'' (quoted v) s = Inr (s\<lparr>spec_Restart := v\<rparr>)"
  "set_key pf n ''seccomp_profile'' (quoted v) s = Inr (s\<lparr>spec_SeccompProfile := v\<rparr>)"
  "parseMemoryLimit v = Inr b \<Longrightarrow> set_key pf n ''memory_limit'' (quoted v) s = Inr (s\<lparr>spec_MemoryLimit := b\<rparr>)"
  by (simp_all add: set_key_def ToLower_def to_lower_char_def)

lemma parse_comment: "parse_line pf (n, CHR ''#'' # l) st = Inr st"
proof -
  obtain t where "TrimSpace (CHR ''#'' # l) = CHR ''#'' # t" using TrimSpace_Cons [of "CHR ''#''"] by (force simp: is_space_def)
  then show ?thesis by (cases st) (simp add: parse_line_def)
qed

lemma run_toml_parses:
  assumes "run_ok f" and "rf_memory f = [] \<and> mem = 0 \<or> rf_memory f \<noteq> [] \<and> parseMemoryLimit (rf_memory f) = Inr mem"
  shows "ParseServiceSpecFromBytes pf (run_toml f) = Inr (run_spec f mem)"
proof -
  have scan: "scan_lines (run_toml f) = (run_lines f, False)"
    unfolding run_toml_lines [OF assms(1)] by (rule scan_lines_concat [OF run_line_shape [OF assms(1)]])
  have nq: "dquote \<notin> set (rf_name f)" "dquote \<notin> set (rf_exec f)" "dquote \<notin> set (rf_restart f)" "dquote \<notin> set (rf_seccomp f)"
    "dquote \<notin> set (rf_memory f)" "rf_name f \<noteq> []" "rf_exec f \<noteq> []"
    using assms(1) by (simp_all add: run_ok_def quotable_no_quote)
  have "parse_lines pf (run_lines f) = Inr (run_spec f mem)"
    using assms(2) nq
    by (elim disjE conjE)
      (simp_all add: parse_lines_def run_lines_def upt_conv_Cons parse_comment parse_key_line set_key_values run_spec_def default_spec_def
        del: upt_Suc)
  then show ?thesis using scan nq(6,7) by (simp add: ParseServiceSpecFromBytes_def run_spec_def)
qed

text \<open>
  C19: what was asked for on the command line is what the guest runs. For flags whose values are printable
  and hold no quotes or backslashes, the specification that the supervisor reads from the payload of
  \<open>karim run\<close> has exactly the name, program, restart policy, security profile and memory limit of the
  flags, and the defaults for everything else.
\<close>

theorem run_flags_delivered:
  assumes "run_ok f" and "rf_memory f = [] \<and> mem = 0 \<or> rf_memory f \<noteq> [] \<and> parseMemoryLimit (rf_memory f) = Inr mem"
  shows "ParseServiceSpecFromBytes pf (run_toml f) =
    Inr (default_spec\<lparr>spec_Name := rf_name f, spec_Exec := rf_exec f, spec_Restart := rf_restart f,
      spec_SeccompProfile := rf_seccomp f, spec_MemoryLimit := mem\<rparr>)"
  using run_toml_parses [OF assms] by (simp add: run_spec_def)

definition sample_run :: run_flags where
  "sample_run = run_defaults\<lparr>rf_name := ''web'', rf_exec := ''/bin/httpd #1'', rf_memory := ''64MB''\<rparr>"

theorem run_flags_delivered_witness:
  "ParseServiceSpecFromBytes (\<lambda>_. Inl []) (run_toml sample_run) =
     Inr (default_spec\<lparr>spec_Name := ''web'', spec_Exec := ''/bin/httpd #1'', spec_Restart := ''on-failure'',
       spec_SeccompProfile := ''app-default'', spec_MemoryLimit := 67108864\<rparr>)"
proof -
  have "run_ok sample_run" by (simp add: sample_run_def run_defaults_def run_ok_def quotable_def)
  moreover have "parseMemoryLimit ''64MB'' = Inr 67108864" by (simp add: go_eval)
  ultimately show ?thesis using run_flags_delivered [of sample_run 67108864] by (simp add: sample_run_def run_defaults_def)
qed

text \<open>A backslash does not survive: the writer escapes it and the reader keeps the escape.\<close>

lemma run_backslash_doubled:
  "unquote (Quote [CHR ''a'', CHR 0x5C]) = Inr [CHR ''a'', CHR 0x5C, CHR 0x5C]"
  by (simp add: go_eval)

subsection \<open>Histograms on the terminal\<close>

lemma max_count_foldl:
  "m \<le> foldl (\<lambda>m c. if m < c then c else m) m slots \<and>
     (\<forall>c \<in> set slots. c \<le> foldl (\<lambda>m c. if m < c then c else m) m slots) \<and>
     foldl (\<lambda>m c. if m < c then c else m) m slots \<in> insert m (set slots)" for m :: u64
proof (induction slots arbitrary: m)
  case (Cons c slots)
  show ?case
  proof (cases "m < c")
    case True
    with Cons.IH [of c] show ?thesis by auto
  next
    case False
    with Cons.IH [of m] show ?thesis by auto
  qed
qed simp

lemma max_count_upper: "c \<in> set slots \<Longrightarrow> c \<le> max_count slots"
  using max_count_foldl [of 0 slots] by (simp add: max_count_def)

lemma bar_length_exact:
  assumes "0 < n" and "n \<le> m" and "unat n * 35 < 2 ^ 64"
  shows "bar_length m n = max 1 (unat n * 35 div unat m)" and "bar_length m n \<le> 35"
proof -
  have m: "0 < m" using assms(1,2) by simp
  have "unat (n * 35) = unat n * 35"
    using assms(3) by (simp add: unat_word_ariths(2))
  then have "unat (n * 35 div m) = unat n * 35 div unat m" by (simp add: unat_div)
  then show eq: "bar_length m n = max 1 (unat n * 35 div unat m)"
    using m assms(1) by (simp add: bar_length_def Let_def max_def)
  have "unat n \<le> unat m" using assms(2) by (simp add: word_le_nat_alt)
  moreover have "0 < unat m" using m by (simp add: word_less_nat_alt)
  ultimately have "unat n * 35 div unat m \<le> 35"
    by (metis div_le_mono mult.commute mult_le_mono2 nonzero_mult_div_cancel_left less_numeral_extra(3))
  with eq show "bar_length m n \<le> 35" by simp
qed

lemma histogram_rows_in:
  "(r, n, b) \<in> set (histogram_rows m i slots) \<Longrightarrow> \<exists>c j. c \<in> set slots \<and> c \<noteq> 0 \<and> r = getSlotRange j \<and> n = unat c \<and> b = bar_length m c"
  by (induction m i slots rule: histogram_rows.induct) (auto split: if_splits)

lemma histogram_rows_counts: "map (fst \<circ> snd) (histogram_rows m i slots) = map unat (filter (\<lambda>c. c \<noteq> 0) slots)"
  by (induction m i slots rule: histogram_rows.induct) auto

text \<open>
  C37: a histogram is drawn to scale. There is one row for each slot that counted something, in order and
  with its count; while no count reaches 2 to the 64 divided by 35, each bar is the count's share of
  the longest one in units of 35, at least one and at most 35.
\<close>

theorem histogram_drawn_to_scale:
  assumes "\<forall>c \<in> set (hg_Slots h). unat c * 35 < 2 ^ 64" and "printHistogram h = Some rows"
  shows "map (fst \<circ> snd) rows = map unat (filter (\<lambda>c. c \<noteq> 0) (hg_Slots h)) \<and>
    (\<forall>(r, n, b) \<in> set rows. 1 \<le> b \<and> b \<le> 35 \<and> b = max 1 (n * 35 div unat (max_count (hg_Slots h))))"
proof -
  have rows: "rows = histogram_rows (max_count (hg_Slots h)) 0 (hg_Slots h)"
    using assms(2) by (simp add: printHistogram_def split: if_splits)
  have "1 \<le> b \<and> b \<le> 35 \<and> b = max 1 (n * 35 div unat (max_count (hg_Slots h)))" if row: "(r, n, b) \<in> set rows" for r n b
  proof -
    obtain c where c: "c \<in> set (hg_Slots h)" "c \<noteq> 0" "n = unat c" "b = bar_length (max_count (hg_Slots h)) c"
      using histogram_rows_in row unfolding rows by blast
    have "0 < c" using c(2) by (simp add: word_neq_0_conv)
    from bar_length_exact [OF this max_count_upper [OF c(1)]] assms(1) c show ?thesis by simp
  qed
  then show ?thesis using histogram_rows_counts unfolding rows by blast
qed

theorem histogram_drawn_to_scale_witness:
  "\<exists>rows. printHistogram (GetRunQueueLatency None 0 (NewManager 0)) = Some rows \<and> map (fst \<circ> snd) rows = [45, 120, 85, 12]"
proof -
  let ?h = "GetRunQueueLatency None 0 (NewManager 0)"
  have slots: "hg_Slots ?h = (replicate 20 0)[2 := 45, 3 := 120, 4 := 85, 5 := 12]"
    by (simp add: GetRunQueueLatency_def read_histogram_def NewManager_def Let_def)
  have eq: "hg_Slots ?h = [0, 0, 45, 120, 85, 12, 0, 0, 0, 0, 0, 0, 0, 0, 0, 0, 0, 0, 0, 0]"
    unfolding slots by (simp add: numeral_eq_Suc)
  have "hg_TotalCount ?h = sum_list (hg_Slots ?h)" by (simp add: GetRunQueueLatency_def read_histogram_def Let_def)
  then have tot: "hg_TotalCount ?h = 262" by (simp add: eq)
  then obtain rows where "printHistogram ?h = Some rows" by (simp add: printHistogram_def)
  moreover from histogram_drawn_to_scale [OF _ this] have "map (fst \<circ> snd) rows = [45, 120, 85, 12]" by (simp add: eq)
  ultimately show ?thesis by (intro exI conjI)
qed

end
