(* ===== verification/PkgExtract.thy ===== *)
theory PkgExtract
  imports GoPath GoEffects GoTar
begin

text \<open>
  \<open>internal/pkgd/extract.go\<close> and the layer extractor of \<open>internal/pkgd/oci.go\<close>. The calls that open,
  create or remove something are the values of \<open>pk_call\<close>, answered by the environment \<open>w\<close>. What the
  code only reads is the record \<open>pk_view\<close>; since extraction itself creates symbolic links that
  later checks look at, its answers depend on the calls made so far.
\<close>

unbundle bit_operations_syntax

datatype pk_call =
    PkMkdirAll string nat
  | PkRemove string
  | PkRemoveAll string
  | PkSymlink string string
  | PkLink string string
  | PkOpenDir string
  | PkOpenat2Beneath string string nat
  | PkOpenFile string nat
  | PkCopy string bytes

datatype pk_lstat = PkNotExist | PkLstatError string | PkIsSymlink | PkNotSymlink

datatype pk_readdir = PkNoDir | PkReadError string | PkEntries "string list"

record pk_view =
  pv_getwd :: "(string, string) result"
  pv_lstat :: "pk_call list \<Rightarrow> string \<Rightarrow> pk_lstat"
  pv_eval_symlinks :: "pk_call list \<Rightarrow> string \<Rightarrow> (string, string) result"
  pv_readdir :: "pk_call list \<Rightarrow> string \<Rightarrow> pk_readdir"

datatype extract_error =
    EmptyEntryPath
  | InvalidDest string string
  | TraversalDetected string
  | EscapesRoot string string
  | ParentLstat string
  | ParentResolve string string
  | ParentOutside string string
  | LinkEscapes string string

text \<open>\<open>filepath.Abs\<close> followed by \<open>filepath.Clean\<close>; only a relative path needs the working directory.\<close>

definition clean_dest :: "pk_view \<Rightarrow> string \<Rightarrow> (string, string) result" where
  "clean_dest v destDir =
     (if is_abs destDir then Inr (Clean (Clean destDir))
      else bind_res (pv_getwd v) (\<lambda>cwd. Inr (Clean (Abs_path cwd destDir))))"

text \<open>The test that a path is the root or continues it after a separator.\<close>

definition in_root :: "string \<Rightarrow> string \<Rightarrow> bool" where
  "in_root p root \<longleftrightarrow> HasPrefix p (root @ [slash]) \<or> p = root"

text \<open>The loop over the parent components; the last component is not looked at.\<close>

fun check_parents :: "pk_view \<Rightarrow> pk_call list \<Rightarrow> string \<Rightarrow> string \<Rightarrow> string list \<Rightarrow> (extract_error, unit) result" where
  "check_parents v tr root cur (p # q # ps) =
     (if p = [] \<or> p = ''.'' then check_parents v tr root cur (q # ps)
      else
        let cur' = Join_path [cur, p]
        in case pv_lstat v tr cur' of
             PkNotExist \<Rightarrow> Inr ()
           | PkLstatError e \<Rightarrow> Inl (ParentLstat e)
           | PkIsSymlink \<Rightarrow>
               (case pv_eval_symlinks v tr cur' of
                  Inl e \<Rightarrow> Inl (ParentResolve cur' e)
                | Inr resolved \<Rightarrow>
                    if in_root resolved root then check_parents v tr root cur' (q # ps)
                    else Inl (ParentOutside cur' resolved))
           | PkNotSymlink \<Rightarrow> check_parents v tr root cur' (q # ps))"
| "check_parents v tr root cur ps = Inr ()"

definition SafePathClean :: "pk_view \<Rightarrow> pk_call list \<Rightarrow> string \<Rightarrow> string \<Rightarrow> (extract_error, string) result" where
  "SafePathClean v tr destDir relPath =
     (if relPath = [] then Inl EmptyEntryPath
      else case clean_dest v destDir of
        Inl e \<Rightarrow> Inl (InvalidDest destDir e)
      | Inr cleanDest \<Rightarrow>
          let cleanRel = Clean relPath
          in if HasPrefix cleanRel [slash] \<or> HasPrefix cleanRel (dotdot @ [slash]) \<or> cleanRel = dotdot
             then Inl (TraversalDetected relPath)
             else
               let targetPath = Join_path [cleanDest, cleanRel]
               in if \<not> in_root targetPath cleanDest then Inl (EscapesRoot relPath cleanDest)
                  else bind_res (check_parents v tr cleanDest cleanDest (Split cleanRel slash))
                         (\<lambda>_. Inr targetPath))"

definition ValidateSymlinkTarget :: "pk_view \<Rightarrow> string \<Rightarrow> string \<Rightarrow> string \<Rightarrow> extract_error option" where
  "ValidateSymlinkTarget v destDir targetPath linkVal =
     (case clean_dest v destDir of
        Inl e \<Rightarrow> Some (InvalidDest destDir e)
      | Inr cleanDest \<Rightarrow>
          let resolved = (if HasPrefix linkVal [slash] then Join_path [cleanDest, linkVal]
                          else Join_path [Dir targetPath, linkVal])
          in if in_root (Clean resolved) cleanDest then None else Some (LinkEscapes linkVal cleanDest))"

text \<open>
  \<open>SafeOpenFile\<close>: the confined open is tried first, and every failure on the way to it falls back
  to an ordinary open of the path.
\<close>

definition SafeOpenFile ::
  "pk_view \<Rightarrow> pk_call world \<Rightarrow> string \<Rightarrow> string \<Rightarrow> nat \<Rightarrow> (pk_call, string) action"
where
  "SafeOpenFile v w destDir targetPath mode tr =
     (case clean_dest v destDir of
        Inl e \<Rightarrow> (Some e, tr)
      | Inr cleanDest \<Rightarrow>
          let opened = w tr (PkOpenDir cleanDest);
              tr1 = tr @ [PkOpenDir cleanDest]
          in case (opened, Rel cleanDest targetPath) of
               (None, Some rel) \<Rightarrow>
                 if HasPrefix rel dotdot then must w (PkOpenFile targetPath mode) (\<lambda>e. e) tr1
                 else
                   (case w tr1 (PkOpenat2Beneath cleanDest rel mode) of
                      None \<Rightarrow> (None, tr1 @ [PkOpenat2Beneath cleanDest rel mode])
                    | Some _ \<Rightarrow>
                        must w (PkOpenFile targetPath mode) (\<lambda>e. e) (tr1 @ [PkOpenat2Beneath cleanDest rel mode]))
             | _ \<Rightarrow> must w (PkOpenFile targetPath mode) (\<lambda>e. e) tr1)"

subsection \<open>Layer extraction\<close>

definition WhiteoutPrefix :: string where
  "WhiteoutPrefix = ''.wh.''"

definition OpaqueWhiteout :: string where
  "OpaqueWhiteout = ''.wh..wh..opq''"

datatype layer_error =
    TarEntry string
  | EntryRejected string extract_error
  | OpaqueRejected extract_error
  | OpaqueFailed string string
  | WhiteoutRejected extract_error
  | DirFailed string string
  | ParentFailed string string
  | FileFailed string string
  | DataFailed string string
  | SymlinkRejected string string extract_error
  | SymlinkParentFailed string string
  | SymlinkFailed string string string
  | HardlinkRejected string string extract_error
  | HardlinkParentFailed string string

definition clearDirectoryContents :: "pk_view \<Rightarrow> pk_call world \<Rightarrow> string \<Rightarrow> (pk_call, string) action" where
  "clearDirectoryContents v w dir tr =
     (case pv_readdir v tr dir of
        PkNoDir \<Rightarrow> (None, tr)
      | PkReadError e \<Rightarrow> (Some e, tr)
      | PkEntries names \<Rightarrow> steps (map (\<lambda>n. must w (PkRemoveAll (Join_path [dir, n])) (\<lambda>e. e)) names) tr)"

text \<open>The mode of an extracted file: executable when any execute bit of the header is set.\<close>

definition layer_mode :: "nat \<Rightarrow> nat" where
  "layer_mode m = (if m AND 0x49 \<noteq> 0 then 0x1ED else 0x1A4)"

definition extract_reg :: "pk_view \<Rightarrow> pk_call world \<Rightarrow> string \<Rightarrow> tar_entry \<Rightarrow> string \<Rightarrow> (pk_call, layer_error) action" where
  "extract_reg v w destDir hdr targetPath =
     steps
       [must w (PkMkdirAll (Dir targetPath) 0x1ED) (ParentFailed targetPath),
        map_err (FileFailed targetPath) (SafeOpenFile v w destDir targetPath (layer_mode (te_Mode hdr))),
        must w (PkCopy targetPath (te_Data hdr)) (DataFailed targetPath)]"

definition extract_symlink :: "pk_view \<Rightarrow> pk_call world \<Rightarrow> string \<Rightarrow> tar_entry \<Rightarrow> string \<Rightarrow> (pk_call, layer_error) action" where
  "extract_symlink v w destDir hdr targetPath =
     (case ValidateSymlinkTarget v destDir targetPath (te_Linkname hdr) of
        Some e \<Rightarrow> fail (SymlinkRejected (te_Name hdr) (te_Linkname hdr) e)
      | None \<Rightarrow>
          steps
            [must w (PkMkdirAll (Dir targetPath) 0x1ED) (SymlinkParentFailed targetPath),
             attempt (PkRemove targetPath),
             must w (PkSymlink (te_Linkname hdr) targetPath) (SymlinkFailed targetPath (te_Linkname hdr))])"

definition extract_hardlink :: "pk_view \<Rightarrow> pk_call world \<Rightarrow> string \<Rightarrow> tar_entry \<Rightarrow> string \<Rightarrow> (pk_call, layer_error) action" where
  "extract_hardlink v w destDir hdr targetPath tr =
     (case SafePathClean v tr destDir (te_Linkname hdr) of
        Inl e \<Rightarrow> (Some (HardlinkRejected (te_Name hdr) (te_Linkname hdr) e), tr)
      | Inr linkTarget \<Rightarrow>
          steps
            [must w (PkMkdirAll (Dir targetPath) 0x1ED) (HardlinkParentFailed targetPath),
             attempt (PkRemove targetPath),
             (\<lambda>tr'. case w tr' (PkLink linkTarget targetPath) of
                None \<Rightarrow> (None, tr' @ [PkLink linkTarget targetPath])
              | Some _ \<Rightarrow>
                  when_act (ValidateSymlinkTarget v destDir targetPath (te_Linkname hdr) = None)
                    (attempt (PkSymlink (te_Linkname hdr) targetPath)) (tr' @ [PkLink linkTarget targetPath]))] tr)"

definition extract_node :: "pk_view \<Rightarrow> pk_call world \<Rightarrow> string \<Rightarrow> tar_entry \<Rightarrow> string \<Rightarrow> (pk_call, layer_error) action" where
  "extract_node v w destDir hdr targetPath =
     (case te_Type hdr of
        TypeDir \<Rightarrow> must w (PkMkdirAll targetPath 0x1ED) (DirFailed targetPath)
      | TypeReg \<Rightarrow> extract_reg v w destDir hdr targetPath
      | TypeRegA \<Rightarrow> extract_reg v w destDir hdr targetPath
      | TypeSymlink \<Rightarrow> extract_symlink v w destDir hdr targetPath
      | TypeLink \<Rightarrow> extract_hardlink v w destDir hdr targetPath
      | TypeOther \<Rightarrow> ok)"

definition extract_layer_entry :: "pk_view \<Rightarrow> pk_call world \<Rightarrow> string \<Rightarrow> tar_entry \<Rightarrow> (pk_call, layer_error) action" where
  "extract_layer_entry v w destDir hdr tr =
     (case SafePathClean v tr destDir (te_Name hdr) of
        Inl e \<Rightarrow> (Some (EntryRejected (te_Name hdr) e), tr)
      | Inr targetPath \<Rightarrow>
          let baseName = Base (te_Name hdr); dirName = Dir (te_Name hdr)
          in if baseName = OpaqueWhiteout
             then (case SafePathClean v tr destDir dirName of
                     Inl e \<Rightarrow> (Some (OpaqueRejected e), tr)
                   | Inr targetDir \<Rightarrow> map_err (OpaqueFailed targetDir) (clearDirectoryContents v w targetDir) tr)
             else if HasPrefix baseName WhiteoutPrefix
             then (case SafePathClean v tr destDir (Join_path [dirName, TrimPrefix baseName WhiteoutPrefix]) of
                     Inl e \<Rightarrow> (Some (WhiteoutRejected e), tr)
                   | Inr targetFile \<Rightarrow> attempt (PkRemoveAll targetFile) tr)
             else extract_node v w destDir hdr targetPath tr)"

definition ExtractLayerTarball ::
  "pk_view \<Rightarrow> pk_call world \<Rightarrow> untar_fn \<Rightarrow> bytes \<Rightarrow> string \<Rightarrow> (pk_call, layer_error) action"
where
  "ExtractLayerTarball v w untar r destDir =
     (case untar r of
        (entries, err) \<Rightarrow>
          and_then (steps (map (extract_layer_entry v w destDir) entries))
            (case err of None \<Rightarrow> ok | Some e \<Rightarrow> fail (TarEntry e)))"

subsection \<open>Image archives\<close>

record DockerManifestEntry =
  dm_Config :: string
  dm_RepoTags :: "string list"
  dm_Layers :: "string list"

record OCIArchiveInfo =
  oa_RepoTags :: "string list"
  oa_LayerPaths :: "string list"

datatype archive_error =
    ArchiveOpen string string
  | ArchiveGzip string string
  | ArchiveTar string string
  | ManifestRead string
  | NoManifest string

text \<open>
  The files and decoders an archive is read with: opening a file gives its bytes, a gzip stream is
  unpacked, the data of an entry is read to its end (which can fail in the middle of the entry),
  and the manifest is decoded from JSON.
\<close>

record archive_env =
  ae_open :: "string \<Rightarrow> (string, bytes) result"
  ae_gunzip :: "bytes \<Rightarrow> (string, bytes) result"
  ae_untar :: untar_fn
  ae_readall :: "tar_entry \<Rightarrow> (string, bytes) result"
  ae_docker :: "bytes \<Rightarrow> (string, DockerManifestEntry list) result"

definition is_gz_name :: "string \<Rightarrow> bool" where
  "is_gz_name p \<longleftrightarrow> HasSuffix p ''.gz'' \<or> HasSuffix p ''.tgz''"

fun inspect_entries :: "archive_env \<Rightarrow> tar_entry list \<Rightarrow> (archive_error, OCIArchiveInfo option) result" where
  "inspect_entries ae [] = Inr None"
| "inspect_entries ae (h # hs) =
     (if Clean (te_Name h) = ''manifest.json''
      then (case ae_readall ae h of
              Inl e \<Rightarrow> Inl (ManifestRead e)
            | Inr data \<Rightarrow>
                (case ae_docker ae data of
                   Inr (m # _) \<Rightarrow> Inr (Some \<lparr>oa_RepoTags = dm_RepoTags m, oa_LayerPaths = dm_Layers m\<rparr>)
                 | _ \<Rightarrow> inspect_entries ae hs))
      else inspect_entries ae hs)"

definition InspectOCIArchive :: "archive_env \<Rightarrow> string \<Rightarrow> (archive_error, OCIArchiveInfo) result" where
  "InspectOCIArchive ae tarPath =
     (case ae_open ae tarPath of
        Inl e \<Rightarrow> Inl (ArchiveOpen tarPath e)
      | Inr f \<Rightarrow>
          (case (if is_gz_name tarPath then ae_gunzip ae f else Inr f) of
             Inl e \<Rightarrow> Inl (ArchiveGzip tarPath e)
           | Inr r \<Rightarrow>
               (case ae_untar ae r of
                  (entries, err) \<Rightarrow>
                    (case inspect_entries ae entries of
                       Inl e \<Rightarrow> Inl e
                     | Inr (Some info) \<Rightarrow> Inr info
                     | Inr None \<Rightarrow>
                         (case err of None \<Rightarrow> Inl (NoManifest tarPath) | Some e \<Rightarrow> Inl (ArchiveTar tarPath e))))))"

declare clean_dest_def [go_eval] in_root_def [go_eval] SafePathClean_def [go_eval] ValidateSymlinkTarget_def [go_eval]
  SafeOpenFile_def [go_eval] WhiteoutPrefix_def [go_eval] OpaqueWhiteout_def [go_eval] clearDirectoryContents_def [go_eval]
  extract_reg_def [go_eval] extract_symlink_def [go_eval] extract_hardlink_def [go_eval] extract_node_def [go_eval]
  extract_layer_entry_def [go_eval] ExtractLayerTarball_def [go_eval]

subsection \<open>Confinement\<close>

text \<open>
  What the code relies on: the working directory is an absolute path, and the names a directory
  listing gives are names of files (neither empty nor \<open>.\<close> nor \<open>..\<close>, and without a separator).
\<close>

definition os_names :: "pk_view \<Rightarrow> bool" where
  "os_names v \<longleftrightarrow>
     (\<forall>d. pv_getwd v = Inr d \<longrightarrow> is_abs d) \<and>
     (\<forall>tr dir names. pv_readdir v tr dir = PkEntries names \<longrightarrow> list_all plain_comp names)"

lemma clean_dest_root:
  assumes "os_names v" and "clean_dest v destDir = Inr root"
  obtains ds where "clean_list True ds" "root = render_path True ds"
proof (cases "is_abs destDir")
  case True
  with assms(2) Clean_abs [OF True] show ?thesis by (auto simp: clean_dest_def Clean_render intro: that)
next
  case False
  with assms obtain cwd where "is_abs cwd" "root = Clean (Join_path [cwd, destDir])"
    by (auto simp: clean_dest_def os_names_def Abs_path_def result_simps)
  with Join_abs [of cwd destDir] show ?thesis by (auto simp: Clean_render intro: that)
qed

text \<open>A relative path that does not climb has only plain components.\<close>

definition climbs :: "string \<Rightarrow> bool" where
  "climbs p \<longleftrightarrow> HasPrefix p [slash] \<or> HasPrefix p (dotdot @ [slash]) \<or> p = dotdot"

lemma not_climbing:
  assumes "p \<noteq> []" and "\<not> climbs (Clean p)"
  shows "list_all plain_comp (path_comps p) \<and> Clean p = render_path False (path_comps p) \<and> \<not> is_abs p"
proof -
  have rel: "\<not> is_abs p"
  proof
    assume "is_abs p"
    with assms show False by (auto simp: climbs_def Clean_def render_path_def)
  qed
  then have clean: "Clean p = render_path False (path_comps p)" using assms(1) by (simp add: Clean_def)
  from path_comps_clean [of p] rel obtain n qs where c: "path_comps p = replicate n dotdot @ qs" "list_all plain_comp qs"
    by (auto simp: clean_list_def)
  have "n = 0"
  proof (cases n)
    case (Suc m)
    then obtain rest where "path_comps p = dotdot # rest" using c by simp
    with clean have "climbs (Clean p)" by (cases rest) (auto simp: climbs_def render_path_def HasPrefix_iff)
    with assms(2) show ?thesis by simp
  qed
  with c clean rel show ?thesis by simp
qed

lemma SafePathClean_below:
  assumes "SafePathClean v tr destDir rel = Inr t" and "clean_dest v destDir = Inr (render_path True ds)"
    and "clean_list True ds"
  shows "\<exists>rs. list_all plain_comp rs \<and> t = render_path True (ds @ rs)"
proof -
  from assms(1,2) have "rel \<noteq> []" "\<not> climbs (Clean rel)" "t = Join_path [render_path True ds, Clean rel]"
    by (auto simp: SafePathClean_def climbs_def Let_def result_simps split: if_splits)
  with not_climbing [of rel] Join_below_clean [OF assms(3), of "path_comps rel"] show ?thesis by auto
qed

text \<open>The string test of the sources agrees with the components, for cleaned absolute paths.\<close>

lemma in_root_below:
  assumes "clean_list True ds" and "clean_list True ps" and "in_root (render_path True ps) (render_path True ds)"
  shows "below (render_path True ds) (render_path True ps)"
proof -
  have "prefix ds ps"
  proof (cases "ps = ds")
    case False
    then have "render_path True ps \<noteq> render_path True ds" using assms(1,2) path_comps_render by metis
    with assms(3) obtain t where t: "render_path True ps = render_path True ds @ slash # t"
      by (auto simp: in_root_def HasPrefix_iff)
    have split: "Split (render_path True cs) slash = (if cs = [] then [[], []] else [] # cs)" if "clean_list True cs" for cs
      using Split_Join_slash [of cs] clean_list_no_slash [OF that] by (simp add: render_path_def)
    have "Split (render_path True ps) slash = Split (render_path True ds) slash @ Split t slash"
      by (simp only: t Split_append)
    with split [OF assms(1)] split [OF assms(2)] have "ps = ds @ Split t slash \<or> ds = []"
      by (auto simp: append_eq_Cons_conv split: if_splits)
    then show ?thesis by auto
  qed simp
  then show ?thesis using assms(1,2) by (simp add: below_def is_abs_render Clean_render path_comps_render)
qed

text \<open>What the calls of an extraction into \<open>root\<close> may touch.\<close>

fun confined :: "string \<Rightarrow> pk_call \<Rightarrow> bool" where
  "confined root (PkMkdirAll p m) \<longleftrightarrow> below root p \<or> p = Dir root"
| "confined root (PkRemove p) \<longleftrightarrow> below root p"
| "confined root (PkRemoveAll p) \<longleftrightarrow> below root p"
| "confined root (PkSymlink l p) \<longleftrightarrow> below root p \<and> (\<not> is_abs l \<longrightarrow> below root (Join_path [Dir p, l]))"
| "confined root (PkLink a p) \<longleftrightarrow> below root a \<and> below root p"
| "confined root (PkOpenDir p) \<longleftrightarrow> below root p"
| "confined root (PkOpenat2Beneath d r m) \<longleftrightarrow> below root d \<and> below root (Join_path [d, r])"
| "confined root (PkOpenFile p m) \<longleftrightarrow> below root p"
| "confined root (PkCopy p b) \<longleftrightarrow> below root p"

text \<open>The target of an entry, and the directory it stands in.\<close>

definition entry_target :: "string list \<Rightarrow> string \<Rightarrow> bool" where
  "entry_target ds t \<longleftrightarrow> (\<exists>rs. list_all plain_comp rs \<and> t = render_path True (ds @ rs))"

lemma entry_target_below: "clean_list True ds \<Longrightarrow> entry_target ds t \<Longrightarrow> below (render_path True ds) t"
  by (auto simp: entry_target_def below_render)

lemma entry_target_Dir:
  assumes "clean_list True ds" and "entry_target ds t"
  shows "below (render_path True ds) (Dir t) \<or> Dir t = Dir (render_path True ds)"
proof -
  from assms(2) obtain rs where rs: "list_all plain_comp rs" "t = render_path True (ds @ rs)"
    by (auto simp: entry_target_def)
  show ?thesis
  proof (cases rs rule: rev_cases)
    case (snoc qs q)
    with rs have qs: "list_all plain_comp qs" by simp
    have "Dir t = render_path True (ds @ qs)"
      using Dir_render [of "ds @ qs" q] clean_list_append [OF assms(1) rs(1)] rs(2) snoc by simp
    then show ?thesis using below_render [OF assms(1) qs] by simp
  qed (use rs in simp)
qed

lemma Dir_abs: "clean_list True ds \<Longrightarrow> is_abs (Dir (render_path True ds))"
proof (cases ds rule: rev_cases)
  case Nil
  then show ?thesis by (simp add: go_eval)
next
  case (snoc ds' d)
  assume "clean_list True ds"
  with snoc Dir_render [of ds' d] show ?thesis by (simp add: is_abs_def render_path_def)
qed

lemma ValidateSymlinkTarget_below:
  assumes "ValidateSymlinkTarget v destDir t l = None" and "clean_dest v destDir = Inr (render_path True ds)"
    and "clean_list True ds" and "entry_target ds t" and "\<not> is_abs l"
  shows "below (render_path True ds) (Join_path [Dir t, l])"
proof -
  from assms(4) obtain rs where "list_all plain_comp rs" "t = render_path True (ds @ rs)"
    by (auto simp: entry_target_def)
  with Dir_abs [OF clean_list_append [OF assms(3)]] have "is_abs (Dir t)" by simp
  then obtain ps where ps: "clean_list True ps" "Join_path [Dir t, l] = render_path True ps"
    using Join_abs by blast
  have "in_root (Clean (Join_path [Dir t, l])) (render_path True ds)"
    using assms(1,2,5) by (auto simp: ValidateSymlinkTarget_def is_abs_def Let_def split: if_splits)
  with ps in_root_below [OF assms(3) ps(1)] show ?thesis by (simp add: Clean_render)
qed

text \<open>The parts of an entry, each confined.\<close>

lemma SafeOpenFile_confined:
  assumes "clean_dest v destDir = Inr (render_path True ds)" and "clean_list True ds" and "entry_target ds t"
  shows "emits (confined (render_path True ds)) (SafeOpenFile v w destDir t mode)"
proof -
  let ?root = "render_path True ds"
  from assms(3) obtain rs where rs: "list_all plain_comp rs" "t = render_path True (ds @ rs)"
    by (auto simp: entry_target_def)
  have rel: "Rel ?root t = Some (render_path False rs)" using Rel_below [OF assms(2) rs(1)] rs(2) by simp
  have "Join_path [?root, render_path False rs] = t" using Join_below_clean [OF assms(2) rs(1)] rs(2) by simp
  moreover have "below ?root t" by (rule entry_target_below [OF assms(2,3)])
  moreover have "below ?root ?root" using below_render [OF assms(2), of "[]"] by simp
  ultimately show ?thesis
    using assms(1) by (auto simp: emits_def SafeOpenFile_def rel must_def Let_def split: option.splits)
qed

lemma clearDirectoryContents_confined:
  assumes "os_names v" and "clean_list True ds" and "entry_target ds d"
  shows "emits (confined (render_path True ds)) (clearDirectoryContents v w d)"
proof -
  from assms(3) obtain rs where rs: "list_all plain_comp rs" "d = render_path True (ds @ rs)"
    by (auto simp: entry_target_def)
  have one: "below (render_path True ds) (Join_path [d, n])" if "plain_comp n" for n
    using Join_plain [OF clean_list_append [OF assms(2) rs(1)] that] below_render [OF assms(2), of "rs @ [n]"] rs that
    by simp
  show ?thesis
  proof (rule emits_history)
    fix tr
    show "\<exists>m. clearDirectoryContents v w d tr = m tr \<and> emits (confined (render_path True ds)) m"
    proof (cases "pv_readdir v tr d")
      case PkNoDir
      then show ?thesis by (intro exI [of _ ok]) (simp add: clearDirectoryContents_def ok_def emits_def)
    next
      case (PkReadError e)
      then show ?thesis by (intro exI [of _ "fail e"]) (simp add: clearDirectoryContents_def fail_def emits_def)
    next
      case (PkEntries names)
      let ?m = "steps (map (\<lambda>n. must w (PkRemoveAll (Join_path [d, n])) (\<lambda>e. e)) names)"
      from PkEntries assms(1) have "list_all plain_comp names" by (auto simp: os_names_def)
      then have "emits (confined (render_path True ds)) ?m"
        by (auto simp: list_all_iff one intro!: emits_intro)
      with PkEntries show ?thesis by (intro exI [of _ ?m]) (simp add: clearDirectoryContents_def)
    qed
  qed
qed

lemma extract_node_confined:
  assumes dest: "clean_dest v destDir = Inr (render_path True ds)" and ds: "clean_list True ds" and t: "entry_target ds t"
  shows "emits (confined (render_path True ds)) (extract_node v w destDir hdr t)"
proof -
  let ?P = "confined (render_path True ds)"
  note below = entry_target_below [OF ds t] and parent = entry_target_Dir [OF ds t]
  have reg: "emits ?P (extract_reg v w destDir hdr t)"
    using below parent SafeOpenFile_confined [OF dest ds t] by (auto simp: extract_reg_def intro!: emits_intro)
  have link: "?P (PkSymlink (te_Linkname hdr) t)" if "ValidateSymlinkTarget v destDir t (te_Linkname hdr) = None"
    using below ValidateSymlinkTarget_below [OF that dest ds t] by auto
  have sym: "emits ?P (extract_symlink v w destDir hdr t)"
    using below parent link by (auto simp: extract_symlink_def intro!: emits_intro split: option.splits)
  have hard: "emits ?P (extract_hardlink v w destDir hdr t)"
  proof (rule emits_history)
    fix tr
    show "\<exists>m. extract_hardlink v w destDir hdr t tr = m tr \<and> emits ?P m"
    proof (cases "SafePathClean v tr destDir (te_Linkname hdr)")
      case (Inl e)
      then show ?thesis
        by (intro exI [of _ "fail (HardlinkRejected (te_Name hdr) (te_Linkname hdr) e)"])
          (simp add: extract_hardlink_def fail_def emits_def)
    next
      case (Inr a)
      let ?link = "\<lambda>tr'. case w tr' (PkLink a t) of
                None \<Rightarrow> (None, tr' @ [PkLink a t])
              | Some _ \<Rightarrow>
                  when_act (ValidateSymlinkTarget v destDir t (te_Linkname hdr) = None)
                    (attempt (PkSymlink (te_Linkname hdr) t)) (tr' @ [PkLink a t])"
      let ?m = "steps [must w (PkMkdirAll (Dir t) 0x1ED) (HardlinkParentFailed t), attempt (PkRemove t), ?link]"
      from SafePathClean_below [OF Inr dest ds] have "below (render_path True ds) a"
        by (auto intro: below_render [OF ds])
      then have "emits ?P ?link"
        using below link by (auto simp: emits_def when_act_def attempt_def ok_def split: option.splits)
      then have "emits ?P ?m" using below parent by (auto intro!: emits_intro)
      with Inr show ?thesis by (intro exI [of _ ?m]) (simp add: extract_hardlink_def)
    qed
  qed
  show ?thesis
    using reg sym hard below by (auto simp: extract_node_def intro!: emits_intro split: tar_type.splits)
qed

lemma extract_layer_entry_confined:
  assumes os: "os_names v" and dest: "clean_dest v destDir = Inr (render_path True ds)" and ds: "clean_list True ds"
  shows "emits (confined (render_path True ds)) (extract_layer_entry v w destDir hdr)"
proof (rule emits_history)
  fix tr
  note target = SafePathClean_below [OF _ dest ds, folded entry_target_def]
  have "(\<exists>e. extract_layer_entry v w destDir hdr tr = fail e tr) \<or>
      (\<exists>d. entry_target ds d \<and> extract_layer_entry v w destDir hdr tr = map_err (OpaqueFailed d) (clearDirectoryContents v w d) tr) \<or>
      (\<exists>f. entry_target ds f \<and> extract_layer_entry v w destDir hdr tr = attempt (PkRemoveAll f) tr) \<or>
      (\<exists>t. entry_target ds t \<and> extract_layer_entry v w destDir hdr tr = extract_node v w destDir hdr t tr)"
    by (auto simp: extract_layer_entry_def fail_def Let_def dest: target split: sum.split)
  then show "\<exists>m. extract_layer_entry v w destDir hdr tr = m tr \<and> emits (confined (render_path True ds)) m"
    using extract_node_confined [OF dest ds] clearDirectoryContents_confined [OF os ds] entry_target_below [OF ds]
    by (metis emits_fail emits_map_err emits_attempt confined.simps(3))
qed


text \<open>A system without symbolic links in the way, and one archive that uses every kind of entry.\<close>

definition plain_view :: pk_view where
  "plain_view = \<lparr>pv_getwd = Inr ''/build'', pv_lstat = \<lambda>_ _. PkNotSymlink, pv_eval_symlinks = \<lambda>_ p. Inr p,
     pv_readdir = \<lambda>_ _. PkEntries [''old'']\<rparr>"

definition tar_node :: "string \<Rightarrow> tar_type \<Rightarrow> string \<Rightarrow> tar_entry" where
  "tar_node n ty l = \<lparr>te_Name = n, te_Type = ty, te_Mode = 420, te_Linkname = l, te_Data = ''x''\<rparr>"

definition sample_layer :: "tar_entry list" where
  "sample_layer =
     [tar_node ''etc/'' TypeDir [], tar_node ''etc/.wh..wh..opq'' TypeReg [], tar_node ''etc/.wh.motd'' TypeReg [],
      tar_node ''./etc/hosts'' TypeReg [], tar_node ''bin/sh'' TypeSymlink ''../etc/hosts'', tar_node ''h'' TypeLink ''etc/hosts'']"

lemma plain_view_names: "os_names plain_view"
  by (simp add: os_names_def plain_view_def is_abs_def plain_comp_def dotdot_def)

lemma plain_view_dest: "clean_dest plain_view ''rootfs'' = Inr ''/build/rootfs''"
  by (simp add: plain_view_def go_eval)


lemma in_root_append:
  assumes "clean_list True ds" and "list_all plain_comp rs"
  shows "in_root (render_path True (ds @ rs)) (render_path True ds) \<longleftrightarrow> ds \<noteq> [] \<or> rs = []"
proof -
  have join: "Join_strings (xs @ ys) [slash] = Join_strings xs [slash] @ slash # Join_strings ys [slash]"
    if "xs \<noteq> []" "ys \<noteq> []" for xs ys :: "string list"
    using that by (induction xs rule: induct_list012) (cases ys, simp_all)+
  show ?thesis
  proof (cases "ds = [] \<or> rs = []")
    case False
    then show ?thesis by (simp add: in_root_def render_path_def join HasPrefix_iff)
  next
    case True
    moreover have "\<not> in_root (render_path True rs) [slash]" if ne: "rs \<noteq> []"
    proof -
      obtain x c rs' where "rs = (x # c) # rs'" "x \<noteq> slash"
        using ne assms(2) by (cases rs; cases "hd rs") (auto simp: plain_comp_def)
      then show ?thesis by (cases rs') (simp_all add: in_root_def render_path_def HasPrefix_iff)
    qed
    ultimately show ?thesis by (cases "rs = []") (auto simp: in_root_def render_path_def)
  qed
qed

lemma check_parents_plain:
  "\<forall>p. pv_lstat v tr p = PkNotExist \<or> pv_lstat v tr p = PkNotSymlink \<Longrightarrow> check_parents v tr root cur ps = Inr ()"
proof (induction ps arbitrary: cur rule: induct_list012)
  case (3 p q ps)
  from 3(3) consider "pv_lstat v tr (Join_path [cur, p]) = PkNotExist" | "pv_lstat v tr (Join_path [cur, p]) = PkNotSymlink"
    by blast
  then show ?case using 3 by cases (simp_all add: Let_def)
qed simp_all

text \<open>
  An accepted path is exactly the one meant. Where no parent is a symbolic link, \<open>SafePathClean\<close>
  refuses the empty name and every name that is absolute or climbs above its start, and otherwise
  returns the path whose components are those of the root followed by those of the name; a root
  that is the directory \<open>/\<close> itself accepts only names that denote the root.
\<close>

theorem safe_path_exact:
  assumes "os_names v" and "clean_dest v destDir = Inr root"
    and "\<forall>p. pv_lstat v tr p = PkNotExist \<or> pv_lstat v tr p = PkNotSymlink"
  shows "SafePathClean v tr destDir rel =
    (if rel = [] then Inl EmptyEntryPath
     else if climbs (Clean rel) then Inl (TraversalDetected rel)
     else if root = ''/'' \<and> path_comps rel \<noteq> [] then Inl (EscapesRoot rel root)
     else Inr (render_path True (path_comps root @ path_comps rel)))"
proof -
  obtain ds where ds: "clean_list True ds" "root = render_path True ds"
    using clean_dest_root [OF assms(1,2)] by blast
  have root: "root = ''/'' \<longleftrightarrow> ds = []"
    using render_root [OF ds(1)] ds(2) by (auto simp: go_eval)
  have pc: "path_comps root = ds" using ds by (simp add: path_comps_render)
  have climbs: "climbs (Clean rel) = (HasPrefix (Clean rel) [slash] \<or> HasPrefix (Clean rel) (dotdot @ [slash]) \<or> Clean rel = dotdot)"
    by (simp add: climbs_def)
  show ?thesis
  proof (cases "rel = [] \<or> climbs (Clean rel)")
    case True
    then show ?thesis using assms(2) by (auto simp: SafePathClean_def climbs_def)
  next
    case False
    then have plain: "list_all plain_comp (path_comps rel)" and cl: "Clean rel = render_path False (path_comps rel)"
      using not_climbing [of rel] by auto
    from False assms(2) have "SafePathClean v tr destDir rel =
        (if \<not> in_root (Join_path [root, Clean rel]) root then Inl (EscapesRoot rel root)
         else Inr (Join_path [root, Clean rel]))"
      by (simp add: SafePathClean_def climbs [symmetric] check_parents_plain [OF assms(3)] del: HasPrefix_single)
    moreover have "Join_path [root, Clean rel] = render_path True (ds @ path_comps rel)"
      using Join_below_clean [OF ds(1) plain] ds(2) cl by simp
    ultimately show ?thesis
      using False in_root_append [OF ds(1) plain] root pc ds(2) by simp
  qed
qed

theorem safe_path_exact_witness:
  "SafePathClean plain_view [] ''rootfs'' ''./etc//passwd'' = Inr ''/build/rootfs/etc/passwd'' \<and>
   SafePathClean plain_view [] ''rootfs'' ''etc/../../x'' = Inl (TraversalDetected ''etc/../../x'')"
proof -
  have "\<forall>p. pv_lstat plain_view [] p = PkNotExist \<or> pv_lstat plain_view [] p = PkNotSymlink"
    by (simp add: plain_view_def)
  note exact = safe_path_exact [OF plain_view_names plain_view_dest this]
  show ?thesis unfolding exact by (simp add: climbs_def go_eval)
qed

text \<open>
  The confined open is not the last word. An archive that first links a name to an absolute
  path and then writes a file of that name passes every check: the link is created with its
  absolute target, the kernel refuses the confined open of it, and the file is then opened by an
  ordinary open, which follows the link out of the root.
\<close>

definition refuses_beneath :: "pk_call world" where
  "refuses_beneath tr c = (case c of PkOpenat2Beneath _ _ _ \<Rightarrow> Some ''invalid cross-device link'' | _ \<Rightarrow> None)"

theorem absolute_link_followed:
  "ExtractLayerTarball v refuses_beneath
     (\<lambda>_. ([tar_node ''evil'' TypeSymlink ''/etc/passwd'', tar_node ''evil'' TypeReg []], None)) r ''/rootfs'' [] =
   (None,
    [PkMkdirAll ''/rootfs'' 493, PkRemove ''/rootfs/evil'', PkSymlink ''/etc/passwd'' ''/rootfs/evil'',
     PkMkdirAll ''/rootfs'' 493, PkOpenDir ''/rootfs'', PkOpenat2Beneath ''/rootfs'' ''evil'' 420,
     PkOpenFile ''/rootfs/evil'' 420, PkCopy ''/rootfs/evil'' ''x''])"
  by (simp add: tar_node_def refuses_beneath_def layer_mode_def go_eval cong: strict_congs)

end
