(* ===== verification/PkgMerge.thy ===== *)
theory PkgMerge
  imports PkgExtract
begin

text \<open>
  \<open>internal/pkgd/layer.go\<close> and \<open>internal/pkgd/merger.go\<close>: the layer configuration file, read and
  written, and the merging of its layers into a root directory. Files, archives and decoders are
  the parameter \<open>merge_env\<close>; what changes the file system are the calls of \<open>pk_call\<close>. A compressed
  stream that breaks off is read as its readable part.
\<close>

subsection \<open>The layer configuration\<close>

definition LayerTypeOCIArchive :: string where "LayerTypeOCIArchive = ''oci-archive''"
definition LayerTypeTarball :: string where "LayerTypeTarball = ''tarball''"
definition LayerTypeDirectory :: string where "LayerTypeDirectory = ''directory''"
definition LayerTypeBinary :: string where "LayerTypeBinary = ''binary''"

record LayerSpec =
  ls_Name :: string
  ls_Type :: string
  ls_Path :: string
  ls_TargetDir :: string
  ls_SHA256 :: string

type_synonym LayerConfig = "LayerSpec list"

definition new_layer :: LayerSpec where
  "new_layer = \<lparr>ls_Name = [], ls_Type = LayerTypeOCIArchive, ls_Path = [], ls_TargetDir = [], ls_SHA256 = []\<rparr>"

datatype layers_error = LayersRead string string | LayersOpen string | LayersScan string | LayersPanic

text \<open>\<open>s[1:len(s)-1]\<close> panics on a lone quote.\<close>

definition layer_unquote :: "string \<Rightarrow> (layers_error, string) result" where
  "layer_unquote s =
     (if (HasPrefix s [CHR 0x22] \<and> HasSuffix s [CHR 0x22]) \<or> (HasPrefix s [CHR 0x27] \<and> HasSuffix s [CHR 0x27])
      then (if length s < 2 then Inl LayersPanic else Inr (butlast (tl s)))
      else Inr s)"

definition set_layer_key :: "string \<Rightarrow> string \<Rightarrow> LayerSpec \<Rightarrow> LayerSpec" where
  "set_layer_key k val l =
     (if k = ''name'' then l\<lparr>ls_Name := val\<rparr>
      else if k = ''type'' then l\<lparr>ls_Type := val\<rparr>
      else if k = ''path'' then l\<lparr>ls_Path := val\<rparr>
      else if k = ''target_dir'' then l\<lparr>ls_TargetDir := val\<rparr>
      else if k = ''sha256'' then l\<lparr>ls_SHA256 := val\<rparr>
      else l)"

text \<open>One line: the layers finished so far and the current one.\<close>

definition layer_line ::
  "string \<Rightarrow> LayerSpec list \<times> LayerSpec option \<Rightarrow> (layers_error, LayerSpec list \<times> LayerSpec option) result"
where
  "layer_line raw st =
     (case st of (done, cur) \<Rightarrow>
        let l = TrimSpace raw
        in if l = [] \<or> HasPrefix l ''#'' then Inr st
           else if l = ''[[layer]]'' \<or> l = ''[layer]''
             then Inr (case cur of None \<Rightarrow> done | Some c \<Rightarrow> done @ [c], Some new_layer)
           else case SplitN2 l CHR ''='' of
                  [k, val] \<Rightarrow>
                    bind_res (layer_unquote (TrimSpace val)) (\<lambda>u.
                      Inr (done, Some (set_layer_key (TrimSpace k) u (case cur of None \<Rightarrow> new_layer | Some c \<Rightarrow> c))))
                | _ \<Rightarrow> Inr st)"

definition finish_layers :: "LayerSpec list \<times> LayerSpec option \<Rightarrow> LayerConfig" where
  "finish_layers st =
     (case st of
        (done, None) \<Rightarrow> done
      | (done, Some c) \<Rightarrow> if ls_Name c \<noteq> [] then done @ [c] else done)"

definition parseLayerTOML :: "(string \<Rightarrow> (string, bytes) result) \<Rightarrow> string \<Rightarrow> (layers_error, LayerConfig) result" where
  "parseLayerTOML open filePath =
     (case open filePath of
        Inl e \<Rightarrow> Inl (LayersOpen e)
      | Inr data \<Rightarrow>
          (case scan_lines data of
             (ls, too_long) \<Rightarrow>
               bind_res (fold_res layer_line ls ([], None)) (\<lambda>st.
                 if too_long then Inl (LayersScan filePath) else Inr (finish_layers st))))"

datatype read_result = ReadNotExist | ReadFailed string | ReadData bytes

record layers_env =
  le_readfile :: "string \<Rightarrow> read_result"
  le_open :: "string \<Rightarrow> (string, bytes) result"
  le_json_decode :: "bytes \<Rightarrow> (string, LayerConfig) result"
  le_json_encode :: "LayerConfig \<Rightarrow> (string, bytes) result"

definition LoadLayerConfig :: "layers_env \<Rightarrow> string \<Rightarrow> (layers_error, LayerConfig) result" where
  "LoadLayerConfig le filePath =
     (case le_readfile le filePath of
        ReadNotExist \<Rightarrow> Inr []
      | ReadFailed e \<Rightarrow> Inl (LayersRead filePath e)
      | ReadData data \<Rightarrow>
          (case (if HasSuffix filePath ''.json'' \<or> HasPrefix (TrimSpace data) ''{'' then le_json_decode le data else Inl []) of
             Inr cfg \<Rightarrow> Inr cfg
           | Inl _ \<Rightarrow> parseLayerTOML (le_open le) filePath))"

definition toml_line :: "string \<Rightarrow> string \<Rightarrow> string" where
  "toml_line k val = k @ '' = '' @ Quote val @ newline"

definition layer_toml :: "LayerSpec \<Rightarrow> string" where
  "layer_toml l =
     ''[[layer]]'' @ newline @
     toml_line ''name'' (ls_Name l) @ toml_line ''type'' (ls_Type l) @ toml_line ''path'' (ls_Path l) @
     (if ls_TargetDir l \<noteq> [] then toml_line ''target_dir'' (ls_TargetDir l) else []) @
     (if ls_SHA256 l \<noteq> [] then toml_line ''sha256'' (ls_SHA256 l) else []) @ newline"

text \<open>The header comment of the file; its dash is the three bytes of U+2014.\<close>

definition layers_toml :: "LayerConfig \<Rightarrow> string" where
  "layers_toml cfg =
     ''# Karim MicroVM OS '' @ [CHR 0xE2, CHR 0x80, CHR 0x94] @ '' Layer Specification Config'' @ newline @ newline @
     concat (map layer_toml cfg)"

datatype lc_call = LcMkdirAll string nat | LcWriteFile string bytes nat

definition SaveLayerConfig :: "layers_env \<Rightarrow> lc_call world \<Rightarrow> LayerConfig option \<Rightarrow> string \<Rightarrow> (lc_call, string) action" where
  "SaveLayerConfig le w cfg filePath =
     (let layers = (case cfg of None \<Rightarrow> [] | Some c \<Rightarrow> c)
      in if HasSuffix filePath ''.json''
         then (case le_json_encode le layers of
                 Inl e \<Rightarrow> fail e
               | Inr data \<Rightarrow> must w (LcWriteFile filePath data 0x1A4) (\<lambda>e. e))
         else steps [must w (LcMkdirAll (Dir filePath) 0x1ED) (\<lambda>e. e),
                     must w (LcWriteFile filePath (layers_toml layers) 0x1A4) (\<lambda>e. e)])"

subsection \<open>Merging\<close>

datatype walk_tree = WFile | WDir "(string \<times> walk_tree) list" | WUnreadable string | WLstatError string

text \<open>A source file: opening or examining it can fail; otherwise its mode and contents.\<close>

record merge_env =
  mg_archive :: archive_env
  mg_view :: pk_view
  mg_stat :: "pk_call list \<Rightarrow> string \<Rightarrow> string option"
  mg_source :: "pk_call list \<Rightarrow> string \<Rightarrow> (string, nat \<times> bytes) result"
  mg_walk :: "pk_call list \<Rightarrow> string \<Rightarrow> walk_tree"

datatype unpack_error =
    InspectFailed archive_error
  | NoLayers string
  | UnpackOpen string string
  | UnpackGzip string
  | UnpackTar string
  | LayerPayload string string
  | LayerMissing string
  | LayerGzip string string
  | LayerExtract nat string layer_error

datatype merge_error =
    SourceMissing nat string string
  | MergeTargetFailed string
  | ArchiveLayer string unpack_error
  | TarballOpen string string
  | TarballGzip string string
  | TarballExtract string layer_error
  | DirectoryCopy string string
  | BinaryCopy string string
  | UnsupportedLayer string string

text \<open>The layer blobs of an image archive, by cleaned name; a later entry of the same name wins.\<close>

fun layer_blobs :: "archive_env \<Rightarrow> string set \<Rightarrow> tar_entry list \<Rightarrow> (string \<rightharpoonup> bytes) \<Rightarrow> (unpack_error, string \<rightharpoonup> bytes) result" where
  "layer_blobs ae names [] m = Inr m"
| "layer_blobs ae names (h # hs) m =
     (if Clean (te_Name h) \<in> names
      then (case ae_readall ae h of
              Inl e \<Rightarrow> Inl (LayerPayload (Clean (te_Name h)) e)
            | Inr data \<Rightarrow> layer_blobs ae names hs (m(Clean (te_Name h) \<mapsto> data)))
      else layer_blobs ae names hs m)"

definition gzip_magic :: "bytes \<Rightarrow> bool" where
  "gzip_magic data \<longleftrightarrow> take 2 data = [CHR 0x1F, CHR 0x8B]"

definition unpack_layer ::
  "merge_env \<Rightarrow> pk_call world \<Rightarrow> string \<Rightarrow> (string \<rightharpoonup> bytes) \<Rightarrow> nat \<times> string \<Rightarrow> (pk_call, unpack_error) action"
where
  "unpack_layer me w targetRoot blobs il =
     (case il of (idx, layerPath) \<Rightarrow>
        (case blobs (Clean layerPath) of
           None \<Rightarrow> fail (LayerMissing layerPath)
         | Some data \<Rightarrow>
             (case (if gzip_magic data \<or> is_gz_name layerPath then ae_gunzip (mg_archive me) data else Inr data) of
                Inl e \<Rightarrow> fail (LayerGzip layerPath e)
              | Inr r \<Rightarrow>
                  map_err (LayerExtract idx layerPath)
                    (ExtractLayerTarball (mg_view me) w (ae_untar (mg_archive me)) r targetRoot))))"

definition read_blobs :: "archive_env \<Rightarrow> string \<Rightarrow> string list \<Rightarrow> (unpack_error, string \<rightharpoonup> bytes) result" where
  "read_blobs ae tarPath layers =
     (case ae_open ae tarPath of
        Inl e \<Rightarrow> Inl (UnpackOpen tarPath e)
      | Inr f \<Rightarrow>
          (case (if is_gz_name tarPath then ae_gunzip ae f else Inr f) of
             Inl e \<Rightarrow> Inl (UnpackGzip e)
           | Inr r \<Rightarrow>
               (case ae_untar ae r of
                  (entries, err) \<Rightarrow>
                    bind_res (layer_blobs ae (Clean ` set layers) entries Map.empty) (\<lambda>m.
                      case err of None \<Rightarrow> Inr m | Some e \<Rightarrow> Inl (UnpackTar e)))))"

definition UnpackOCIArchive :: "merge_env \<Rightarrow> pk_call world \<Rightarrow> string \<Rightarrow> string \<Rightarrow> (pk_call, unpack_error) action" where
  "UnpackOCIArchive me w tarPath targetRoot =
     (case InspectOCIArchive (mg_archive me) tarPath of
        Inl e \<Rightarrow> fail (InspectFailed e)
      | Inr info \<Rightarrow>
          if oa_LayerPaths info = [] then fail (NoLayers tarPath)
          else case read_blobs (mg_archive me) tarPath (oa_LayerPaths info) of
                 Inl e \<Rightarrow> fail e
               | Inr blobs \<Rightarrow> steps (map (unpack_layer me w targetRoot blobs) (enumerate 0 (oa_LayerPaths info))))"

definition copyExecutableFile :: "merge_env \<Rightarrow> pk_call world \<Rightarrow> string \<Rightarrow> string \<Rightarrow> (pk_call, string) action" where
  "copyExecutableFile me w srcPath destPath tr =
     (case mg_source me tr srcPath of
        Inl e \<Rightarrow> (Some e, tr)
      | Inr (mode, data) \<Rightarrow>
          steps [must w (PkMkdirAll (Dir destPath) 0x1ED) (\<lambda>e. e),
                 must w (PkOpenFile destPath (layer_mode mode)) (\<lambda>e. e),
                 must w (PkCopy destPath data) (\<lambda>e. e)] tr)"

text \<open>
  \<open>filepath.Walk\<close> with the copying function: a directory is visited before its entries, in the order
  of the listing. \<open>rel\<close> holds the components below the source, which is what \<open>filepath.Rel\<close> gives.
\<close>

fun copy_tree :: "merge_env \<Rightarrow> pk_call world \<Rightarrow> string \<Rightarrow> string \<Rightarrow> string list \<Rightarrow> walk_tree \<Rightarrow> (pk_call, string) action"
  and copy_entries :: "merge_env \<Rightarrow> pk_call world \<Rightarrow> string \<Rightarrow> string \<Rightarrow> string list \<Rightarrow> (string \<times> walk_tree) list \<Rightarrow> (pk_call, string) action"
where
  "copy_tree me w srcDir destDir rel (WLstatError e) = fail e"
| "copy_tree me w srcDir destDir rel (WUnreadable e) = fail e"
| "copy_tree me w srcDir destDir rel WFile =
     (if rel = [] then ok
      else copyExecutableFile me w (Join_path (srcDir # rel)) (Join_path [destDir, render_path False rel]))"
| "copy_tree me w srcDir destDir rel (WDir es) =
     and_then
       (if rel = [] then ok else must w (PkMkdirAll (Join_path [destDir, render_path False rel]) 0x1ED) (\<lambda>e. e))
       (copy_entries me w srcDir destDir rel es)"
| "copy_entries me w srcDir destDir rel [] = ok"
| "copy_entries me w srcDir destDir rel ((n, t) # es) =
     and_then (copy_tree me w srcDir destDir (rel @ [n]) t) (copy_entries me w srcDir destDir rel es)"

definition copyDirectoryTree :: "merge_env \<Rightarrow> pk_call world \<Rightarrow> string \<Rightarrow> string \<Rightarrow> (pk_call, string) action" where
  "copyDirectoryTree me w srcDir destDir tr = copy_tree me w srcDir destDir [] (mg_walk me tr srcDir) tr"

definition layer_path :: "string \<Rightarrow> LayerSpec \<Rightarrow> string" where
  "layer_path baseDir spec = (if is_abs (ls_Path spec) then ls_Path spec else Join_path [baseDir, ls_Path spec])"

definition layer_target :: "string \<Rightarrow> LayerSpec \<Rightarrow> string" where
  "layer_target targetRoot spec =
     (if ls_TargetDir spec \<noteq> [] then Join_path [targetRoot, ls_TargetDir spec] else targetRoot)"

definition merge_tarball :: "merge_env \<Rightarrow> pk_call world \<Rightarrow> LayerSpec \<Rightarrow> string \<Rightarrow> string \<Rightarrow> (pk_call, merge_error) action" where
  "merge_tarball me w spec layerPath targetDir =
     (case ae_open (mg_archive me) layerPath of
        Inl e \<Rightarrow> fail (TarballOpen (ls_Name spec) e)
      | Inr f \<Rightarrow>
          (case (if is_gz_name layerPath then ae_gunzip (mg_archive me) f else Inr f) of
             Inl e \<Rightarrow> fail (TarballGzip (ls_Name spec) e)
           | Inr r \<Rightarrow>
               map_err (TarballExtract (ls_Name spec))
                 (ExtractLayerTarball (mg_view me) w (ae_untar (mg_archive me)) r targetDir)))"

definition merge_layer ::
  "merge_env \<Rightarrow> pk_call world \<Rightarrow> string \<Rightarrow> string \<Rightarrow> nat \<times> LayerSpec \<Rightarrow> (pk_call, merge_error) action"
where
  "merge_layer me w baseDir targetRoot il tr =
     (case il of (idx, spec) \<Rightarrow>
        let layerPath = layer_path baseDir spec; targetDir = layer_target targetRoot spec
        in case mg_stat me tr layerPath of
             Some e \<Rightarrow> (Some (SourceMissing idx (ls_Name spec) e), tr)
           | None \<Rightarrow>
               and_then (must w (PkMkdirAll targetDir 0x1ED) MergeTargetFailed)
                 (if ls_Type spec = LayerTypeOCIArchive
                    then map_err (ArchiveLayer (ls_Name spec)) (UnpackOCIArchive me w layerPath targetDir)
                  else if ls_Type spec = LayerTypeTarball
                    then merge_tarball me w spec layerPath targetDir
                  else if ls_Type spec = LayerTypeDirectory
                    then map_err (DirectoryCopy (ls_Name spec)) (copyDirectoryTree me w layerPath targetDir)
                  else if ls_Type spec = LayerTypeBinary
                    then map_err (BinaryCopy (ls_Name spec))
                           (copyExecutableFile me w layerPath (Join_path [targetDir, Base layerPath]))
                  else fail (UnsupportedLayer (ls_Type spec) (ls_Name spec))) tr)"

definition MergeLayerConfig ::
  "merge_env \<Rightarrow> pk_call world \<Rightarrow> LayerConfig option \<Rightarrow> string \<Rightarrow> string \<Rightarrow> (pk_call, merge_error) action"
where
  "MergeLayerConfig me w cfg baseDir targetRoot =
     (case cfg of
        None \<Rightarrow> ok
      | Some layers \<Rightarrow> steps (map (merge_layer me w baseDir targetRoot) (enumerate 0 layers)))"

subsection \<open>Saving and loading\<close>

definition storable :: "LayerSpec \<Rightarrow> bool" where
  "storable l \<longleftrightarrow> quotable (ls_Name l) \<and> quotable (ls_Type l) \<and> quotable (ls_Path l) \<and>
     quotable (ls_TargetDir l) \<and> quotable (ls_SHA256 l)"

text \<open>The keys of the format are words without spaces or separators.\<close>

definition layer_key :: "string \<Rightarrow> bool" where
  "layer_key k \<longleftrightarrow> k \<in> {''name'', ''type'', ''path'', ''target_dir'', ''sha256''}"

lemma layer_line_key:
  assumes "layer_key k"
  shows "layer_line (key_line k val) (done, Some c) = Inr (done, Some (set_layer_key k val c))"
proof -
  have k: "word_key k" "hd k \<noteq> CHR ''#''" "hd k \<noteq> CHR ''[''"
    using assms unfolding layer_key_def word_key_def by (elim insertE emptyE; simp add: is_space_def)+
  have hd: "hd (key_line k val) = hd k" using k(1) by (simp add: key_line_def word_key_def)
  have u: "layer_unquote (CHR 0x22 # val @ [CHR 0x22]) = Inr val"
    by (simp add: layer_unquote_def)
  have "key_line k val \<noteq> ''[[layer]]''" "key_line k val \<noteq> ''[layer]''" "\<not> HasPrefix (key_line k val) ''#''"
    "key_line k val \<noteq> []"
    using k hd by (auto simp: key_line_def)
  then show ?thesis by (simp add: layer_line_def key_line_reads [OF k(1)] u)
qed

lemma layer_line_open:
  "layer_line ''[[layer]]'' (done, cur) = Inr (case cur of None \<Rightarrow> done | Some c \<Rightarrow> done @ [c], Some new_layer)"
  by (simp add: layer_line_def go_eval)

lemma layer_line_blank: "layer_line [] st = Inr st"
  by (simp add: layer_line_def split: prod.splits)

text \<open>The lines of one layer.\<close>

definition layer_lines :: "LayerSpec \<Rightarrow> string list" where
  "layer_lines l =
     [''[[layer]]'', key_line ''name'' (ls_Name l), key_line ''type'' (ls_Type l), key_line ''path'' (ls_Path l)] @
     (if ls_TargetDir l \<noteq> [] then [key_line ''target_dir'' (ls_TargetDir l)] else []) @
     (if ls_SHA256 l \<noteq> [] then [key_line ''sha256'' (ls_SHA256 l)] else []) @ [[]]"

lemma layer_toml_lines: "storable l \<Longrightarrow> layer_toml l = concat (map (\<lambda>x. x @ [CHR 0x0A]) (layer_lines l))"
  by (simp add: storable_def layer_toml_def layer_lines_def toml_line_def key_line_def newline_def Quote_quotable)

lemma read_layer_lines:
  "fold_res layer_line (layer_lines l) (done, cur) = Inr (case cur of None \<Rightarrow> done | Some c \<Rightarrow> done @ [c], Some l)"
  by (simp add: layer_lines_def layer_line_open layer_line_key layer_key_def layer_line_blank set_layer_key_def new_layer_def)

lemma read_all_layers:
  "fold_res layer_line (concat (map layer_lines (cfg @ [l]))) ([], None) = Inr (cfg, Some l)"
proof (induction cfg arbitrary: l rule: rev_induct)
  case Nil
  show ?case using read_layer_lines [of l "[]" None] by simp
next
  case (snoc c cfg)
  have "fold_res layer_line (concat (map layer_lines ((cfg @ [c]) @ [l]))) ([], None) =
      bind_res (fold_res layer_line (concat (map layer_lines (cfg @ [c]))) ([], None)) (fold_res layer_line (layer_lines l))"
    using fold_res_append [of layer_line "concat (map layer_lines (cfg @ [c]))" "layer_lines l"] by simp
  also have "\<dots> = Inr (cfg @ [c], Some l)"
    unfolding snoc.IH [of c] using read_layer_lines [of l cfg "Some c"] by simp
  finally show ?case .
qed

lemma storable_lines:
  "storable l \<Longrightarrow> \<forall>x \<in> set (layer_lines l). CHR 0x0A \<notin> set x \<and> CHR 0x0D \<notin> set x \<and> length x < MaxScanTokenSize"
  by (auto simp: layer_lines_def storable_def key_line_def MaxScanTokenSize_def quotable_no_break)
    (auto simp: quotable_def)

definition header_line :: string where
  "header_line = ''# Karim MicroVM OS '' @ [CHR 0xE2, CHR 0x80, CHR 0x94] @ '' Layer Specification Config''"

lemma layer_line_header: "layer_line header_line ([], None) = Inr ([], None)"
proof -
  obtain t where "TrimSpace header_line = CHR ''#'' # t"
    using TrimSpace_Cons [of "CHR ''#''"] by (force simp: header_line_def is_space_def)
  then show ?thesis by (simp add: layer_line_def)
qed

lemma parse_saved:
  assumes "list_all storable cfg" and "cfg = [] \<or> ls_Name (last cfg) \<noteq> []" and "open path = Inr (layers_toml cfg)"
  shows "parseLayerTOML open path = Inr cfg"
proof -
  let ?ls = "header_line # [] # concat (map layer_lines cfg)"
  have toml: "layers_toml cfg = concat (map (\<lambda>l. l @ [CHR 0x0A]) ?ls)"
  proof -
    from assms(1) have "concat (map layer_toml cfg) = concat (map (\<lambda>l. l @ [CHR 0x0A]) (concat (map layer_lines cfg)))"
      by (induction cfg) (simp_all add: layer_toml_lines)
    then show ?thesis by (simp add: layers_toml_def header_line_def newline_def)
  qed
  have "\<forall>l \<in> set ?ls. CHR 0x0A \<notin> set l \<and> CHR 0x0D \<notin> set l \<and> length l < MaxScanTokenSize"
    using assms(1) storable_lines by (auto simp: list_all_iff header_line_def MaxScanTokenSize_def)
  from scan_lines_concat [OF this] have scan: "scan_lines (layers_toml cfg) = (?ls, False)"
    unfolding toml .
  have "fold_res layer_line ?ls ([], None) = Inr (if cfg = [] then ([], None) else (butlast cfg, Some (last cfg)))"
  proof (cases cfg rule: rev_cases)
    case (snoc c l)
    then show ?thesis using read_all_layers [of c l] by (simp add: layer_line_header layer_line_blank)
  qed (simp add: layer_line_header layer_line_blank)
  with assms(2,3) scan show ?thesis
    by (cases cfg rule: rev_cases) (simp_all add: parseLayerTOML_def finish_layers_def)
qed

lemma layers_saved_load:
  assumes "list_all storable cfg" and "cfg = [] \<or> ls_Name (last cfg) \<noteq> []" and "\<not> HasSuffix path ''.json''"
    and "SaveLayerConfig le w (Some cfg) path tr = (None, tr')"
  shows "\<exists>data. last tr' = LcWriteFile path data 420 \<and>
    (\<forall>le'. le_readfile le' path = ReadData data \<longrightarrow> le_open le' path = Inr data \<longrightarrow> LoadLayerConfig le' path = Inr cfg)"
proof (intro exI conjI allI impI)
  show "last tr' = LcWriteFile path (layers_toml cfg) 420"
    using assms(3,4) by (auto simp: SaveLayerConfig_def and_then_def must_def ok_def split: option.splits)
  fix le' :: layers_env
  assume "le_readfile le' path = ReadData (layers_toml cfg)" "le_open le' path = Inr (layers_toml cfg)"
  moreover obtain t where "TrimSpace (layers_toml cfg) = CHR ''#'' # t"
    using TrimSpace_Cons [of "CHR ''#''"] by (force simp: layers_toml_def is_space_def)
  ultimately show "LoadLayerConfig le' path = Inr cfg"
    using assms(3) parse_saved [OF assms(1,2)] by (simp add: LoadLayerConfig_def)
qed

text \<open>
  C24: a saved layer configuration loads back. If saving to a file that is not a JSON file succeeds,
  the last call wrote that file, and any later load that reads those bytes from it gives exactly
  the layers saved, in order. The layers are ones whose texts are printable ASCII without quotes
  and backslashes, and the last one has a name.
\<close>

theorem layers_config_roundtrip:
  assumes "list_all storable cfg" and "cfg = [] \<or> ls_Name (last cfg) \<noteq> []" and "\<not> HasSuffix path ''.json''"
    and "SaveLayerConfig le w (Some cfg) path tr = (None, tr')"
  shows "\<exists>data. last tr' = LcWriteFile path data 420 \<and>
    (\<forall>le'. le_readfile le' path = ReadData data \<longrightarrow> le_open le' path = Inr data \<longrightarrow> LoadLayerConfig le' path = Inr cfg)"
  using assms by (rule layers_saved_load)

definition sample_config :: LayerConfig where
  "sample_config =
     [\<lparr>ls_Name = ''base'', ls_Type = ''oci-archive'', ls_Path = ''images/base.tar'', ls_TargetDir = [], ls_SHA256 = []\<rparr>,
      \<lparr>ls_Name = ''app'', ls_Type = ''binary'', ls_Path = ''bin/app'', ls_TargetDir = ''usr/bin'', ls_SHA256 = ''ab12''\<rparr>]"

definition file_env :: "bytes \<Rightarrow> layers_env" where
  "file_env data = \<lparr>le_readfile = \<lambda>_. ReadData data, le_open = \<lambda>_. Inr data,
     le_json_decode = \<lambda>_. Inl [], le_json_encode = \<lambda>_. Inl []\<rparr>"

theorem layers_config_roundtrip_witness:
  "\<exists>data. LoadLayerConfig (file_env data) ''config/layers.toml'' = Inr sample_config"
proof -
  have "list_all storable sample_config" "sample_config = [] \<or> ls_Name (last sample_config) \<noteq> []"
    by (simp_all add: sample_config_def storable_def quotable_def)
  moreover have "\<not> HasSuffix ''config/layers.toml'' ''.json''" by (simp add: go_eval)
  moreover have "\<exists>tr. SaveLayerConfig (file_env []) all_ok (Some sample_config) ''config/layers.toml'' [] = (None, tr)"
    by (simp add: SaveLayerConfig_def and_then_def ok_def HasSuffix_def)
  ultimately obtain data where "\<forall>le. le_readfile le ''config/layers.toml'' = ReadData data \<longrightarrow>
      le_open le ''config/layers.toml'' = Inr data \<longrightarrow> LoadLayerConfig le ''config/layers.toml'' = Inr sample_config"
    using layers_config_roundtrip by metis
  then show ?thesis by (intro exI [of _ data]) (simp add: file_env_def)
qed

subsection \<open>Merging stays in the root\<close>

fun walk_plain :: "walk_tree \<Rightarrow> bool" where
  "walk_plain (WDir es) \<longleftrightarrow> list_all (\<lambda>(n, t). plain_comp n \<and> walk_plain t) es"
| "walk_plain _ \<longleftrightarrow> True"

lemma clean_list_True: "clean_list True cs \<longleftrightarrow> list_all plain_comp cs"
  by (auto simp: clean_list_def)

lemma below_entry_target:
  assumes "clean_list True ds" and "below (render_path True ds) t"
  shows "entry_target ds t"
proof -
  from assms obtain rs where rs: "path_comps t = ds @ rs" and t: "is_abs t" "Clean t = t"
    by (auto simp: below_def path_comps_render prefix_def)
  from path_comps_clean [of t] rs t(1) have "list_all plain_comp rs" by (simp add: clean_list_True)
  moreover have "t = render_path True (ds @ rs)" using t rs by (auto simp: Clean_def is_abs_def)
  ultimately show ?thesis by (auto simp: entry_target_def)
qed

lemma confined_mono:
  assumes ds: "clean_list True ds" and t: "entry_target ds t" and c: "confined t c"
  shows "confined (render_path True ds) c"
proof -
  have trans: "below (render_path True ds) p" if "below t p" for p
    using that entry_target_below [OF ds t] by (auto simp: below_def intro: prefix_order.trans)
  with c entry_target_Dir [OF ds t] show ?thesis by (cases c) auto
qed

lemma emits_mono: "emits P m \<Longrightarrow> (\<And>c. P c \<Longrightarrow> Q c) \<Longrightarrow> emits Q m"
  unfolding emits_def by (metis list_all_iff)

lemma Extract_emits:
  assumes "os_names v" and ds: "clean_list True ds" and t: "entry_target ds t"
  shows "emits (confined (render_path True ds)) (ExtractLayerTarball v w untar r t)"
proof -
  from t obtain rs where rs: "list_all plain_comp rs" "t = render_path True (ds @ rs)"
    by (auto simp: entry_target_def)
  have cl: "clean_list True (ds @ rs)" by (rule clean_list_append [OF ds rs(1)])
  then have "clean_dest v t = Inr (render_path True (ds @ rs))"
    by (simp add: clean_dest_def rs(2) is_abs_render Clean_render)
  note entry = extract_layer_entry_confined [OF assms(1) this cl]
  have "emits (confined t) (ExtractLayerTarball v w untar r t)"
    unfolding ExtractLayerTarball_def
    by (auto simp: rs(2) [symmetric] intro!: emits_intro entry [unfolded rs(2) [symmetric]] split: prod.splits option.splits)
  then show ?thesis by (rule emits_mono) (rule confined_mono [OF ds t])
qed

lemma copyExecutableFile_emits:
  assumes ds: "clean_list True ds" and t: "entry_target ds t"
  shows "emits (confined (render_path True ds)) (copyExecutableFile me w src t)"
proof (rule emits_history)
  fix tr
  note below = entry_target_below [OF ds t] and parent = entry_target_Dir [OF ds t]
  have fin: "emits (confined (render_path True ds))
      (steps [must w (PkMkdirAll (Dir t) 0x1ED) (\<lambda>e. e), must w (PkOpenFile t m) (\<lambda>e. e), must w (PkCopy t data) (\<lambda>e. e)])"
    for m data
    using below parent by (auto intro!: emits_intro)
  show "\<exists>m. copyExecutableFile me w src t tr = m tr \<and> emits (confined (render_path True ds)) m"
  proof (cases "mg_source me tr src")
    case (Inl e)
    then show ?thesis by (intro exI [of _ "fail e"]) (simp add: copyExecutableFile_def fail_def emits_def)
  next
    case (Inr md)
    then show ?thesis using fin [of "layer_mode (fst md)" "snd md"]
      by (intro exI conjI) (auto simp: copyExecutableFile_def split: prod.split)
  qed
qed

lemma entry_target_rel:
  assumes "clean_list True ds" and "entry_target ds t" and "list_all plain_comp rel"
  shows "entry_target ds (Join_path [t, render_path False rel])"
proof -
  from assms(2) obtain rs where rs: "list_all plain_comp rs" "t = render_path True (ds @ rs)"
    by (auto simp: entry_target_def)
  then have "Join_path [t, render_path False rel] = render_path True (ds @ (rs @ rel))"
    using Join_below_clean [OF clean_list_append [OF assms(1) rs(1)] assms(3)] by simp
  moreover have "list_all plain_comp (rs @ rel)" using rs(1) assms(3) by simp
  ultimately show ?thesis unfolding entry_target_def by blast
qed

lemma copy_tree_emits:
  assumes ds: "clean_list True ds"
  shows "entry_target ds t \<Longrightarrow> list_all plain_comp rel \<Longrightarrow> walk_plain tree \<Longrightarrow> emits (confined (render_path True ds)) (copy_tree me w src t rel tree)"
    and "entry_target ds t \<Longrightarrow> list_all plain_comp rel \<Longrightarrow> walk_plain (WDir es) \<Longrightarrow> emits (confined (render_path True ds)) (copy_entries me w src t rel es)"
proof (induction me w src t rel tree and me w src t rel es rule: copy_tree_copy_entries.induct)
qed (auto intro!: emits_intro copyExecutableFile_emits [OF ds] entry_target_rel [OF ds] entry_target_below [OF ds])

lemma UnpackOCIArchive_emits:
  assumes "os_names (mg_view me)" and ds: "clean_list True ds" and t: "entry_target ds t"
  shows "emits (confined (render_path True ds)) (UnpackOCIArchive me w path t)"
  unfolding UnpackOCIArchive_def unpack_layer_def
  by (auto intro!: emits_intro Extract_emits [OF assms(1) ds t] split: sum.split option.split prod.split)

lemma merge_layer_emits:
  assumes "os_names (mg_view me)" and walk: "\<forall>tr p. walk_plain (mg_walk me tr p)" and ds: "clean_list True ds"
    and t: "entry_target ds (layer_target (render_path True ds) spec)"
    and base: "ls_Type spec = LayerTypeBinary \<Longrightarrow> plain_comp (Base (layer_path baseDir spec))"
  shows "emits (confined (render_path True ds)) (merge_layer me w baseDir (render_path True ds) (idx, spec))"
proof (rule emits_history)
  fix tr
  let ?P = "confined (render_path True ds)"
  let ?t = "layer_target (render_path True ds) spec" and ?src = "layer_path baseDir spec"
  have tree: "emits ?P (copyDirectoryTree me w ?src ?t)"
    using copy_tree_emits(1) [OF ds t, of "[]"] walk
    by (intro emits_history) (auto simp: copyDirectoryTree_def)
  have bin: "emits ?P (copyExecutableFile me w ?src (Join_path [?t, Base ?src]))" if b: "ls_Type spec = LayerTypeBinary"
    using entry_target_rel [OF ds t, of "[Base ?src]"] base [OF b]
    by (intro copyExecutableFile_emits [OF ds]) (simp add: render_path_def)
  have tar: "emits ?P (merge_tarball me w spec ?src ?t)"
    unfolding merge_tarball_def
    by (auto intro!: emits_intro Extract_emits [OF assms(1) ds t] split: sum.split)
  note parts = tree bin tar UnpackOCIArchive_emits [OF assms(1) ds t] entry_target_below [OF ds t]
  show "\<exists>m. merge_layer me w baseDir (render_path True ds) (idx, spec) tr = m tr \<and> emits ?P m"
  proof (cases "mg_stat me tr ?src")
    case (Some e)
    then show ?thesis
      by (intro exI [of _ "fail (SourceMissing idx (ls_Name spec) e)"]) (simp add: merge_layer_def fail_def emits_def)
  next
    case None
    let ?m = "and_then (must w (PkMkdirAll ?t 0x1ED) MergeTargetFailed)
                 (if ls_Type spec = LayerTypeOCIArchive
                    then map_err (ArchiveLayer (ls_Name spec)) (UnpackOCIArchive me w ?src ?t)
                  else if ls_Type spec = LayerTypeTarball then merge_tarball me w spec ?src ?t
                  else if ls_Type spec = LayerTypeDirectory
                    then map_err (DirectoryCopy (ls_Name spec)) (copyDirectoryTree me w ?src ?t)
                  else if ls_Type spec = LayerTypeBinary
                    then map_err (BinaryCopy (ls_Name spec)) (copyExecutableFile me w ?src (Join_path [?t, Base ?src]))
                  else fail (UnsupportedLayer (ls_Type spec) (ls_Name spec)))"
    have "emits ?P ?m" using parts by (auto intro!: emits_intro)
    moreover have "merge_layer me w baseDir (render_path True ds) (idx, spec) tr = ?m tr"
      by (simp only: merge_layer_def Let_def None prod.case option.case)
    ultimately show ?thesis by blast
  qed
qed


definition sample_merge :: merge_env where
  "sample_merge =
     \<lparr>mg_archive = \<lparr>ae_open = \<lambda>_. Inr [], ae_gunzip = \<lambda>b. Inr b, ae_untar = \<lambda>_. (sample_layer, None),
        ae_readall = \<lambda>h. Inr (te_Data h), ae_docker = \<lambda>_. Inl []\<rparr>,
      mg_view = plain_view, mg_stat = \<lambda>_ _. None, mg_source = \<lambda>_ _. Inr (493, ''x''),
      mg_walk = \<lambda>_ _. WDir [(''a'', WFile), (''d'', WDir [(''b'', WFile)])]\<rparr>"

definition sample_layers :: LayerConfig where
  "sample_layers =
     [\<lparr>ls_Name = ''t'', ls_Type = ''tarball'', ls_Path = ''t.tar'', ls_TargetDir = [], ls_SHA256 = []\<rparr>,
      \<lparr>ls_Name = ''d'', ls_Type = ''directory'', ls_Path = ''etc'', ls_TargetDir = ''etc'', ls_SHA256 = []\<rparr>,
      \<lparr>ls_Name = ''b'', ls_Type = ''binary'', ls_Path = ''bin/app'', ls_TargetDir = ''usr/bin'', ls_SHA256 = []\<rparr>]"


end
