(* ===== verification/Cpio.thy ===== *)
theory Cpio
  imports GoPath GoBytes "HOL-Library.List_Lexorder" "HOL-Library.Char_ord" "HOL-Library.Multiset"
begin

text \<open>
  \<open>internal/builder/cpio.go\<close>: the writer of initramfs archives in the SVR4 newc format. Writing goes
  to an \<open>io.Writer\<close> answered by the environment \<open>w\<close>; the chunks written, joined, are the archive. The
  directory tree that \<open>filepath.Walk\<close> visits is a value of \<open>cpio_tree\<close>. Against the writer stands a
  reader of the format, \<open>read_cpio\<close>, written from the format's description and not from the sources.
\<close>

unbundle bit_operations_syntax

definition cpioMagic :: string where "cpioMagic = ''070701''"
definition cpioTrailer :: string where "cpioTrailer = ''TRAILER!!!''"
definition cpioHeaderSz :: nat where "cpioHeaderSz = 110"

record CPIOHeader =
  ch_Ino :: u32
  ch_Mode :: u32
  ch_UID :: u32
  ch_GID :: u32
  ch_NLink :: u32
  ch_MTime :: u32
  ch_FileSize :: u32
  ch_DevMaj :: u32
  ch_DevMin :: u32
  ch_RDevMaj :: u32
  ch_RDevMin :: u32
  ch_Name :: string

datatype cpio_error =
    HeaderLength nat
  | CpioIO string
  | SizeMismatch string nat u32
  | CpioWalk string string
  | CpioDir string cpio_error
  | CpioReadlink string string
  | CpioSymlink string cpio_error
  | CpioOpen string string
  | CpioFile string cpio_error
  | CpioTrailer cpio_error

subsection \<open>Headers\<close>

text \<open>The verb \<open>%08X\<close> on a 32-bit value.\<close>

definition hex_digit :: "nat \<Rightarrow> char" where
  "hex_digit d = ''0123456789ABCDEF'' ! d"

definition hex8 :: "u32 \<Rightarrow> string" where
  "hex8 v = map (\<lambda>k. hex_digit (unat v div 16 ^ k mod 16)) (rev [0..<8])"

definition zero_byte :: char where "zero_byte = CHR 0x00"

definition padding :: "nat \<Rightarrow> bytes" where
  "padding n = replicate ((4 - n mod 4) mod 4) zero_byte"

definition header_string :: "CPIOHeader \<Rightarrow> string" where
  "header_string h =
     cpioMagic @ hex8 (ch_Ino h) @ hex8 (ch_Mode h) @ hex8 (ch_UID h) @ hex8 (ch_GID h) @ hex8 (ch_NLink h) @
     hex8 (ch_MTime h) @ hex8 (ch_FileSize h) @ hex8 (ch_DevMaj h) @ hex8 (ch_DevMin h) @ hex8 (ch_RDevMaj h) @
     hex8 (ch_RDevMin h) @ hex8 (word_of_nat (length (ch_Name h @ [zero_byte]))) @ ''00000000''"

definition write_padding :: "bytes world \<Rightarrow> nat \<Rightarrow> (bytes, cpio_error) action" where
  "write_padding w n = when_act (padding n \<noteq> []) (must w (padding n) CpioIO)"

definition WriteCPIOHeader :: "bytes world \<Rightarrow> CPIOHeader \<Rightarrow> (bytes, cpio_error) action" where
  "WriteCPIOHeader w h =
     (let nameBytes = ch_Name h @ [zero_byte]; hdrStr = header_string h
      in if length hdrStr \<noteq> cpioHeaderSz then fail (HeaderLength (length hdrStr))
         else steps [must w hdrStr CpioIO, must w nameBytes CpioIO, write_padding w (cpioHeaderSz + length nameBytes)])"

subsection \<open>Entries\<close>

text \<open>
  A reader is the data it delivers and the error it ends with, if any; no reader is nil. \<open>io.Copy\<close>
  writes what it read before it reports the error of the reader.
\<close>

type_synonym body = "(bytes \<times> string option) option"

definition copy_body :: "bytes world \<Rightarrow> bytes \<times> string option \<Rightarrow> (bytes, cpio_error) action" where
  "copy_body w b =
     and_then (when_act (fst b \<noteq> []) (must w (fst b) CpioIO))
       (case snd b of None \<Rightarrow> ok | Some e \<Rightarrow> fail (CpioIO e))"

definition WriteCPIOEntry :: "bytes world \<Rightarrow> CPIOHeader \<Rightarrow> body \<Rightarrow> (bytes, cpio_error) action" where
  "WriteCPIOEntry w h r =
     and_then (WriteCPIOHeader w h)
       (case r of
          None \<Rightarrow> ok
        | Some b \<Rightarrow>
            when_act (0 < ch_FileSize h)
              (steps
                [copy_body w b,
                 (if word_of_nat (length (fst b)) \<noteq> ch_FileSize h
                  then fail (SizeMismatch (ch_Name h) (length (fst b)) (ch_FileSize h)) else ok),
                 write_padding w (unat (ch_FileSize h))]))"

definition plain_header :: "string \<Rightarrow> CPIOHeader" where
  "plain_header name =
     \<lparr>ch_Ino = 0, ch_Mode = 0, ch_UID = 0, ch_GID = 0, ch_NLink = 1, ch_MTime = 0, ch_FileSize = 0,
      ch_DevMaj = 0, ch_DevMin = 0, ch_RDevMaj = 0, ch_RDevMin = 0, ch_Name = name\<rparr>"

definition WriteCPIOTrailer :: "bytes world \<Rightarrow> (bytes, cpio_error) action" where
  "WriteCPIOTrailer w = WriteCPIOEntry w (plain_header cpioTrailer) None"

subsection \<open>Packing a directory\<close>

text \<open>What the walk finds at a path: for a link the result of reading it, for a file its mode, size and contents.\<close>

datatype cpio_node =
    NDir
  | NLink "(string, string) result"
  | NFile nat int "(string, bytes \<times> string option) result"

datatype cpio_tree = CtError string | CtNode cpio_node | CtDir "(string \<times> cpio_tree) list"

record cpio_entry =
  ce_relPath :: string
  ce_fullPath :: string
  ce_node :: cpio_node

definition new_entry :: "string \<Rightarrow> string list \<Rightarrow> cpio_node \<Rightarrow> cpio_entry list" where
  "new_entry rootDir rel node =
     (if rel = [] then []
      else [\<lparr>ce_relPath = Join_strings rel [slash], ce_fullPath = Join_path (rootDir # rel), ce_node = node\<rparr>])"

fun walk_tree_entries :: "string \<Rightarrow> string list \<Rightarrow> cpio_tree \<Rightarrow> (string, cpio_entry list) result"
  and walk_dir_entries :: "string \<Rightarrow> string list \<Rightarrow> (string \<times> cpio_tree) list \<Rightarrow> (string, cpio_entry list) result"
where
  "walk_tree_entries root rel (CtError e) = Inl e"
| "walk_tree_entries root rel (CtNode node) = Inr (new_entry root rel node)"
| "walk_tree_entries root rel (CtDir es) =
     bind_res (walk_dir_entries root rel es) (\<lambda>xs. Inr (new_entry root rel NDir @ xs))"
| "walk_dir_entries root rel [] = Inr []"
| "walk_dir_entries root rel ((n, t) # es) =
     bind_res (walk_tree_entries root (rel @ [n]) t) (\<lambda>xs.
       bind_res (walk_dir_entries root rel es) (\<lambda>ys. Inr (xs @ ys)))"

definition entry_mode :: "cpio_node \<Rightarrow> u32" where
  "entry_mode node =
     (case node of
        NDir \<Rightarrow> 0x41ED
      | NLink _ \<Rightarrow> 0xA1FF
      | NFile mode _ _ \<Rightarrow> if mode AND 0x49 \<noteq> 0 then 0x81ED else 0x81A4)"

definition entry_header :: "u32 \<Rightarrow> u32 \<Rightarrow> cpio_entry \<Rightarrow> CPIOHeader" where
  "entry_header mtime ino e =
     (plain_header (ce_relPath e))\<lparr>ch_Ino := ino, ch_Mode := entry_mode (ce_node e), ch_MTime := mtime\<rparr>"

definition write_node :: "bytes world \<Rightarrow> u32 \<Rightarrow> u32 \<Rightarrow> cpio_entry \<Rightarrow> (bytes, cpio_error) action" where
  "write_node w mtime ino e =
     (let hdr = entry_header mtime ino e
      in case ce_node e of
           NDir \<Rightarrow> map_err (CpioDir (ce_relPath e)) (WriteCPIOEntry w (hdr\<lparr>ch_NLink := 2, ch_FileSize := 0\<rparr>) None)
         | NLink (Inl err) \<Rightarrow> fail (CpioReadlink (ce_fullPath e) err)
         | NLink (Inr target) \<Rightarrow>
             map_err (CpioSymlink (ce_relPath e))
               (WriteCPIOEntry w (hdr\<lparr>ch_FileSize := word_of_nat (length target)\<rparr>) (Some (target, None)))
         | NFile _ _ (Inl err) \<Rightarrow> fail (CpioOpen (ce_fullPath e) err)
         | NFile _ sz (Inr b) \<Rightarrow>
             map_err (CpioFile (ce_relPath e)) (WriteCPIOEntry w (hdr\<lparr>ch_FileSize := word_of_int sz\<rparr>) (Some b)))"

text \<open>The inode counter is 32 bits wide.\<close>

fun write_nodes :: "bytes world \<Rightarrow> u32 \<Rightarrow> u32 \<Rightarrow> cpio_entry list \<Rightarrow> (bytes, cpio_error) action" where
  "write_nodes w mtime ino [] = ok"
| "write_nodes w mtime ino (e # es) = and_then (write_node w mtime ino e) (write_nodes w mtime (ino + 1) es)"

text \<open>A time is its Unix seconds; \<open>None\<close> is the zero time.\<close>

definition mtime_sec :: "int option \<Rightarrow> u32" where
  "mtime_sec t = (case t of None \<Rightarrow> 0 | Some s \<Rightarrow> word_of_int s)"

definition PackCPIOInitramfs :: "bytes world \<Rightarrow> string \<Rightarrow> cpio_tree \<Rightarrow> int option \<Rightarrow> (bytes, cpio_error) action" where
  "PackCPIOInitramfs w rootDir tree fixedMTime =
     (case walk_tree_entries rootDir [] tree of
        Inl e \<Rightarrow> fail (CpioWalk rootDir e)
      | Inr entries \<Rightarrow>
          and_then (write_nodes w (mtime_sec fixedMTime) 1 (sort_key ce_relPath entries))
            (map_err CpioTrailer (WriteCPIOTrailer w)))"

subsection \<open>A reader of the format\<close>

definition hex_val :: "char \<Rightarrow> nat" where
  "hex_val c = (if CHR ''A'' \<le> c then of_char c - 55 else of_char c - 48)"

definition unhex8 :: "bytes \<Rightarrow> u32" where
  "unhex8 b = word_of_nat (foldl (\<lambda>n c. 16 * n + hex_val c) 0 (take 8 b))"

definition header_field :: "nat \<Rightarrow> bytes \<Rightarrow> u32" where
  "header_field k b = unhex8 (drop (6 + 8 * k) b)"

definition pad4 :: "nat \<Rightarrow> nat" where
  "pad4 n = (4 - n mod 4) mod 4"

definition read_entry :: "bytes \<Rightarrow> (CPIOHeader \<times> bytes \<times> bytes) option" where
  "read_entry b =
     (let namesize = unat (header_field 11 b); filesize = unat (header_field 6 b);
          body = 110 + namesize + pad4 (110 + namesize);
          end_pos = body + filesize + pad4 filesize
      in if length b < 110 \<or> take 6 b \<noteq> ''070701'' \<or> namesize = 0 \<or> length b < end_pos then None
         else Some
           (\<lparr>ch_Ino = header_field 0 b, ch_Mode = header_field 1 b, ch_UID = header_field 2 b, ch_GID = header_field 3 b,
             ch_NLink = header_field 4 b, ch_MTime = header_field 5 b, ch_FileSize = header_field 6 b,
             ch_DevMaj = header_field 7 b, ch_DevMin = header_field 8 b, ch_RDevMaj = header_field 9 b,
             ch_RDevMin = header_field 10 b, ch_Name = take (namesize - 1) (drop 110 b)\<rparr>,
            take filesize (drop body b), drop end_pos b))"

lemma read_entry_shrinks: "read_entry b = Some (h, d, rest) \<Longrightarrow> length rest < length b"
  by (auto simp: read_entry_def Let_def split: if_splits)

function read_cpio :: "bytes \<Rightarrow> (CPIOHeader \<times> bytes) list option" where
  "read_cpio b =
     (case read_entry b of
        None \<Rightarrow> None
      | Some (h, d, rest) \<Rightarrow>
          if ch_Name h = ''TRAILER!!!'' then Some [] else map_option (Cons (h, d)) (read_cpio rest))"
  by auto
termination
  by (relation "measure length") (auto dest: read_entry_shrinks [OF sym] read_entry_shrinks)

declare read_cpio.simps [simp del]

subsection \<open>Hexadecimal fields\<close>

lemma hex_val_digit: "d < 16 \<Longrightarrow> hex_val (hex_digit d) = d"
proof -
  assume "d < 16"
  then have "d \<in> set [0..<16]" by simp
  moreover have "\<forall>d \<in> set [0..<16]. hex_val (hex_digit d) = d"
    by (simp add: upt_rec hex_val_def hex_digit_def less_eq_char_def)
  ultimately show ?thesis by blast
qed

lemma hex_value:
  "foldl (\<lambda>n c. 16 * n + hex_val c) a (map (\<lambda>k. hex_digit (n div 16 ^ k mod 16)) (rev [0..<m])) = a * 16 ^ m + n mod 16 ^ m"
proof (induction m arbitrary: a)
  case (Suc m)
  have "n mod 16 ^ Suc m = 16 ^ m * (n div 16 ^ m mod 16) + n mod 16 ^ m"
    by (simp add: mod_mult2_eq mult.commute [of 16])
  with Suc show ?case by (simp add: hex_val_digit algebra_simps)
qed simp

interpretation hex: fixed_codec hex8 unhex8 8
proof
  show "length (hex8 x) = 8" for x by (simp add: hex8_def)
  show "unhex8 (hex8 x) = x" for x
    using hex_value [of 0 "unat x" 8] u32_bound [of x] by (simp add: unhex8_def hex8_def)
qed

lemma unhex8_append [simp]: "unhex8 (hex8 v @ rest) = v"
proof -
  have "unhex8 (hex8 v @ rest) = unhex8 (hex8 v)" by (simp add: unhex8_def)
  then show ?thesis by simp
qed

lemma header_string_length [simp]: "length (header_string h) = 110"
  by (simp add: header_string_def cpioMagic_def)

text \<open>The fields of a header, found by their position.\<close>

lemma drop_field: "drop (8 + n) (hex8 v @ rest) = drop n rest"
  by simp

lemma length_cpioMagic [simp]: "length cpioMagic = 6"
  by (simp add: cpioMagic_def)

lemma drop_magic: "drop (6 + n) (cpioMagic @ rest) = drop n rest"
  by simp

lemma header_fields:
  assumes "b = header_string h @ rest"
  shows "header_field 0 b = ch_Ino h" "header_field 1 b = ch_Mode h" "header_field 2 b = ch_UID h"
    "header_field 3 b = ch_GID h" "header_field 4 b = ch_NLink h" "header_field 5 b = ch_MTime h"
    "header_field 6 b = ch_FileSize h" "header_field 7 b = ch_DevMaj h" "header_field 8 b = ch_DevMin h"
    "header_field 9 b = ch_RDevMaj h" "header_field 10 b = ch_RDevMin h"
    "header_field 11 b = word_of_nat (Suc (length (ch_Name h)))"
    "take 6 b = ''070701''"
  by (simp_all add: assms header_field_def header_string_def drop_magic) (simp_all add: cpioMagic_def)

subsection \<open>Entries read back\<close>

lemma length_padding [simp]: "length (padding n) = pad4 n"
  by (simp add: padding_def pad4_def)

definition name_bytes :: "string \<Rightarrow> bytes" where
  "name_bytes n = n @ zero_byte # padding (111 + length n)"

definition entry_bytes :: "CPIOHeader \<Rightarrow> bytes \<Rightarrow> bytes" where
  "entry_bytes h data = header_string h @ name_bytes (ch_Name h) @ data @ padding (length data)"

text \<open>The name and the data of an entry fit the width of their length fields.\<close>

definition fits :: "CPIOHeader \<Rightarrow> bytes \<Rightarrow> bool" where
  "fits h data \<longleftrightarrow> Suc (length (ch_Name h)) < 2 ^ 32 \<and> unat (ch_FileSize h) = length data"

lemma read_entry_bytes:
  assumes "fits h data"
  shows "read_entry (entry_bytes h data @ rest) = Some (h, data, rest)"
proof -
  let ?n = "length (ch_Name h)" and ?b = "entry_bytes h data @ rest"
  let ?after = "name_bytes (ch_Name h) @ data @ padding (length data) @ rest"
  have b: "?b = header_string h @ ?after" by (simp add: entry_bytes_def)
  note f = header_fields [OF b]
  have ns: "unat (header_field 11 ?b) = Suc ?n"
    unfolding f(12) by (rule unat_u32) (use assms in \<open>simp add: fits_def\<close>)
  have fs: "unat (header_field 6 ?b) = length data" using assms f(7) by (simp add: fits_def)
  have d110: "drop (110 + k) ?b = drop k ?after" for k by (simp add: b)
  have body: "drop (110 + Suc ?n + pad4 (110 + Suc ?n)) ?b = data @ padding (length data) @ rest"
    using d110 [of "Suc ?n + pad4 (110 + Suc ?n)"] by (simp add: name_bytes_def add.assoc)
  have tail: "drop (110 + Suc ?n + pad4 (110 + Suc ?n) + length data + pad4 (length data)) ?b = rest"
  proof -
    have "drop (110 + Suc ?n + pad4 (110 + Suc ?n) + length data + pad4 (length data)) ?b =
        drop (length data + pad4 (length data)) (drop (110 + Suc ?n + pad4 (110 + Suc ?n)) ?b)"
      unfolding drop_drop by (simp only: add.assoc add.commute add.left_commute)
    also have "\<dots> = rest" unfolding body by simp
    finally show ?thesis .
  qed
  have name: "take (Suc ?n - 1) (drop 110 ?b) = ch_Name h"
    using d110 [of 0] by (simp add: name_bytes_def)
  have len: "110 + Suc ?n + pad4 (110 + Suc ?n) + length data + pad4 (length data) \<le> length ?b"
    by (simp add: entry_bytes_def name_bytes_def)
  show ?thesis
    unfolding read_entry_def Let_def ns fs body tail name f(1-5) f(6) f(8-11) f(13)
    using len f(7) by (simp add: b)
qed

subsection \<open>What is written\<close>

lemma padding_0 [simp]: "padding 0 = []"
  by (simp add: padding_def)

lemma writes_padding [writes_intro]: "writes (write_padding w n) (padding n)"
  by (simp add: write_padding_def writes_nonempty)

lemma writes_header: "writes (WriteCPIOHeader w h) (header_string h @ name_bytes (ch_Name h))"
proof -
  have "writes (WriteCPIOHeader w h)
      (header_string h @ (ch_Name h @ [zero_byte]) @ padding (cpioHeaderSz + length (ch_Name h @ [zero_byte])) @ [])"
    unfolding WriteCPIOHeader_def Let_def steps.simps header_string_length cpioHeaderSz_def
    by (simp only: if_False simp_thms) (intro writes_and_then writes_must writes_padding writes_ok)
  then show ?thesis by (simp add: name_bytes_def cpioHeaderSz_def)
qed

lemma fits_empty: "fits h data \<Longrightarrow> ch_FileSize h = 0 \<longleftrightarrow> data = []"
  by (metis fits_def length_0_conv unat_eq_zero unsigned_0)

lemma writes_entry:
  assumes "fits h data"
  shows "writes (WriteCPIOEntry w h (if dir then None else Some (data, None))) (entry_bytes h (if dir then [] else data))"
proof -
  let ?rest = "\<lambda>b. when_act (0 < ch_FileSize h)
        (steps [copy_body w b, (if word_of_nat (length (fst b)) \<noteq> ch_FileSize h
           then fail (SizeMismatch (ch_Name h) (length (fst b)) (ch_FileSize h)) else ok), write_padding w (unat (ch_FileSize h))])"
  have "length data = unat (ch_FileSize h)" using assms by (simp add: fits_def)
  then have len: "word_of_nat (length data) = ch_FileSize h" by simp
  have "writes (?rest (data, None)) (data @ padding (length data))"
  proof (cases "ch_FileSize h = 0")
    case True
    with fits_empty [OF assms] show ?thesis by (simp add: when_act_def writes_ok)
  next
    case False
    have "writes (steps [copy_body w (data, None), ok, write_padding w (length data)]) ((data @ []) @ [] @ padding (length data) @ [])"
      unfolding copy_body_def steps.simps fst_conv snd_conv option.case by (intro writes_intro)
    with False len assms show ?thesis by (simp add: when_act_def word_neq_0_conv fits_def)
  qed
  then have "writes (WriteCPIOEntry w h (Some (data, None))) ((header_string h @ name_bytes (ch_Name h)) @ data @ padding (length data))"
    unfolding WriteCPIOEntry_def by (simp only: option.case) (intro writes_and_then writes_header)
  moreover have "writes (WriteCPIOEntry w h None) ((header_string h @ name_bytes (ch_Name h)) @ [])"
    unfolding WriteCPIOEntry_def by (simp only: option.case) (intro writes_and_then writes_header writes_ok)
  ultimately show ?thesis by (simp add: entry_bytes_def)
qed

text \<open>The contents of an entry, and the header its place in the archive gives it.\<close>

fun node_bytes :: "cpio_node \<Rightarrow> bytes" where
  "node_bytes NDir = []"
| "node_bytes (NLink r) = (case r of Inl _ \<Rightarrow> [] | Inr t \<Rightarrow> t)"
| "node_bytes (NFile _ _ r) = (case r of Inl _ \<Rightarrow> [] | Inr b \<Rightarrow> fst b)"

definition archived_header :: "u32 \<Rightarrow> u32 \<Rightarrow> cpio_entry \<Rightarrow> CPIOHeader" where
  "archived_header mtime ino e =
     (entry_header mtime ino e)\<lparr>ch_NLink := (if ce_node e = NDir then 2 else 1),
        ch_FileSize := word_of_nat (length (node_bytes (ce_node e)))\<rparr>"

fun archived :: "u32 \<Rightarrow> u32 \<Rightarrow> cpio_entry list \<Rightarrow> (CPIOHeader \<times> bytes) list" where
  "archived mtime ino [] = []"
| "archived mtime ino (e # es) = (archived_header mtime ino e, node_bytes (ce_node e)) # archived mtime (ino + 1) es"

text \<open>Entries that can be read and whose sizes fit 32 bits; a file has the size that was listed.\<close>

definition packable :: "cpio_entry \<Rightarrow> bool" where
  "packable e \<longleftrightarrow>
     Suc (length (ce_relPath e)) < 2 ^ 32 \<and> ce_relPath e \<noteq> cpioTrailer \<and> length (node_bytes (ce_node e)) < 2 ^ 32 \<and>
     (case ce_node e of
        NDir \<Rightarrow> True
      | NLink (Inr _) \<Rightarrow> True
      | NFile _ sz (Inr (d, None)) \<Rightarrow> sz = int (length d)
      | _ \<Rightarrow> False)"

lemma packable_cases:
  assumes "packable e"
  obtains "ce_node e = NDir" | t where "ce_node e = NLink (Inr t)"
    | m d where "ce_node e = NFile m (int (length d)) (Inr (d, None))"
  using assms by (auto simp: packable_def split: cpio_node.splits sum.splits option.splits prod.splits)

lemma packable_fits: "packable e \<Longrightarrow> fits (archived_header mtime ino e) (node_bytes (ce_node e))"
  by (simp add: packable_def fits_def archived_header_def entry_header_def plain_header_def unat_u32)

text \<open>The entry of a node is written from the archived header.\<close>

lemma write_node_entry:
  assumes "packable e"
  shows "\<exists>f. write_node w mtime ino e =
    map_err f (WriteCPIOEntry w (archived_header mtime ino e)
      (if ce_node e = NDir then None else Some (node_bytes (ce_node e), None)))"
  using assms
  by (cases rule: packable_cases)
    (simp_all add: write_node_def archived_header_def entry_header_def plain_header_def Let_def, blast+)

lemma writes_node:
  assumes "packable e"
  shows "writes (write_node w mtime ino e) (entry_bytes (archived_header mtime ino e) (node_bytes (ce_node e)))"
proof -
  have "writes (WriteCPIOEntry w (archived_header mtime ino e) (if ce_node e = NDir then None else Some (node_bytes (ce_node e), None)))
      (entry_bytes (archived_header mtime ino e) (node_bytes (ce_node e)))"
    using writes_entry [OF packable_fits [OF assms], where dir = "ce_node e = NDir"] by (cases "ce_node e = NDir") auto
  moreover obtain f where "write_node w mtime ino e = map_err f (WriteCPIOEntry w (archived_header mtime ino e)
      (if ce_node e = NDir then None else Some (node_bytes (ce_node e), None)))"
    using write_node_entry [OF assms] by blast
  ultimately show ?thesis by (simp only: writes_map_err)
qed

lemma writes_nodes:
  "list_all packable es \<Longrightarrow> writes (write_nodes w mtime ino es) (concat (map (\<lambda>(h, d). entry_bytes h d) (archived mtime ino es)))"
  by (induction es arbitrary: ino) (auto intro!: writes_intro writes_node)

lemma writes_trailer: "writes (WriteCPIOTrailer w) (entry_bytes (plain_header cpioTrailer) [])"
  using writes_entry [of "plain_header cpioTrailer" "[]" w True]
  by (simp add: WriteCPIOTrailer_def fits_def plain_header_def cpioTrailer_def)

lemma archived_names: "list_all packable es \<Longrightarrow> \<forall>(h, d) \<in> set (archived mtime ino es). fits h d \<and> ch_Name h \<noteq> cpioTrailer"
proof (induction es arbitrary: ino)
  case (Cons e es)
  then have "ch_Name (archived_header mtime ino e) \<noteq> cpioTrailer"
    by (simp add: packable_def archived_header_def entry_header_def plain_header_def)
  with Cons packable_fits [of e mtime ino] show ?case by auto
qed simp

lemma read_archive:
  assumes "\<forall>(h, d) \<in> set xs. fits h d \<and> ch_Name h \<noteq> cpioTrailer"
  shows "read_cpio (concat (map (\<lambda>(h, d). entry_bytes h d) xs) @ entry_bytes (plain_header cpioTrailer) []) = Some xs"
  using assms
proof (induction xs)
  case Nil
  have "fits (plain_header cpioTrailer) []" by (simp add: fits_def plain_header_def cpioTrailer_def)
  from read_entry_bytes [OF this, of "[]"] show ?case
    by (simp add: read_cpio.simps plain_header_def cpioTrailer_def)
next
  case (Cons x xs)
  obtain h d where x: "x = (h, d)" by force
  with Cons show ?case by (simp add: read_cpio.simps [of "entry_bytes h d @ _"] read_entry_bytes cpioTrailer_def)
qed

lemma succeeds_entry:
  assumes "fits h data"
  shows "succeeds (WriteCPIOEntry all_ok h None)" and "succeeds (WriteCPIOEntry all_ok h (Some (data, None)))"
proof -
  have head: "succeeds (WriteCPIOHeader all_ok h)"
    by (auto simp: WriteCPIOHeader_def cpioHeaderSz_def Let_def write_padding_def intro!: succeeds_intro)
  have "length data = unat (ch_FileSize h)" using assms by (simp add: fits_def)
  then have len: "word_of_nat (length data) = ch_FileSize h" by simp
  show "succeeds (WriteCPIOEntry all_ok h None)"
    unfolding WriteCPIOEntry_def by (auto intro!: succeeds_intro head)
  show "succeeds (WriteCPIOEntry all_ok h (Some (data, None)))"
    unfolding WriteCPIOEntry_def
    by (auto simp: len copy_body_def write_padding_def intro!: succeeds_intro head)
qed

lemma succeeds_nodes: "list_all packable es \<Longrightarrow> succeeds (write_nodes all_ok mtime ino es)"
proof (induction es arbitrary: ino)
  case (Cons e es)
  then have e: "packable e" by simp
  obtain f where "write_node all_ok mtime ino e = map_err f (WriteCPIOEntry all_ok (archived_header mtime ino e)
      (if ce_node e = NDir then None else Some (node_bytes (ce_node e), None)))"
    using write_node_entry [OF e] by blast
  then have "succeeds (write_node all_ok mtime ino e)"
    using succeeds_entry [OF packable_fits [OF e]] by (cases "ce_node e = NDir") (simp_all add: succeeds_map_err)
  with Cons show ?case by (auto intro!: succeeds_intro)
qed (simp add: succeeds_basic)

text \<open>
  C12: an initramfs archive holds exactly the tree. If every file found by the walk can be read with
  the size it was listed with, then a reader of the newc format gets from the written bytes exactly
  the entries of the tree in the order of their paths, numbered from one, owned by root, with the
  fixed time, the normalised mode and the contents of each; and packing to a writer that accepts
  everything succeeds.
\<close>

theorem cpio_reads_back:
  assumes "walk_tree_entries rootDir [] tree = Inr entries" and "list_all packable entries"
  shows "(\<forall>w tr. PackCPIOInitramfs w rootDir tree t [] = (None, tr) \<longrightarrow>
      read_cpio (concat tr) = Some (archived (mtime_sec t) 1 (sort_key ce_relPath entries))) \<and>
    (\<exists>tr. PackCPIOInitramfs all_ok rootDir tree t [] = (None, tr))"
proof (intro conjI allI impI)
  let ?es = "sort_key ce_relPath entries"
  have es: "list_all packable ?es" using assms(2) by (simp add: list_all_iff)
  {
    fix w tr assume run: "PackCPIOInitramfs w rootDir tree t [] = (None, tr)"
    have "writes (PackCPIOInitramfs w rootDir tree t)
        (concat (map (\<lambda>(h, d). entry_bytes h d) (archived (mtime_sec t) 1 ?es)) @ entry_bytes (plain_header cpioTrailer) [])"
      unfolding PackCPIOInitramfs_def assms(1) sum.case
      by (intro writes_and_then writes_map_err writes_nodes es writes_trailer)
    from writesD [OF this run] read_archive [OF archived_names [OF es]] show
      "read_cpio (concat tr) = Some (archived (mtime_sec t) 1 ?es)" by simp
  }
  have "fits (plain_header cpioTrailer) []" by (simp add: fits_def plain_header_def cpioTrailer_def)
  then have "succeeds (PackCPIOInitramfs all_ok rootDir tree t)"
    unfolding PackCPIOInitramfs_def assms(1) sum.case WriteCPIOTrailer_def
    by (intro succeeds_intro succeeds_nodes es succeeds_entry(1))
  then show "\<exists>tr. PackCPIOInitramfs all_ok rootDir tree t [] = (None, tr)" by (rule succeedsD)
qed

definition sample_tree :: cpio_tree where
  "sample_tree = CtDir [(''sbin'', CtDir [(''init'', CtNode (NFile 493 2 (Inr (''hi'', None))))]),
     (''bin'', CtNode (NLink (Inr ''sbin'')))]"

lemma sample_walk:
  "walk_tree_entries ''/r'' [] sample_tree = Inr
     [\<lparr>ce_relPath = ''sbin'', ce_fullPath = ''/r/sbin'', ce_node = NDir\<rparr>,
      \<lparr>ce_relPath = ''sbin/init'', ce_fullPath = ''/r/sbin/init'', ce_node = NFile 493 2 (Inr (''hi'', None))\<rparr>,
      \<lparr>ce_relPath = ''bin'', ce_fullPath = ''/r/bin'', ce_node = NLink (Inr ''sbin'')\<rparr>]"
  by (simp add: sample_tree_def new_entry_def go_eval)

theorem cpio_reads_back_witness:
  "\<exists>tr es. PackCPIOInitramfs all_ok ''/r'' sample_tree None [] = (None, tr) \<and>
     read_cpio (concat tr) = Some (archived 0 1 es) \<and> map ce_relPath es = [''bin'', ''sbin'', ''sbin/init'']"
proof -
  let ?es = "[\<lparr>ce_relPath = ''sbin'', ce_fullPath = ''/r/sbin'', ce_node = NDir\<rparr>,
      \<lparr>ce_relPath = ''sbin/init'', ce_fullPath = ''/r/sbin/init'', ce_node = NFile 493 2 (Inr (''hi'', None))\<rparr>,
      \<lparr>ce_relPath = ''bin'', ce_fullPath = ''/r/bin'', ce_node = NLink (Inr ''sbin'')\<rparr>]"
  have p: "list_all packable ?es" by (simp add: packable_def cpioTrailer_def)
  obtain tr where run: "PackCPIOInitramfs all_ok ''/r'' sample_tree None [] = (None, tr)"
    using cpio_reads_back [OF sample_walk p] by blast
  have "read_cpio (concat tr) = Some (archived 0 1 (sort_key ce_relPath ?es))"
    using cpio_reads_back [OF sample_walk p, of None] run by (simp only: mtime_sec_def option.case)
  moreover have "map ce_relPath (sort_key ce_relPath ?es) = [''bin'', ''sbin'', ''sbin/init'']"
    by (simp add: less_eq_char_def)
  ultimately show ?thesis using run by (intro exI conjI)
qed

text \<open>
  Packing is deterministic. Two walks of a root that find the same entries, in whatever order
  the directories were listed, give the same archive, chunk by chunk and with the same errors.
\<close>

theorem cpio_deterministic:
  assumes "walk_tree_entries rootDir [] tree = Inr es" and "walk_tree_entries rootDir [] tree' = Inr es'"
    and "mset es = mset es'" and "distinct (map ce_relPath es)"
  shows "PackCPIOInitramfs w rootDir tree t = PackCPIOInitramfs w rootDir tree' t"
proof -
  have "set es = set es'" using assms(3) by (rule mset_eq_setD)
  then have inj: "inj_on ce_relPath (set es)"
    using assms(4) by (simp add: distinct_map)
  have "sort_key ce_relPath es = sort_key ce_relPath es'"
    using assms(3) inj by (intro sort_key_inj_key_eq) simp_all
  with assms(1,2) show ?thesis by (simp add: PackCPIOInitramfs_def)
qed

definition relisted_tree :: cpio_tree where
  "relisted_tree = CtDir [(''bin'', CtNode (NLink (Inr ''sbin''))),
     (''sbin'', CtDir [(''init'', CtNode (NFile 493 2 (Inr (''hi'', None))))])]"

lemma relisted_walk:
  "walk_tree_entries ''/r'' [] relisted_tree = Inr
     [\<lparr>ce_relPath = ''bin'', ce_fullPath = ''/r/bin'', ce_node = NLink (Inr ''sbin'')\<rparr>,
      \<lparr>ce_relPath = ''sbin'', ce_fullPath = ''/r/sbin'', ce_node = NDir\<rparr>,
      \<lparr>ce_relPath = ''sbin/init'', ce_fullPath = ''/r/sbin/init'', ce_node = NFile 493 2 (Inr (''hi'', None))\<rparr>]"
  by (simp add: relisted_tree_def new_entry_def go_eval)

theorem cpio_deterministic_witness:
  "PackCPIOInitramfs all_ok ''/r'' sample_tree None = PackCPIOInitramfs all_ok ''/r'' relisted_tree None"
  by (rule cpio_deterministic [OF sample_walk relisted_walk]) simp_all

end
