(* ===== verification/Manifest.thy ===== *)
theory Manifest
  imports GoStrings GoEffects "HOL-Library.List_Lexorder" "HOL-Library.Char_ord"
begin

text \<open>
  \<open>internal/builder/manifest.go\<close>: checksums of build artifacts and the comparison of two builds. A Go
  map is an association list with distinct keys, whose order is the order a \<open>range\<close> loop happens to
  take. SHA-256, JSON, file contents and the formatting of times are parameters.
\<close>

record ArtifactChecksum =
  ac_Name :: string
  ac_Path :: string
  ac_SizeBytes :: int
  ac_SHA256 :: string

type_synonym artifacts = "(string \<times> ArtifactChecksum) list"

record BuildManifest =
  bm_ProjectName :: string
  bm_Version :: string
  bm_BuildTimestamp :: string
  bm_Hermetic :: bool
  bm_SourceDateEpoch :: int
  bm_InputArtifacts :: artifacts
  bm_OutputArtifacts :: artifacts
  bm_CombinedBuildHash :: string

datatype manifest_error =
    HashOpen string string
  | HashRead string string
  | ManifestEncode string
  | ManifestWrite string string
  | ManifestReadFailed string string
  | ManifestParse string
  | CountMismatch nat nat
  | MissingArtifact string
  | HashMismatch string string string

text \<open>\<open>hex.EncodeToString\<close>\<close>

definition hex_encode :: "bytes \<Rightarrow> string" where
  "hex_encode b = concat (map (\<lambda>c. [hex_digit_lower (of_char c div 16), hex_digit_lower (of_char c mod 16)]) b)"

text \<open>A file is what reading it delivers and the error it ends with, if any.\<close>

type_synonym file_fn = "string \<Rightarrow> (string, bytes \<times> string option) result"

definition CalculateFileSHA256 :: "(bytes \<Rightarrow> bytes) \<Rightarrow> file_fn \<Rightarrow> string \<Rightarrow> (manifest_error, string \<times> int) result" where
  "CalculateFileSHA256 sha open filePath =
     (case open filePath of
        Inl e \<Rightarrow> Inl (HashOpen filePath e)
      | Inr (data, Some e) \<Rightarrow> Inl (HashRead filePath e)
      | Inr (data, None) \<Rightarrow> Inr (hex_encode (sha data), int (length data)))"

definition NewArtifactChecksum ::
  "(bytes \<Rightarrow> bytes) \<Rightarrow> file_fn \<Rightarrow> string \<Rightarrow> string \<Rightarrow> (manifest_error, ArtifactChecksum) result"
where
  "NewArtifactChecksum sha open name path =
     bind_res (CalculateFileSHA256 sha open path) (\<lambda>(hash, size).
       Inr \<lparr>ac_Name = name, ac_Path = path, ac_SizeBytes = size, ac_SHA256 = hash\<rparr>)"

text \<open>\<open>m.OutputArtifacts[k].SHA256\<close>; a missing key would give the zero value.\<close>

definition artifact_hash :: "artifacts \<Rightarrow> string \<Rightarrow> string" where
  "artifact_hash as k = (case map_of as k of None \<Rightarrow> [] | Some a \<Rightarrow> ac_SHA256 a)"

definition CalculateCombinedBuildHash :: "(bytes \<Rightarrow> bytes) \<Rightarrow> BuildManifest \<Rightarrow> string" where
  "CalculateCombinedBuildHash sha m =
     (let as = bm_OutputArtifacts m
      in hex_encode (sha (concat (map (artifact_hash as) (sort (map fst as))))))"

datatype mf_call = MfWriteFile string bytes nat

definition SaveManifest ::
  "(bytes \<Rightarrow> bytes) \<Rightarrow> (BuildManifest \<Rightarrow> (string, bytes) result) \<Rightarrow> mf_call world \<Rightarrow> BuildManifest \<Rightarrow> string \<Rightarrow>
     mf_call list \<Rightarrow> manifest_error option \<times> mf_call list \<times> BuildManifest"
where
  "SaveManifest sha encode w manifest destPath tr =
     (let m = manifest\<lparr>bm_CombinedBuildHash := CalculateCombinedBuildHash sha manifest\<rparr>
      in case encode m of
           Inl e \<Rightarrow> (Some (ManifestEncode e), tr, m)
         | Inr data \<Rightarrow>
             (case must w (MfWriteFile destPath data 0x1A4) (ManifestWrite destPath) tr of (r, tr') \<Rightarrow> (r, tr', m)))"

definition LoadManifest ::
  "(string \<Rightarrow> (string, bytes) result) \<Rightarrow> (bytes \<Rightarrow> (string, BuildManifest) result) \<Rightarrow> string \<Rightarrow> (manifest_error, BuildManifest) result"
where
  "LoadManifest read decode srcPath =
     (case read srcPath of
        Inl e \<Rightarrow> Inl (ManifestReadFailed srcPath e)
      | Inr data \<Rightarrow> (case decode data of Inl e \<Rightarrow> Inl (ManifestParse e) | Inr m \<Rightarrow> Inr m))"

fun compare_artifacts :: "artifacts \<Rightarrow> artifacts \<Rightarrow> manifest_error option" where
  "compare_artifacts [] bs = None"
| "compare_artifacts ((k, a1) # as) bs =
     (case map_of bs k of
        None \<Rightarrow> Some (MissingArtifact k)
      | Some a2 \<Rightarrow>
          if ac_SHA256 a1 \<noteq> ac_SHA256 a2 then Some (HashMismatch k (ac_SHA256 a1) (ac_SHA256 a2))
          else compare_artifacts as bs)"

definition CompareManifests :: "BuildManifest \<Rightarrow> BuildManifest \<Rightarrow> manifest_error option" where
  "CompareManifests m1 m2 =
     (let as = bm_OutputArtifacts m1; bs = bm_OutputArtifacts m2
      in if length as \<noteq> length bs then Some (CountMismatch (length as) (length bs)) else compare_artifacts as bs)"

definition FormatFixedTimestamp :: "(int \<Rightarrow> string) \<Rightarrow> int \<Rightarrow> string" where
  "FormatFixedTimestamp rfc3339_utc epoch = rfc3339_utc epoch"

subsection \<open>When two builds agree\<close>

definition hashes :: "artifacts \<Rightarrow> string \<Rightarrow> string option" where
  "hashes as k = map_option ac_SHA256 (map_of as k)"

lemma compare_artifacts_None:
  "distinct (map fst as) \<Longrightarrow> compare_artifacts as bs = None \<longleftrightarrow> (\<forall>k \<in> set (map fst as). hashes as k = hashes bs k)"
proof (induction as)
  case (Cons x as)
  obtain k a where x: "x = (k, a)" by force
  have "\<forall>k' \<in> set (map fst as). hashes (x # as) k' = hashes as k'"
    using Cons.prems x by (auto simp: hashes_def)
  moreover have "hashes (x # as) k = Some (ac_SHA256 a)" by (simp add: hashes_def x)
  ultimately show ?case
    using Cons x by (cases "map_of bs k") (auto simp: hashes_def [of bs])
qed simp

lemma hashes_dom: "hashes as k = None \<longleftrightarrow> k \<notin> set (map fst as)"
  by (simp add: hashes_def map_of_eq_None_iff)

lemma compare_manifests_hashes:
  assumes "distinct (map fst (bm_OutputArtifacts m1))" and "distinct (map fst (bm_OutputArtifacts m2))"
  shows "CompareManifests m1 m2 = None \<longleftrightarrow> hashes (bm_OutputArtifacts m1) = hashes (bm_OutputArtifacts m2)"
proof
  let ?as = "bm_OutputArtifacts m1" and ?bs = "bm_OutputArtifacts m2"
  assume "CompareManifests m1 m2 = None"
  then have len: "length ?as = length ?bs" and eq: "\<forall>k \<in> set (map fst ?as). hashes ?as k = hashes ?bs k"
    using compare_artifacts_None [OF assms(1)] by (auto simp: CompareManifests_def Let_def split: if_splits)
  have sub: "set (map fst ?as) \<subseteq> set (map fst ?bs)"
  proof
    fix k assume "k \<in> set (map fst ?as)"
    with eq hashes_dom [of ?as k] hashes_dom [of ?bs k] show "k \<in> set (map fst ?bs)" by auto
  qed
  have "card (set (map fst ?as)) = card (set (map fst ?bs))"
    using assms len by (simp only: distinct_card length_map)
  with sub have "set (map fst ?as) = set (map fst ?bs)" by (intro card_subset_eq) simp_all
  with eq hashes_dom show "hashes ?as = hashes ?bs" by (metis ext)
next
  let ?as = "bm_OutputArtifacts m1" and ?bs = "bm_OutputArtifacts m2"
  assume eq: "hashes ?as = hashes ?bs"
  then have "set (map fst ?as) = set (map fst ?bs)" using hashes_dom by (metis subsetI subset_antisym)
  then have "length (map fst ?as) = length (map fst ?bs)" using assms by (metis distinct_card)
  with eq compare_artifacts_None [OF assms(1)] show "CompareManifests m1 m2 = None"
    by (simp add: CompareManifests_def)
qed

lemma combined_hash_agrees:
  assumes "distinct (map fst (bm_OutputArtifacts m1))" and "distinct (map fst (bm_OutputArtifacts m2))"
    and "hashes (bm_OutputArtifacts m1) = hashes (bm_OutputArtifacts m2)"
  shows "CalculateCombinedBuildHash sha m1 = CalculateCombinedBuildHash sha m2"
proof -
  let ?as = "bm_OutputArtifacts m1" and ?bs = "bm_OutputArtifacts m2"
  have "set (map fst ?as) = set (map fst ?bs)" using assms(3) hashes_dom by (metis subsetI subset_antisym)
  then have "sort (map fst ?as) = sort (map fst ?bs)"
    using assms(1,2) by (metis sorted_distinct_set_unique sorted_sort distinct_sort set_sort)
  moreover have "artifact_hash as k = (case hashes as k of None \<Rightarrow> [] | Some h \<Rightarrow> h)" for as k
    by (simp add: artifact_hash_def hashes_def split: option.splits)
  then have "artifact_hash ?as = artifact_hash ?bs" using assms(3) by (simp add: fun_eq_iff)
  ultimately show ?thesis by (simp add: CalculateCombinedBuildHash_def Let_def)
qed

text \<open>
  C26: two builds are reported identical exactly when they are. Comparing two manifests succeeds if
  and only if both list the same output artifacts with the same hash for each, in whatever order
  the maps are traversed; and then their combined build hashes are equal.
\<close>

theorem manifests_agree:
  assumes "distinct (map fst (bm_OutputArtifacts m1))" and "distinct (map fst (bm_OutputArtifacts m2))"
  shows "(CompareManifests m1 m2 = None \<longleftrightarrow>
      (\<forall>k. map_option ac_SHA256 (map_of (bm_OutputArtifacts m1) k) = map_option ac_SHA256 (map_of (bm_OutputArtifacts m2) k))) \<and>
    (CompareManifests m1 m2 = None \<longrightarrow> CalculateCombinedBuildHash sha m1 = CalculateCombinedBuildHash sha m2)"
  using compare_manifests_hashes [OF assms] combined_hash_agrees [OF assms]
  by (simp add: hashes_def [abs_def] fun_eq_iff)

definition sample_manifest :: "artifacts \<Rightarrow> BuildManifest" where
  "sample_manifest as =
     \<lparr>bm_ProjectName = ''karim'', bm_Version = ''1'', bm_BuildTimestamp = [], bm_Hermetic = True, bm_SourceDateEpoch = 0,
      bm_InputArtifacts = [], bm_OutputArtifacts = as, bm_CombinedBuildHash = []\<rparr>"

definition sample_artifact :: "string \<Rightarrow> string \<Rightarrow> string \<times> ArtifactChecksum" where
  "sample_artifact n h = (n, \<lparr>ac_Name = n, ac_Path = n, ac_SizeBytes = 1, ac_SHA256 = h\<rparr>)"

theorem manifests_agree_witness:
  "CompareManifests (sample_manifest [sample_artifact ''a'' ''1f'', sample_artifact ''b'' ''2e''])
     (sample_manifest [sample_artifact ''b'' ''2e'', sample_artifact ''a'' ''1f'']) = None \<and>
   CalculateCombinedBuildHash rev (sample_manifest [sample_artifact ''a'' ''1f'', sample_artifact ''b'' ''2e'']) =
     CalculateCombinedBuildHash rev (sample_manifest [sample_artifact ''b'' ''2e'', sample_artifact ''a'' ''1f''])"
  using manifests_agree [of "sample_manifest [sample_artifact ''a'' ''1f'', sample_artifact ''b'' ''2e'']"
      "sample_manifest [sample_artifact ''b'' ''2e'', sample_artifact ''a'' ''1f'']" rev]
  by (simp add: sample_manifest_def sample_artifact_def)

end
