(* ===== verification/Builder.thy ===== *)
theory Builder
  imports PkgMerge Cpio Manifest
begin

text \<open>
  \<open>internal/builder/squashfs.go\<close> and \<open>internal/builder/builder.go\<close>: the image pipeline. Its calls on the
  file system are those of the package manager (\<open>BFile\<close>), whole-file writes, the chunks of the
  archive and the run of \<open>mksquashfs\<close>. What it reads (existing files, directory trees, the layer
  configuration, hashes) is the parameter \<open>build_env\<close>, which may depend on the calls made so far.
\<close>

datatype b_call =
    BFile pk_call
  | BWriteFile string bytes nat
  | BCreate string
  | BChunk string bytes
  | BExec string "string list" string

subsection \<open>squashfs.go\<close>

record SquashFSOptions =
  sq_Compression :: string
  sq_SourceDir :: string
  sq_OutputFile :: string
  sq_FixedTime :: int
  sq_EnableFragments :: bool

definition DefaultSquashFSOptions :: "string \<Rightarrow> string \<Rightarrow> SquashFSOptions" where
  "DefaultSquashFSOptions sourceDir outputFile =
     \<lparr>sq_Compression = ''xz'', sq_SourceDir = sourceDir, sq_OutputFile = outputFile, sq_FixedTime = 0,
      sq_EnableFragments = False\<rparr>"

datatype squash_error = SquashNotFound string | SquashDirFailed string | SquashFailed string

definition squash_args :: "SquashFSOptions \<Rightarrow> string list" where
  "squash_args opts =
     [sq_SourceDir opts, sq_OutputFile opts, ''-noappend'', ''-comp'', sq_Compression opts,
      ''-all-root'', ''-no-recovery'', ''-no-exports''] @
     (if sq_EnableFragments opts then [] else [''-no-fragments''])"

text \<open>The environment of the process is the caller's with one variable added; only that is recorded.\<close>

definition BuildHermeticSquashFS ::
  "(string, string) result \<Rightarrow> b_call world \<Rightarrow> SquashFSOptions \<Rightarrow> (b_call, squash_error) action"
where
  "BuildHermeticSquashFS lookPath w opts =
     (case lookPath of
        Inl e \<Rightarrow> fail (SquashNotFound e)
      | Inr path \<Rightarrow>
          steps
            [attempt (BFile (PkRemove (sq_OutputFile opts))),
             must w (BFile (PkMkdirAll (Dir (sq_OutputFile opts)) 0x1ED)) SquashDirFailed,
             must w (BExec path (squash_args opts) (''SOURCE_DATE_EPOCH='' @ show_int (sq_FixedTime opts))) SquashFailed])"

subsection \<open>builder.go\<close>

record BuildConfig =
  bc_InitBinPath :: string
  bc_SvcdBinPath :: string
  bc_ServicesDir :: string
  bc_LayersFile :: string
  bc_KernelPath :: string
  bc_OutputDir :: string
  bc_SourceDateEpoch :: int

definition DefaultBuildConfig :: "string \<Rightarrow> BuildConfig" where
  "DefaultBuildConfig workDir =
     \<lparr>bc_InitBinPath = Join_path [workDir, ''build'', ''init''],
      bc_SvcdBinPath = Join_path [workDir, ''build'', ''karim-svcd''],
      bc_ServicesDir = Join_path [workDir, ''config'', ''services''],
      bc_LayersFile = Join_path [workDir, ''config'', ''layers.toml''],
      bc_KernelPath = Join_path [workDir, ''dist'', ''bzImage''],
      bc_OutputDir = Join_path [workDir, ''dist''], bc_SourceDateEpoch = 0\<rparr>"

datatype stat_result = StatOK | StatNotExist | StatError

record build_env =
  bn_mkdirtemp :: "b_call list \<Rightarrow> (string, string) result"
  bn_stat :: "b_call list \<Rightarrow> string \<Rightarrow> stat_result"
  bn_open :: "b_call list \<Rightarrow> string \<Rightarrow> (string, bytes) result"
  bn_walk :: "b_call list \<Rightarrow> string \<Rightarrow> walk_tree"
  bn_staged :: "b_call list \<Rightarrow> string \<Rightarrow> cpio_tree"
  bn_layers :: layers_env
  bn_merge :: "b_call list \<Rightarrow> merge_env"
  bn_lookpath :: "(string, string) result"
  bn_hash :: "b_call list \<Rightarrow> file_fn"
  bn_sha :: "bytes \<Rightarrow> bytes"
  bn_json :: "BuildManifest \<Rightarrow> (string, bytes) result"
  bn_rfc3339 :: "int \<Rightarrow> string"

datatype build_error =
    OutputDirFailed string
  | TempDirFailed string
  | StageInit string string
  | StageInitBinary string
  | StageRoot string string
  | StageSvcd string
  | ServicesFailed string
  | LayersLoad layers_error
  | LayersMerge merge_error
  | CpioCreate string
  | CpioPack cpio_error
  | SquashPack squash_error
  | InitramfsChecksum manifest_error
  | RootfsChecksum manifest_error
  | ManifestSave manifest_error

definition copyFileWithPerm :: "build_env \<Rightarrow> b_call world \<Rightarrow> string \<Rightarrow> string \<Rightarrow> nat \<Rightarrow> (b_call, string) action" where
  "copyFileWithPerm env w src dst perm =
     looking (\<lambda>tr. case bn_open env tr src of
        Inl e \<Rightarrow> fail e
      | Inr data \<Rightarrow>
          steps [must w (BFile (PkMkdirAll (Dir dst) 0x1ED)) (\<lambda>e. e),
                 must w (BFile (PkOpenFile dst perm)) (\<lambda>e. e),
                 must w (BFile (PkCopy dst data)) (\<lambda>e. e)])"

definition copyFileExecutable :: "build_env \<Rightarrow> b_call world \<Rightarrow> string \<Rightarrow> string \<Rightarrow> (b_call, string) action" where
  "copyFileExecutable env w src dst = copyFileWithPerm env w src dst 0x1ED"

definition copyFileRegular :: "build_env \<Rightarrow> b_call world \<Rightarrow> string \<Rightarrow> string \<Rightarrow> (b_call, string) action" where
  "copyFileRegular env w src dst = copyFileWithPerm env w src dst 0x1A4"

definition if_exists :: "build_env \<Rightarrow> string \<Rightarrow> (b_call, 'e) action \<Rightarrow> (b_call, 'e) action" where
  "if_exists env path m = looking (\<lambda>tr. when_act (bn_stat env tr path = StatOK) m)"

definition if_missing :: "build_env \<Rightarrow> string \<Rightarrow> (b_call, 'e) action \<Rightarrow> (b_call, 'e) action" where
  "if_missing env path m = looking (\<lambda>tr. when_act (bn_stat env tr path = StatNotExist) m)"

text \<open>The walk that copies the service definitions below \<open>dest\<close>: directories are only passed through.\<close>

fun copy_services :: "build_env \<Rightarrow> b_call world \<Rightarrow> string \<Rightarrow> string \<Rightarrow> string list \<Rightarrow> walk_tree \<Rightarrow> (b_call, string) action"
  and copy_service_entries :: "build_env \<Rightarrow> b_call world \<Rightarrow> string \<Rightarrow> string \<Rightarrow> string list \<Rightarrow> (string \<times> walk_tree) list \<Rightarrow> (b_call, string) action"
where
  "copy_services env w src staging rel (WLstatError e) = fail e"
| "copy_services env w src staging rel (WUnreadable e) = fail e"
| "copy_services env w src staging rel WFile =
     copyFileRegular env w (Join_path (src # rel)) (Join_path [staging, ''etc/karim/services'', render_path False rel])"
| "copy_services env w src staging rel (WDir es) = copy_service_entries env w src staging rel es"
| "copy_service_entries env w src staging rel [] = ok"
| "copy_service_entries env w src staging rel ((n, t) # es) =
     and_then (copy_services env w src staging (rel @ [n]) t) (copy_service_entries env w src staging rel es)"

definition stage_services :: "build_env \<Rightarrow> b_call world \<Rightarrow> BuildConfig \<Rightarrow> string \<Rightarrow> (b_call, string) action" where
  "stage_services env w cfg staging =
     if_exists env (bc_ServicesDir cfg)
       (looking (\<lambda>tr. copy_services env w (bc_ServicesDir cfg) staging [] (bn_walk env tr (bc_ServicesDir cfg))))"

definition init_dirs :: "string list" where
  "init_dirs = [''dev'', ''proc'', ''sys'', ''etc'', ''bin'', ''sbin'', ''etc/karim/services'']"

definition root_dirs :: "string list" where
  "root_dirs = [''bin'', ''sbin'', ''etc/karim/services'', ''run/karim'', ''var'', ''tmp'', ''proc'', ''sys'', ''dev'']"

definition stage_dirs :: "b_call world \<Rightarrow> string \<Rightarrow> (string \<Rightarrow> string \<Rightarrow> build_error) \<Rightarrow> string list \<Rightarrow> (b_call, build_error) action" where
  "stage_dirs w staging mk ds = steps (map (\<lambda>d. must w (BFile (PkMkdirAll (Join_path [staging, d]) 0x1ED)) (mk d)) ds)"

definition daemon_names :: "string list" where
  "daemon_names = [''karim-svcd'', ''karim-secd'', ''karim-vsockd'', ''karim-obsd'']"

definition stage_daemon :: "build_env \<Rightarrow> b_call world \<Rightarrow> BuildConfig \<Rightarrow> string \<Rightarrow> string \<Rightarrow> (b_call, build_error) action" where
  "stage_daemon env w cfg staging d =
     (let srcD = (if d = ''karim-svcd'' \<and> bc_SvcdBinPath cfg \<noteq> [] then bc_SvcdBinPath cfg
                  else Join_path [Dir (bc_InitBinPath cfg), d])
      in if_exists env srcD (ignore_err (copyFileExecutable env w srcD (Join_path [staging, ''sbin'', d]))))"

definition workload_names :: "string list" where
  "workload_names = [''sample_app'', ''httpd'', ''kv_store'', ''sh'']"

definition stage_workload :: "build_env \<Rightarrow> b_call world \<Rightarrow> BuildConfig \<Rightarrow> string \<Rightarrow> string \<Rightarrow> string \<Rightarrow> (b_call, build_error) action" where
  "stage_workload env w cfg initramfs rootfs b =
     (let srcBin = Join_path [Dir (bc_InitBinPath cfg), b]
      in if_exists env srcBin
           (steps [ignore_err (copyFileExecutable env w srcBin (Join_path [initramfs, ''bin'', b])),
                   ignore_err (copyFileExecutable env w srcBin (Join_path [rootfs, ''bin'', b]))]))"

definition applet_names :: "string list" where
  "applet_names =
     [''sh'', ''ls'', ''cat'', ''cp'', ''mv'', ''rm'', ''mkdir'', ''rmdir'',
      ''grep'', ''sed'', ''awk'', ''find'', ''ps'', ''top'', ''ip'', ''ping'',
      ''vi'', ''tar'', ''gzip'', ''head'', ''tail'', ''wc'', ''chmod'', ''chown'']"

definition stage_applet :: "string \<Rightarrow> string \<Rightarrow> (b_call, build_error) action" where
  "stage_applet staging applet =
     (let linkPath = Join_path [staging, ''bin'', applet]
      in steps [attempt (BFile (PkRemove linkPath)), attempt (BFile (PkSymlink ''/bin/busybox'' linkPath))])"

definition stage_busybox :: "build_env \<Rightarrow> b_call world \<Rightarrow> BuildConfig \<Rightarrow> string list \<Rightarrow> (b_call, build_error) action" where
  "stage_busybox env w cfg stagings =
     (let busyboxSrc = Join_path [Dir (bc_InitBinPath cfg), ''busybox'']
      in if_exists env busyboxSrc
           (steps (concat (map (\<lambda>staging.
              ignore_err (copyFileExecutable env w busyboxSrc (Join_path [staging, ''bin'', ''busybox''])) #
              map (stage_applet staging) applet_names) stagings))))"

definition stage_layers :: "build_env \<Rightarrow> b_call world \<Rightarrow> BuildConfig \<Rightarrow> string \<Rightarrow> (b_call, build_error) action" where
  "stage_layers env w cfg rootfs =
     when_act (bc_LayersFile cfg \<noteq> [])
       (if_exists env (bc_LayersFile cfg)
         (case LoadLayerConfig (bn_layers env) (bc_LayersFile cfg) of
            Inl e \<Rightarrow> fail (LayersLoad e)
          | Inr layers \<Rightarrow>
              map_err LayersMerge
                (looking (\<lambda>tr. lift_act BFile w
                   (\<lambda>w'. MergeLayerConfig (bn_merge env tr) w' (Some layers) (Dir (bc_LayersFile cfg)) rootfs)))))"

definition passwd_content :: bytes where
  "passwd_content =
     ''root:x:0:0:root:/root:/bin/sh'' @ newline @ ''nginx:x:101:101:nginx:/var/cache/nginx:/sbin/nologin'' @ newline @
     ''nobody:x:65534:65534:nobody:/:/sbin/nologin'' @ newline"

definition group_content :: bytes where
  "group_content = ''root:x:0:'' @ newline @ ''nginx:x:101:'' @ newline @ ''nobody:x:65534:'' @ newline"

definition default_file :: "build_env \<Rightarrow> string \<Rightarrow> string \<Rightarrow> bytes \<Rightarrow> (b_call, build_error) action" where
  "default_file env staging name content =
     (let path = Join_path [staging, name] in if_missing env path (attempt (BWriteFile path content 0x1A4)))"

definition pack_initramfs :: "build_env \<Rightarrow> b_call world \<Rightarrow> BuildConfig \<Rightarrow> string \<Rightarrow> (b_call, build_error) action" where
  "pack_initramfs env w cfg initramfs =
     (let cpioPath = Join_path [bc_OutputDir cfg, ''initramfs.cpio'']
      in and_then (must w (BCreate cpioPath) CpioCreate)
           (map_err CpioPack
             (looking (\<lambda>tr. lift_act (BChunk cpioPath) w
                (\<lambda>w'. PackCPIOInitramfs w' initramfs (bn_staged env tr initramfs) (Some (bc_SourceDateEpoch cfg)))))))"

definition squash_options :: "BuildConfig \<Rightarrow> string \<Rightarrow> SquashFSOptions" where
  "squash_options cfg rootfs =
     \<lparr>sq_Compression = ''xz'', sq_SourceDir = rootfs, sq_OutputFile = Join_path [bc_OutputDir cfg, ''rootfs.sqsh''],
      sq_FixedTime = bc_SourceDateEpoch cfg, sq_EnableFragments = False\<rparr>"

text \<open>Steps 2 to 5 of the pipeline, in a temporary directory.\<close>

definition build_stages :: "build_env \<Rightarrow> b_call world \<Rightarrow> BuildConfig \<Rightarrow> string \<Rightarrow> (b_call, build_error) action" where
  "build_stages env w cfg tmpBuild =
     (let initramfs = Join_path [tmpBuild, ''initramfs_root'']; rootfs = Join_path [tmpBuild, ''rootfs_tree'']
      in steps
        ([stage_dirs w initramfs StageInit init_dirs,
          map_err StageInitBinary (copyFileExecutable env w (bc_InitBinPath cfg) (Join_path [initramfs, ''init'']))] @
         map (stage_daemon env w cfg initramfs) daemon_names @
         [ignore_err (stage_services env w cfg initramfs),
          stage_dirs w rootfs StageRoot root_dirs,
          map_err StageSvcd (copyFileExecutable env w (bc_SvcdBinPath cfg) (Join_path [rootfs, ''sbin'', ''karim-svcd'']))] @
         map (stage_workload env w cfg initramfs rootfs) workload_names @
         [stage_busybox env w cfg [initramfs, rootfs],
          map_err ServicesFailed (stage_services env w cfg rootfs),
          stage_layers env w cfg rootfs,
          default_file env rootfs ''etc/passwd'' passwd_content, default_file env rootfs ''etc/group'' group_content,
          default_file env initramfs ''etc/passwd'' passwd_content, default_file env initramfs ''etc/group'' group_content,
          pack_initramfs env w cfg initramfs,
          map_err SquashPack (BuildHermeticSquashFS (bn_lookpath env) w (squash_options cfg rootfs))]))"

text \<open>Step 6: the manifest.\<close>

definition input_artifacts :: "build_env \<Rightarrow> BuildConfig \<Rightarrow> b_call list \<Rightarrow> artifacts" where
  "input_artifacts env cfg tr =
     concat (map (\<lambda>(key, p). case NewArtifactChecksum (bn_sha env) (bn_hash env tr) key p of Inl _ \<Rightarrow> [] | Inr chk \<Rightarrow> [(key, chk)])
       ([(''init_binary'', bc_InitBinPath cfg), (''svcd_binary'', bc_SvcdBinPath cfg)] @
        (if bn_stat env tr (bc_KernelPath cfg) = StatOK then [(''kernel_bzimage'', bc_KernelPath cfg)] else [])))"

definition output_artifacts :: "build_env \<Rightarrow> BuildConfig \<Rightarrow> b_call list \<Rightarrow> (build_error, artifacts) result" where
  "output_artifacts env cfg tr =
     (case NewArtifactChecksum (bn_sha env) (bn_hash env tr) ''initramfs.cpio'' (Join_path [bc_OutputDir cfg, ''initramfs.cpio'']) of
        Inl e \<Rightarrow> Inl (InitramfsChecksum e)
      | Inr cpio \<Rightarrow>
          (case NewArtifactChecksum (bn_sha env) (bn_hash env tr) ''rootfs.sqsh'' (Join_path [bc_OutputDir cfg, ''rootfs.sqsh'']) of
             Inl e \<Rightarrow> Inl (RootfsChecksum e)
           | Inr sqsh \<Rightarrow> Inr [(''initramfs.cpio'', cpio), (''rootfs.sqsh'', sqsh)]))"

definition build_manifest :: "build_env \<Rightarrow> BuildConfig \<Rightarrow> b_call list \<Rightarrow> artifacts \<Rightarrow> BuildManifest" where
  "build_manifest env cfg tr outputs =
     \<lparr>bm_ProjectName = ''karim-microvm-os'', bm_Version = ''1.0.0-hermetic'',
      bm_BuildTimestamp = FormatFixedTimestamp (bn_rfc3339 env) (bc_SourceDateEpoch cfg), bm_Hermetic = True,
      bm_SourceDateEpoch = bc_SourceDateEpoch cfg, bm_InputArtifacts = input_artifacts env cfg tr,
      bm_OutputArtifacts = outputs, bm_CombinedBuildHash = []\<rparr>"

fun manifest_call :: "mf_call \<Rightarrow> b_call" where
  "manifest_call (MfWriteFile p d m) = BWriteFile p d m"

definition finish_build ::
  "build_env \<Rightarrow> b_call world \<Rightarrow> BuildConfig \<Rightarrow> b_call list \<Rightarrow> (build_error, BuildManifest) result \<times> b_call list"
where
  "finish_build env w cfg tr =
     (case output_artifacts env cfg tr of
        Inl e \<Rightarrow> (Inl e, tr)
      | Inr outputs \<Rightarrow>
          (case SaveManifest (bn_sha env) (bn_json env) (\<lambda>cs c. w (tr @ map manifest_call cs) (manifest_call c))
                  (build_manifest env cfg tr outputs) (Join_path [bc_OutputDir cfg, ''manifest.json'']) [] of
             (Some e, cs, _) \<Rightarrow> (Inl (ManifestSave e), tr @ map manifest_call cs)
           | (None, cs, m) \<Rightarrow> (Inr m, tr @ map manifest_call cs)))"

definition BuildImagePipeline ::
  "build_env \<Rightarrow> b_call world \<Rightarrow> BuildConfig \<Rightarrow> b_call list \<Rightarrow> (build_error, BuildManifest) result \<times> b_call list"
where
  "BuildImagePipeline env w cfg tr =
     (case must w (BFile (PkMkdirAll (bc_OutputDir cfg) 0x1ED)) OutputDirFailed tr of
        (Some e, tr1) \<Rightarrow> (Inl e, tr1)
      | (None, tr1) \<Rightarrow>
          (case bn_mkdirtemp env tr1 of
             Inl e \<Rightarrow> (Inl (TempDirFailed e), tr1)
           | Inr tmpBuild \<Rightarrow>
               (case build_stages env w cfg tmpBuild tr1 of
                  (Some e, tr2) \<Rightarrow> (Inl e, tr2 @ [BFile (PkRemoveAll tmpBuild)])
                | (None, tr2) \<Rightarrow>
                    (case finish_build env w cfg tr2 of (res, tr3) \<Rightarrow> (res, tr3 @ [BFile (PkRemoveAll tmpBuild)])))))"

datatype repro_error = FirstBuild build_error | SecondBuild build_error | NotReproducible manifest_error

definition VerifyReproducibility :: "build_env \<Rightarrow> b_call world \<Rightarrow> BuildConfig \<Rightarrow> (b_call, repro_error) action" where
  "VerifyReproducibility env w cfg tr =
     (case BuildImagePipeline env w cfg tr of
        (Inl e, tr1) \<Rightarrow> (Some (FirstBuild e), tr1)
      | (Inr m1, tr1) \<Rightarrow>
          (case BuildImagePipeline env w cfg
                  (tr1 @ [BFile (PkRemove (Join_path [bc_OutputDir cfg, ''initramfs.cpio''])),
                          BFile (PkRemove (Join_path [bc_OutputDir cfg, ''rootfs.sqsh'']))]) of
             (Inl e, tr2) \<Rightarrow> (Some (SecondBuild e), tr2)
           | (Inr m2, tr2) \<Rightarrow> (map_option NotReproducible (CompareManifests m1 m2), tr2)))"

subsection \<open>Where a build writes\<close>

text \<open>
  Inside its temporary directory, and in the output directory only the artifacts: the archive, the
  root file system (made by \<open>mksquashfs\<close> from a staged tree) and the manifest.
\<close>

fun hermetic :: "string \<Rightarrow> string \<Rightarrow> b_call \<Rightarrow> bool" where
  "hermetic tmp out (BFile c) \<longleftrightarrow> confined tmp c \<or> c = PkMkdirAll out 493 \<or>
     c = PkRemove (Join_path [out, ''rootfs.sqsh'']) \<or> c = PkMkdirAll (Dir (Join_path [out, ''rootfs.sqsh''])) 493"
| "hermetic tmp out (BWriteFile p d m) \<longleftrightarrow> below tmp p \<or> p = Join_path [out, ''manifest.json'']"
| "hermetic tmp out (BCreate p) \<longleftrightarrow> p = Join_path [out, ''initramfs.cpio'']"
| "hermetic tmp out (BChunk p d) \<longleftrightarrow> p = Join_path [out, ''initramfs.cpio'']"
| "hermetic tmp out (BExec p args e) \<longleftrightarrow>
     2 \<le> length args \<and> below tmp (args ! 0) \<and> args ! 1 = Join_path [out, ''rootfs.sqsh'']"

text \<open>
  What the pipeline relies on: temporary directories and the working directory have absolute
  paths, directory listings give file names, and every layer that is configured names a target
  inside the root and, for a binary, an ordinary file name.
\<close>

definition layer_inside :: "string \<Rightarrow> LayerSpec \<Rightarrow> bool" where
  "layer_inside baseDir l \<longleftrightarrow>
     (\<forall>root. is_abs root \<longrightarrow> Clean root = root \<longrightarrow> below root (layer_target root l)) \<and>
     (ls_Type l = LayerTypeBinary \<longrightarrow> plain_comp (Base (layer_path baseDir l)))"

definition build_inputs_ok :: "build_env \<Rightarrow> BuildConfig \<Rightarrow> bool" where
  "build_inputs_ok env cfg \<longleftrightarrow>
     (\<forall>tr d. bn_mkdirtemp env tr = Inr d \<longrightarrow> is_abs d \<and> Clean d = d) \<and>
     (\<forall>tr p. walk_plain (bn_walk env tr p)) \<and>
     (\<forall>tr. os_names (mg_view (bn_merge env tr)) \<and> (\<forall>tr' p. walk_plain (mg_walk (bn_merge env tr) tr' p))) \<and>
     (\<forall>layers. LoadLayerConfig (bn_layers env) (bc_LayersFile cfg) = Inr layers \<longrightarrow>
        list_all (layer_inside (Dir (bc_LayersFile cfg))) layers)"

text \<open>Relative names that stay where they are put.\<close>

definition settled :: "string \<Rightarrow> bool" where
  "settled d \<longleftrightarrow> d \<noteq> [] \<and> Clean d = d \<and> \<not> climbs d"

lemma target_settled: "clean_list True ds \<Longrightarrow> entry_target ds t \<Longrightarrow> settled d \<Longrightarrow> entry_target ds (Join_path [t, d])"
  using not_climbing [of d] entry_target_rel [of ds t "path_comps d"] by (auto simp: settled_def)

lemma entry_target_abs: "clean_list True ds \<Longrightarrow> entry_target ds t \<Longrightarrow> is_abs t"
  by (auto simp: entry_target_def is_abs_render clean_list_append)

lemma target_settled_3:
  "clean_list True ds \<Longrightarrow> entry_target ds t \<Longrightarrow> settled d \<Longrightarrow> settled e \<Longrightarrow> entry_target ds (Join_path [t, d, e])"
  by (simp add: Join_path_3 entry_target_abs target_settled)

lemma settled_names:
  "list_all settled (init_dirs @ root_dirs @ daemon_names @ workload_names @ applet_names @
     [''init'', ''sbin'', ''bin'', ''busybox'', ''karim-svcd'', ''etc/karim/services'', ''etc/passwd'', ''etc/group'',
      ''initramfs_root'', ''rootfs_tree''])"
  by (simp add: settled_def climbs_def init_dirs_def root_dirs_def daemon_names_def workload_names_def applet_names_def go_eval)

lemma settled_lists:
  "d \<in> set init_dirs \<Longrightarrow> settled d" "d \<in> set root_dirs \<Longrightarrow> settled d" "d \<in> set daemon_names \<Longrightarrow> settled d"
  "d \<in> set workload_names \<Longrightarrow> settled d" "d \<in> set applet_names \<Longrightarrow> settled d"
  using settled_names by (auto simp: list_all_iff)

lemma settled_literals:
  "settled ''init''" "settled ''sbin''" "settled ''bin''" "settled ''busybox''" "settled ''karim-svcd''"
  "settled ''etc/karim/services''" "settled ''etc/passwd''" "settled ''etc/group''" "settled ''initramfs_root''" "settled ''rootfs_tree''"
  using settled_names by simp_all

lemmas targets = target_settled target_settled_3 settled_lists settled_literals

lemma copyFileWithPerm_hermetic:
  assumes ds: "clean_list True ds" and t: "entry_target ds t"
  shows "emits (hermetic (render_path True ds) out) (copyFileWithPerm env w src t perm)"
  using entry_target_below [OF ds t] entry_target_Dir [OF ds t]
  by (auto simp: copyFileWithPerm_def intro!: emits_intro split: sum.split)

lemma copyFile_hermetic:
  assumes "clean_list True ds" and "entry_target ds t"
  shows "emits (hermetic (render_path True ds) out) (copyFileExecutable env w src t)"
    and "emits (hermetic (render_path True ds) out) (copyFileRegular env w src t)"
  using copyFileWithPerm_hermetic [OF assms] by (simp_all add: copyFileExecutable_def copyFileRegular_def)

lemma copy_services_hermetic:
  assumes ds: "clean_list True ds"
  shows "entry_target ds t \<Longrightarrow> list_all plain_comp rel \<Longrightarrow> walk_plain tree \<Longrightarrow>
      emits (hermetic (render_path True ds) out) (copy_services env w src t rel tree)"
    and "entry_target ds t \<Longrightarrow> list_all plain_comp rel \<Longrightarrow> walk_plain (WDir es) \<Longrightarrow>
      emits (hermetic (render_path True ds) out) (copy_service_entries env w src t rel es)"
proof (induction env w src t rel tree and env w src t rel es rule: copy_services_copy_service_entries.induct)
  case (3 env w src staging rel)
  then have "entry_target ds (Join_path [staging, ''etc/karim/services'', render_path False rel])"
    using entry_target_rel [OF ds target_settled [OF ds _ settled_literals(6)], of staging rel]
    by (simp add: Join_path_3 [OF entry_target_abs [OF ds]])
  then show ?case by (simp add: copyFile_hermetic [OF ds])
qed (auto intro!: emits_intro)

lemma stage_services_hermetic:
  assumes "clean_list True ds" and "entry_target ds t" and "build_inputs_ok env cfg"
  shows "emits (hermetic (render_path True ds) out) (stage_services env w cfg t)"
  using assms copy_services_hermetic(1) [OF assms(1,2)]
  by (auto simp: stage_services_def if_exists_def build_inputs_ok_def intro!: emits_intro)

lemma stage_dirs_hermetic:
  assumes ds: "clean_list True ds" and t: "entry_target ds t" and "\<And>d. d \<in> set dirs \<Longrightarrow> settled d"
  shows "emits (hermetic (render_path True ds) out) (stage_dirs w t mk dirs)"
  using assms(3) target_settled [OF ds t] entry_target_below [OF ds]
  by (auto simp: stage_dirs_def intro!: emits_intro)

lemma stage_daemon_hermetic:
  assumes ds: "clean_list True ds" and t: "entry_target ds t" and "d \<in> set daemon_names"
  shows "emits (hermetic (render_path True ds) out) (stage_daemon env w cfg t d)"
  using assms by (auto simp: stage_daemon_def if_exists_def Let_def targets intro!: emits_intro copyFile_hermetic)

lemma stage_workload_hermetic:
  assumes ds: "clean_list True ds" and t: "entry_target ds t" and u: "entry_target ds u" and "b \<in> set workload_names"
  shows "emits (hermetic (render_path True ds) out) (stage_workload env w cfg t u b)"
  using assms by (auto simp: stage_workload_def if_exists_def Let_def targets intro!: emits_intro copyFile_hermetic)

lemma stage_applet_hermetic:
  assumes ds: "clean_list True ds" and t: "entry_target ds t" and "a \<in> set applet_names"
  shows "emits (hermetic (render_path True ds) out) (stage_applet t a)"
proof -
  have "below (render_path True ds) (Join_path [t, ''bin'', a])"
    using assms by (intro entry_target_below targets)
  then show ?thesis by (auto simp: stage_applet_def Let_def is_abs_def intro!: emits_intro)
qed

lemma stage_busybox_hermetic:
  assumes ds: "clean_list True ds" and "\<And>t. t \<in> set ts \<Longrightarrow> entry_target ds t"
  shows "emits (hermetic (render_path True ds) out) (stage_busybox env w cfg ts)"
  using assms
  by (auto simp: stage_busybox_def if_exists_def Let_def targets intro!: emits_intro copyFile_hermetic stage_applet_hermetic)

lemma default_file_hermetic:
  assumes "clean_list True ds" and "entry_target ds t" and "settled name"
  shows "emits (hermetic (render_path True ds) out) (default_file env t name content)"
  using entry_target_below [OF assms(1) target_settled [OF assms]]
  by (auto simp: default_file_def if_missing_def Let_def intro!: emits_intro)

lemma MergeLayerConfig_emits:
  assumes os: "os_names (mg_view me)" and walk: "\<forall>tr p. walk_plain (mg_walk me tr p)" and ds: "clean_list True ds"
    and layers: "list_all (layer_inside baseDir) layers"
  shows "emits (confined (render_path True ds)) (MergeLayerConfig me w (Some layers) baseDir (render_path True ds))"
  unfolding MergeLayerConfig_def option.case
proof (rule emits_steps)
  fix m assume "m \<in> set (map (merge_layer me w baseDir (render_path True ds)) (enumerate 0 layers))"
  then obtain idx l where m: "m = merge_layer me w baseDir (render_path True ds) (idx, l)" and "l \<in> set layers"
    by (auto simp: enumerate_eq_zip dest: set_zip_rightD)
  with layers have "layer_inside baseDir l" by (simp add: list_all_iff)
  then have "below (render_path True ds) (layer_target (render_path True ds) l)"
    and "ls_Type l = LayerTypeBinary \<Longrightarrow> plain_comp (Base (layer_path baseDir l))"
    using ds by (auto simp: layer_inside_def is_abs_render Clean_render)
  with below_entry_target [OF ds] merge_layer_emits [OF os walk ds] show "emits (confined (render_path True ds)) m"
    by (simp add: m)
qed

lemma stage_layers_hermetic:
  assumes ds: "clean_list True ds" and t: "entry_target ds t" and ok: "build_inputs_ok env cfg"
  shows "emits (hermetic (render_path True ds) out) (stage_layers env w cfg t)"
proof -
  obtain rs where rs: "list_all plain_comp rs" "t = render_path True (ds @ rs)" using t by (auto simp: entry_target_def)
  note cl = clean_list_append [OF ds rs(1)]
  have "emits (hermetic (render_path True ds) out)
      (lift_act BFile w (\<lambda>w'. MergeLayerConfig (bn_merge env tr) w' (Some layers) (Dir (bc_LayersFile cfg)) t))"
    if "LoadLayerConfig (bn_layers env) (bc_LayersFile cfg) = Inr layers" for tr layers
  proof (rule emits_lift_act)
    show "emits (confined t) (MergeLayerConfig (bn_merge env tr) w' (Some layers) (Dir (bc_LayersFile cfg)) t)" for w'
      using MergeLayerConfig_emits [OF _ _ cl] ok that unfolding rs(2) build_inputs_ok_def by blast
    show "hermetic (render_path True ds) out (BFile c)" if "confined t c" for c
      using confined_mono [OF ds t that] by simp
  qed
  then show ?thesis
    by (auto simp: stage_layers_def if_exists_def intro!: emits_intro split: sum.split)
qed

lemma WriteCPIOEntry_emits: "emits (\<lambda>_. True) (WriteCPIOEntry w h b)"
  by (auto simp: WriteCPIOEntry_def WriteCPIOHeader_def write_padding_def copy_body_def Let_def
      intro!: emits_intro split: option.split)

lemma PackCPIO_emits: "emits (\<lambda>_. True) (PackCPIOInitramfs w rootDir tree t)"
proof -
  have node: "emits (\<lambda>_. True) (write_node w m i e)" for m i e
    by (auto simp: write_node_def Let_def intro!: emits_intro WriteCPIOEntry_emits split: cpio_node.split sum.split)
  have "emits (\<lambda>_. True) (write_nodes w m i es)" for m i es
    by (induction es arbitrary: i) (auto intro!: emits_intro node)
  then show ?thesis
    by (auto simp: PackCPIOInitramfs_def WriteCPIOTrailer_def intro!: emits_intro WriteCPIOEntry_emits split: sum.split)
qed

lemma pack_initramfs_hermetic: "emits (hermetic tmp (bc_OutputDir cfg)) (pack_initramfs env w cfg t)"
  unfolding pack_initramfs_def Let_def
  by (intro emits_intro emits_lift_act [OF PackCPIO_emits]) simp_all

lemma squash_hermetic:
  assumes "below tmp rootfs"
  shows "emits (hermetic tmp (bc_OutputDir cfg)) (BuildHermeticSquashFS lp w (squash_options cfg rootfs))"
  using assms
  by (auto simp: BuildHermeticSquashFS_def squash_options_def squash_args_def intro!: emits_intro split: sum.split)

lemma build_stages_hermetic:
  assumes ok: "build_inputs_ok env cfg" and ds: "clean_list True ds" and tmp: "tmp = render_path True ds"
  shows "emits (hermetic tmp (bc_OutputDir cfg)) (build_stages env w cfg tmp)"
proof -
  let ?i = "Join_path [tmp, ''initramfs_root'']" and ?r = "Join_path [tmp, ''rootfs_tree'']"
  have "entry_target ds tmp" unfolding entry_target_def tmp by (intro exI [of _ "[]"]) simp
  with ds have i: "entry_target ds ?i" and r: "entry_target ds ?r" by (simp_all add: targets)
  note parts = stage_dirs_hermetic [OF ds] stage_daemon_hermetic [OF ds i] stage_workload_hermetic [OF ds i r]
    stage_services_hermetic [OF ds _ ok] stage_busybox_hermetic [OF ds] stage_layers_hermetic [OF ds r ok]
    default_file_hermetic [OF ds] copyFile_hermetic [OF ds] pack_initramfs_hermetic
    squash_hermetic [OF entry_target_below [OF ds r]]
  show ?thesis
    unfolding build_stages_def Let_def tmp [symmetric]
    by (rule emits_steps) (use i r ds in \<open>auto simp: targets intro!: emits_intro parts [folded tmp]\<close>)
qed


definition sample_build :: build_env where
  "sample_build =
     \<lparr>bn_mkdirtemp = \<lambda>_. Inr ''/tmp/karim-build-1'', bn_stat = \<lambda>_ _. StatOK, bn_open = \<lambda>_ _. Inr ''ELF'',
      bn_walk = \<lambda>_ _. WDir [(''web.toml'', WFile)], bn_staged = \<lambda>_ _. sample_tree,
      bn_layers = file_env [], bn_merge = \<lambda>_. sample_merge, bn_lookpath = Inr ''/usr/bin/mksquashfs'',
      bn_hash = \<lambda>_ _. Inr (''data'', None), bn_sha = \<lambda>b. b, bn_json = \<lambda>_. Inr ''{}'', bn_rfc3339 = \<lambda>_. ''1970-01-01T00:00:00Z''\<rparr>"

lemma sample_build_ok: "build_inputs_ok sample_build (DefaultBuildConfig ''/src'')"
  unfolding build_inputs_ok_def
proof (intro conjI allI impI)
  show "is_abs d" "Clean d = d" if "bn_mkdirtemp sample_build tr = Inr d" for tr d
    using that by (auto simp: sample_build_def go_eval)
  show "walk_plain (bn_walk sample_build tr p)" for tr p by (simp add: sample_build_def plain_comp_def dotdot_def)
  show "os_names (mg_view (bn_merge sample_build tr))" for tr
    by (simp add: sample_build_def sample_merge_def plain_view_names)
  show "walk_plain (mg_walk (bn_merge sample_build tr) tr' p)" for tr tr' p
    by (simp add: sample_build_def sample_merge_def plain_comp_def dotdot_def)
  have "LoadLayerConfig (bn_layers sample_build) (bc_LayersFile (DefaultBuildConfig ''/src'')) = Inr []"
    by (simp add: sample_build_def file_env_def LoadLayerConfig_def parseLayerTOML_def finish_layers_def scan_lines_def)
  then show "list_all (layer_inside (Dir (bc_LayersFile (DefaultBuildConfig ''/src'')))) layers"
    if "LoadLayerConfig (bn_layers sample_build) (bc_LayersFile (DefaultBuildConfig ''/src'')) = Inr layers" for layers
    using that by simp
qed


lemma pipeline_outputs:
  assumes "BuildImagePipeline env w cfg tr = (Inr m, tr')"
  shows "map fst (bm_OutputArtifacts m) = [''initramfs.cpio'', ''rootfs.sqsh'']"
proof -
  from assms obtain tr2 tr3 where "finish_build env w cfg tr2 = (Inr m, tr3)"
    by (auto simp: BuildImagePipeline_def split: option.splits sum.splits prod.splits)
  then show ?thesis
    by (auto simp: finish_build_def SaveManifest_def must_def Let_def output_artifacts_def build_manifest_def
        split: sum.splits option.splits)
qed

text \<open>
  C30: a build is called reproducible exactly when it was. The reproducibility check succeeds if and
  only if both builds run to the end, the second one after the artifacts of the first have been
  removed, and each artifact name has the same hash in both manifests.
\<close>

theorem reproducibility_exact:
  "fst (VerifyReproducibility env w cfg tr) = None \<longleftrightarrow>
     (\<exists>m1 tr1 m2 tr2. BuildImagePipeline env w cfg tr = (Inr m1, tr1) \<and>
        BuildImagePipeline env w cfg
          (tr1 @ map (\<lambda>f. BFile (PkRemove (Join_path [bc_OutputDir cfg, f]))) [''initramfs.cpio'', ''rootfs.sqsh'']) = (Inr m2, tr2) \<and>
        hashes (bm_OutputArtifacts m1) = hashes (bm_OutputArtifacts m2))"
proof -
  have cmp: "CompareManifests m1 m2 = None \<longleftrightarrow> hashes (bm_OutputArtifacts m1) = hashes (bm_OutputArtifacts m2)"
    if "BuildImagePipeline env w cfg tr = (Inr m1, tr1)" and "BuildImagePipeline env w cfg tr' = (Inr m2, tr2)" for tr' m1 tr1 m2 tr2
    using pipeline_outputs [OF that(1)] pipeline_outputs [OF that(2)] by (intro compare_manifests_hashes) simp_all
  show ?thesis
    by (auto simp: VerifyReproducibility_def cmp split: sum.splits prod.splits)
qed

end
