(* ===== verification/Qmp.thy ===== *)
theory Qmp
  imports GoStrings GoBytes GoEffects
begin

text \<open>
  \<open>internal/qmp/client.go\<close>: the client of the QEMU machine protocol. A connection is the record
  \<open>client\<close>: the bytes the peer will still send and how the stream ends, the payloads written so far,
  and the closed flag. What the peer sends is arbitrary, so the theorems hold for every peer. The
  write side is answered by the environment \<open>w\<close>; JSON is the parameter \<open>qmp_json\<close>, whose value type
  stands for Go's \<open>interface{}\<close> (\<open>None\<close> for nil).
\<close>

record QMPError =
  qe_Class :: string
  qe_Desc :: string

definition QMPError_Error :: "QMPError \<Rightarrow> string" where
  "QMPError_Error e = ''QMP Error ['' @ qe_Class e @ '']: '' @ qe_Desc e"

record 'v qmpResponse =
  qr_Return :: "'v option"
  qr_Error :: "QMPError option"
  qr_Event :: string

record VMStatus =
  vs_Running :: bool
  vs_Singlestep :: bool
  vs_Status :: string

record SnapshotInfo =
  sni_ID :: string
  sni_Tag :: string
  sni_VMSize :: string
  sni_Date :: string
  sni_VMClock :: string

type_synonym qmp_args = "(string \<times> string) list"

record 'v qmp_json =
  qj_greeting :: "bytes \<Rightarrow> string option"
  qj_encode :: "string \<Rightarrow> qmp_args \<Rightarrow> (string, bytes) result"
  qj_decode :: "bytes \<Rightarrow> (string, 'v qmpResponse) result"
  qj_text :: "'v \<Rightarrow> string option"
  qj_show :: "'v option \<Rightarrow> string"
  qj_status :: "'v option \<Rightarrow> (string, VMStatus) result"

record client =
  cl_in :: reader
  cl_sent :: "bytes list"
  cl_closed :: bool

datatype qmp_error =
    QmpClosed
  | QmpMarshal string string
  | QmpWrite string
  | QmpRead io_error
  | QmpDecode string string
  | QmpFailed QMPError
  | QmpConnect string string string
  | QmpHandshake qmp_error
  | QmpGreetingRead io_error
  | QmpGreeting string
  | QmpNegotiate qmp_error
  | QmpEmptyTag
  | QmpStatus string

definition parseTarget :: "string \<Rightarrow> string \<times> string" where
  "parseTarget target =
     (if HasPrefix target ''unix://'' then (''unix'', TrimPrefix target ''unix://'')
      else if HasPrefix target ''tcp://'' then (''tcp'', TrimPrefix target ''tcp://'')
      else (''unix'', target))"

subsection \<open>Lines and responses\<close>

text \<open>\<open>reader.ReadString('\n')\<close>: the line up to the newline and the rest, or the end of the stream.\<close>

definition read_string :: "reader \<Rightarrow> ((io_error, string) result) \<times> reader" where
  "read_string r =
     (if CHR 0x0A \<in> set (rd_data r)
      then (Inr (takeWhile (\<lambda>c. c \<noteq> CHR 0x0A) (rd_data r) @ [CHR 0x0A]),
            r\<lparr>rd_data := tl (dropWhile (\<lambda>c. c \<noteq> CHR 0x0A) (rd_data r))\<rparr>)
      else (Inl (case rd_end r of AtEOF \<Rightarrow> EOF | ReadErr e \<Rightarrow> ReadError e), r\<lparr>rd_data := []\<rparr>))"

text \<open>The textual test that lets \<open>readLine\<close> skip event notifications.\<close>

definition event_text :: "string \<Rightarrow> bool" where
  "event_text line \<longleftrightarrow>
     Contains line (CHR 0x22 # ''event'' @ CHR 0x22 # '':'') \<and>
     \<not> Contains line (CHR 0x22 # ''return'' @ CHR 0x22 # '':'') \<and>
     \<not> Contains line (CHR 0x22 # ''error'' @ CHR 0x22 # '':'')"

lemma read_string_shrinks: "read_string r = (Inr l, r') \<Longrightarrow> length (rd_data r') < length (rd_data r)"
proof -
  assume *: "read_string r = (Inr l, r')"
  then have "CHR 0x0A \<in> set (rd_data r)" and r': "rd_data r' = tl (dropWhile (\<lambda>c. c \<noteq> CHR 0x0A) (rd_data r))"
    by (auto simp: read_string_def split: if_splits)
  then have "dropWhile (\<lambda>c. c \<noteq> CHR 0x0A) (rd_data r) \<noteq> []" by (auto simp: dropWhile_eq_Nil_conv)
  then have "length (rd_data r') < length (dropWhile (\<lambda>c. c \<noteq> CHR 0x0A) (rd_data r))" using r' by simp
  also have "\<dots> \<le> length (rd_data r)" by (rule length_dropWhile_le)
  finally show ?thesis .
qed

function readLine :: "reader \<Rightarrow> ((io_error, string) result) \<times> reader" where
  "readLine r =
     (case read_string r of
        (Inl e, r') \<Rightarrow> (Inl e, r')
      | (Inr raw, r') \<Rightarrow>
          (let line = TrimSpace raw
           in if line = [] \<or> event_text line then readLine r' else (Inr line, r')))"
  by auto
termination
  by (relation "measure (\<lambda>r. length (rd_data r))") (auto dest: read_string_shrinks [OF sym])

declare readLine.simps [simp del]

lemma readLine_shrinks: "readLine r = (Inr l, r') \<Longrightarrow> length (rd_data r') < length (rd_data r)"
proof (induction r rule: readLine.induct)
  case (1 r)
  show ?case
  proof (cases "read_string r")
    case (Pair x r1)
    with "1.prems" obtain raw where x: "x = Inr raw" by (cases x) (auto simp: readLine.simps [of r])
    with Pair have less: "length (rd_data r1) < length (rd_data r)" by (simp add: read_string_shrinks)
    show ?thesis
    proof (cases "TrimSpace raw = [] \<or> event_text (TrimSpace raw)")
      case True
      with "1.prems" Pair x have "readLine r1 = (Inr l, r')" by (auto simp: readLine.simps [of r])
      with "1.IH" [OF Pair [symmetric] _ refl True] x less show ?thesis by simp
    next
      case False
      with "1.prems" Pair x less show ?thesis by (simp add: readLine.simps [of r] Let_def)
    qed
  qed
qed

text \<open>The loop of \<open>Execute\<close> that waits for the answer and skips decoded events.\<close>

function await_response :: "'v qmp_json \<Rightarrow> reader \<Rightarrow> ((qmp_error, 'v option) result) \<times> reader" where
  "await_response J r =
     (case readLine r of
        (Inl e, r') \<Rightarrow> (Inl (QmpRead e), r')
      | (Inr line, r') \<Rightarrow>
          (case qj_decode J line of
             Inl e \<Rightarrow> (Inl (QmpDecode line e), r')
           | Inr resp \<Rightarrow>
               if qr_Event resp \<noteq> [] \<and> qr_Return resp = None \<and> qr_Error resp = None then await_response J r'
               else (case qr_Error resp of Some e \<Rightarrow> (Inl (QmpFailed e), r') | None \<Rightarrow> (Inr (qr_Return resp), r'))))"
  by pat_completeness auto
termination
  by (relation "measure (\<lambda>(J, r). length (rd_data r))") (auto dest: readLine_shrinks [OF sym])

declare await_response.simps [simp del]

definition Execute ::
  "'v qmp_json \<Rightarrow> bytes world \<Rightarrow> string \<Rightarrow> qmp_args \<Rightarrow> client \<Rightarrow> ((qmp_error, 'v option) result) \<times> client"
where
  "Execute J w cmd args c =
     (if cl_closed c then (Inl QmpClosed, c)
      else case qj_encode J cmd args of
        Inl e \<Rightarrow> (Inl (QmpMarshal cmd e), c)
      | Inr p \<Rightarrow>
          let payload = p @ [CHR 0x0A]; c1 = c\<lparr>cl_sent := cl_sent c @ [payload]\<rparr>
          in case w (cl_sent c) payload of
               Some e \<Rightarrow> (Inl (QmpWrite e), c1)
             | None \<Rightarrow> (case await_response J (cl_in c1) of (res, r) \<Rightarrow> (res, c1\<lparr>cl_in := r\<rparr>)))"

subsection \<open>Connecting\<close>

definition handshake :: "'v qmp_json \<Rightarrow> bytes world \<Rightarrow> client \<Rightarrow> qmp_error option \<times> client" where
  "handshake J w c =
     (case readLine (cl_in c) of
        (Inl e, r) \<Rightarrow> (Some (QmpGreetingRead e), c\<lparr>cl_in := r\<rparr>)
      | (Inr line, r) \<Rightarrow>
          (case qj_greeting J line of
             Some e \<Rightarrow> (Some (QmpGreeting e), c\<lparr>cl_in := r\<rparr>)
           | None \<Rightarrow>
               (case Execute J w ''qmp_capabilities'' [] (c\<lparr>cl_in := r\<rparr>) of
                  (Inl e, c') \<Rightarrow> (Some (QmpNegotiate e), c')
                | (Inr _, c') \<Rightarrow> (None, c'))))"

definition new_client :: "reader \<Rightarrow> client" where
  "new_client r = \<lparr>cl_in = r, cl_sent = [], cl_closed = False\<rparr>"

definition DialConn :: "'v qmp_json \<Rightarrow> bytes world \<Rightarrow> reader \<Rightarrow> (qmp_error, client) result" where
  "DialConn J w conn =
     (case handshake J w (new_client conn) of
        (Some e, _) \<Rightarrow> Inl (QmpHandshake e)
      | (None, c) \<Rightarrow> Inr c)"

text \<open>\<open>net.DialTimeout\<close> is the parameter \<open>dial\<close>: an error, or the stream of the connection.\<close>

definition DialTimeout ::
  "'v qmp_json \<Rightarrow> bytes world \<Rightarrow> (string \<Rightarrow> string \<Rightarrow> (string, reader) result) \<Rightarrow> string \<Rightarrow> (qmp_error, client) result"
where
  "DialTimeout J w dial target =
     (case parseTarget target of
        (network, addr) \<Rightarrow>
          (case dial network addr of
             Inl e \<Rightarrow> Inl (QmpConnect target network e)
           | Inr conn \<Rightarrow> DialConn J w conn))"

definition Close_client :: "client \<Rightarrow> bool \<times> client" where
  "Close_client c = (if cl_closed c then (False, c) else (True, c\<lparr>cl_closed := True\<rparr>))"

definition IsQMPSocketAvailable ::
  "(string \<Rightarrow> bool) \<Rightarrow> (string \<Rightarrow> string \<Rightarrow> (string, reader) result) \<Rightarrow> string \<Rightarrow> bool"
where
  "IsQMPSocketAvailable exists dial socketPath =
     (case parseTarget socketPath of
        (network, addr) \<Rightarrow>
          if network = ''unix'' \<and> \<not> exists addr then False
          else (case dial network addr of Inl _ \<Rightarrow> False | Inr _ \<Rightarrow> True))"

subsection \<open>Commands\<close>

definition drop_value :: "((qmp_error, 'v option) result) \<times> client \<Rightarrow> qmp_error option \<times> client" where
  "drop_value rc = (case rc of (Inl e, c) \<Rightarrow> (Some e, c) | (Inr _, c) \<Rightarrow> (None, c))"

definition Stop_vm :: "'v qmp_json \<Rightarrow> bytes world \<Rightarrow> client \<Rightarrow> qmp_error option \<times> client" where
  "Stop_vm J w c = drop_value (Execute J w ''stop'' [] c)"

definition Cont_vm :: "'v qmp_json \<Rightarrow> bytes world \<Rightarrow> client \<Rightarrow> qmp_error option \<times> client" where
  "Cont_vm J w c = drop_value (Execute J w ''cont'' [] c)"

definition QueryStatus :: "'v qmp_json \<Rightarrow> bytes world \<Rightarrow> client \<Rightarrow> (qmp_error, VMStatus) result \<times> client" where
  "QueryStatus J w c =
     (case Execute J w ''query-status'' [] c of
        (Inl e, c') \<Rightarrow> (Inl e, c')
      | (Inr res, c') \<Rightarrow> (case qj_status J res of Inl e \<Rightarrow> (Inl (QmpStatus e), c') | Inr s \<Rightarrow> (Inr s, c')))"

definition HumanMonitorCommand :: "'v qmp_json \<Rightarrow> bytes world \<Rightarrow> string \<Rightarrow> client \<Rightarrow> (qmp_error, string) result \<times> client" where
  "HumanMonitorCommand J w commandLine c =
     (case Execute J w ''human-monitor-command'' [(''command-line'', commandLine)] c of
        (Inl e, c') \<Rightarrow> (Inl e, c')
      | (Inr res, c') \<Rightarrow>
          (Inr (case Option.bind res (qj_text J) of Some s \<Rightarrow> s | None \<Rightarrow> qj_show J res), c'))"

definition SaveVM :: "'v qmp_json \<Rightarrow> bytes world \<Rightarrow> string \<Rightarrow> client \<Rightarrow> (qmp_error, string) result \<times> client" where
  "SaveVM J w name c =
     (if name = [] then (Inl QmpEmptyTag, c) else HumanMonitorCommand J w (''savevm '' @ name) c)"

definition LoadVM :: "'v qmp_json \<Rightarrow> bytes world \<Rightarrow> string \<Rightarrow> client \<Rightarrow> (qmp_error, string) result \<times> client" where
  "LoadVM J w name c =
     (if name = [] then (Inl QmpEmptyTag, c) else HumanMonitorCommand J w (''loadvm '' @ name) c)"

definition DelVM :: "'v qmp_json \<Rightarrow> bytes world \<Rightarrow> string \<Rightarrow> client \<Rightarrow> (qmp_error, string) result \<times> client" where
  "DelVM J w name c =
     (if name = [] then (Inl QmpEmptyTag, c) else HumanMonitorCommand J w (''delvm '' @ name) c)"

text \<open>The table of snapshots that the monitor prints.\<close>

definition table_header :: "string \<Rightarrow> bool" where
  "table_header l \<longleftrightarrow> HasPrefix l ''ID'' \<and> Contains l ''TAG'' \<and> Contains l ''VM SIZE''"

definition snapshot_row :: "string list \<Rightarrow> SnapshotInfo list" where
  "snapshot_row fs =
     (case fs of
        f0 # f1 # f2 # f3 # f4 # f5 # _ \<Rightarrow>
          [\<lparr>sni_ID = f0, sni_Tag = f1, sni_VMSize = f2, sni_Date = f3 @ '' '' @ f4, sni_VMClock = f5\<rparr>]
      | [f0, f1, f2, f3, f4] \<Rightarrow> [\<lparr>sni_ID = f0, sni_Tag = f1, sni_VMSize = f2, sni_Date = f3, sni_VMClock = f4\<rparr>]
      | _ \<Rightarrow> [])"

fun snapshot_lines :: "bool \<Rightarrow> string list \<Rightarrow> SnapshotInfo list" where
  "snapshot_lines inTable [] = []"
| "snapshot_lines inTable (line # lines) =
     (let trimmed = TrimSpace line
      in if trimmed = [] then snapshot_lines inTable lines
         else if table_header trimmed then snapshot_lines True lines
         else if \<not> inTable then snapshot_lines inTable lines
         else snapshot_row (Fields trimmed) @ snapshot_lines inTable lines)"

definition ParseSnapshotList :: "string \<Rightarrow> SnapshotInfo list" where
  "ParseSnapshotList output = snapshot_lines False (Split output CHR 0x0A)"

definition ListSnapshots :: "'v qmp_json \<Rightarrow> bytes world \<Rightarrow> client \<Rightarrow> (qmp_error, SnapshotInfo list) result \<times> client" where
  "ListSnapshots J w c =
     (case HumanMonitorCommand J w ''info snapshots'' c of
        (Inl e, c') \<Rightarrow> (Inl e, c')
      | (Inr output, c') \<Rightarrow> (Inr (ParseSnapshotList output), c'))"

subsection \<open>Answers and events\<close>

text \<open>Lines that the client passes over while it waits, and lines it takes as the answer.\<close>

definition event_only :: "'v qmpResponse \<Rightarrow> bool" where
  "event_only resp \<longleftrightarrow> qr_Event resp \<noteq> [] \<and> qr_Return resp = None \<and> qr_Error resp = None"

definition passed_over :: "'v qmp_json \<Rightarrow> string \<Rightarrow> bool" where
  "passed_over J l \<longleftrightarrow>
     CHR 0x0A \<notin> set l \<and>
     (TrimSpace l = [] \<or> event_text (TrimSpace l) \<or>
      (case qj_decode J (TrimSpace l) of Inr resp \<Rightarrow> event_only resp | Inl _ \<Rightarrow> False))"

definition is_answer :: "'v qmp_json \<Rightarrow> string \<Rightarrow> bool" where
  "is_answer J l \<longleftrightarrow> CHR 0x0A \<notin> set l \<and> \<not> passed_over J l"

definition reply_value :: "'v qmp_json \<Rightarrow> string \<Rightarrow> (qmp_error, 'v option) result" where
  "reply_value J l =
     (case qj_decode J (TrimSpace l) of
        Inl e \<Rightarrow> Inl (QmpDecode (TrimSpace l) e)
      | Inr resp \<Rightarrow> (case qr_Error resp of Some e \<Rightarrow> Inl (QmpFailed e) | None \<Rightarrow> Inr (qr_Return resp)))"

definition wire :: "string list \<Rightarrow> bytes" where
  "wire ls = concat (map (\<lambda>l. l @ [CHR 0x0A]) ls)"

lemma wire_simps [simp]: "wire [] = []" "wire (l # ls) = l @ CHR 0x0A # wire ls" "wire (ls @ ms) = wire ls @ wire ms"
  by (simp_all add: wire_def)

lemma read_string_line:
  assumes "rd_data r = l @ CHR 0x0A # rest" and "CHR 0x0A \<notin> set l"
  shows "read_string r = (Inr (l @ [CHR 0x0A]), r\<lparr>rd_data := rest\<rparr>)"
  using assms by (simp add: read_string_def takeWhile_append_neq dropWhile_append_neq)

lemma TrimSpace_newline: "TrimSpace (l @ [CHR 0x0A]) = TrimSpace l"
  by (rule TrimSpace_space_right) (simp add: is_space_def)

lemma await_line:
  assumes "rd_data r = l @ CHR 0x0A # rest" and "CHR 0x0A \<notin> set l"
  shows "passed_over J l \<Longrightarrow> await_response J r = await_response J (r\<lparr>rd_data := rest\<rparr>)"
    and "is_answer J l \<Longrightarrow> await_response J r = (reply_value J l, r\<lparr>rd_data := rest\<rparr>)"
proof -
  note rs = read_string_line [OF assms]
  have rl: "readLine r = (if TrimSpace l = [] \<or> event_text (TrimSpace l) then readLine (r\<lparr>rd_data := rest\<rparr>)
      else (Inr (TrimSpace l), r\<lparr>rd_data := rest\<rparr>))"
    by (simp add: readLine.simps [of r] rs TrimSpace_newline)
  show "await_response J r = await_response J (r\<lparr>rd_data := rest\<rparr>)" if "passed_over J l"
  proof (cases "TrimSpace l = [] \<or> event_text (TrimSpace l)")
    case True
    then show ?thesis by (simp add: await_response.simps [of J r] await_response.simps [of J "r\<lparr>rd_data := rest\<rparr>"] rl)
  next
    case False
    with that obtain resp where "qj_decode J (TrimSpace l) = Inr resp" "event_only resp"
      by (auto simp: passed_over_def split: sum.splits)
    with False show ?thesis by (simp add: await_response.simps [of J r] rl event_only_def)
  qed
  show "await_response J r = (reply_value J l, r\<lparr>rd_data := rest\<rparr>)" if "is_answer J l"
    using that unfolding is_answer_def passed_over_def
    by (auto simp: await_response.simps [of J r] rl reply_value_def event_only_def split: sum.splits option.splits)
qed

lemma await_after_events:
  assumes "list_all (passed_over J) es" and "is_answer J a" and "rd_data r = wire (es @ [a]) @ rest"
  shows "await_response J r = (reply_value J a, r\<lparr>rd_data := rest\<rparr>)"
  using assms
proof (induction es arbitrary: r)
  case Nil
  then show ?case by (intro await_line(2)) (simp_all add: is_answer_def)
next
  case (Cons e es)
  then have "await_response J r = await_response J (r\<lparr>rd_data := wire (es @ [a]) @ rest\<rparr>)"
    by (intro await_line(1) [of _ e]) (simp_all add: passed_over_def)
  also have "\<dots> = (reply_value J a, r\<lparr>rd_data := rest\<rparr>)"
    using Cons.IH [of "r\<lparr>rd_data := wire (es @ [a]) @ rest\<rparr>"] Cons.prems by simp
  finally show ?case .
qed

text \<open>A sequence of commands on one connection.\<close>

fun execute_all ::
  "'v qmp_json \<Rightarrow> bytes world \<Rightarrow> (string \<times> qmp_args) list \<Rightarrow> client \<Rightarrow> (qmp_error, 'v option) result list \<times> client"
where
  "execute_all J w [] c = ([], c)"
| "execute_all J w ((cmd, args) # cs) c =
     (case Execute J w cmd args c of
        (res, c1) \<Rightarrow> (case execute_all J w cs c1 of (rs, c2) \<Rightarrow> (res # rs, c2)))"


definition toy_qmp :: "string qmp_json" where
  "toy_qmp =
     \<lparr>qj_greeting = \<lambda>_. None, qj_encode = \<lambda>cmd _. Inr cmd,
      qj_decode = \<lambda>l. Inr \<lparr>qr_Return = (if HasPrefix l ''R'' then Some l else None), qr_Error = None,
                            qr_Event = (if HasPrefix l ''E'' then l else [])\<rparr>,
      qj_text = \<lambda>v. Some v, qj_show = \<lambda>_. [], qj_status = \<lambda>_. Inl []\<rparr>"


end
