(* ===== verification/Snapshot.thy ===== *)
theory Snapshot
  imports Qmp VsockFrame VsockTransport
begin

text \<open>
  \<open>internal/snapshot/orchestrator.go\<close>: saving and restoring the state of a virtual machine, with the
  guest told to quiesce around it. The orchestrator talks to two peers, the guest's control server
  and the hypervisor's monitor; what it says to them, in order, is the list of \<open>snap_call\<close>. What the
  peers send back on each connection is the parameter \<open>snap_env\<close> and may depend on everything said
  before. Times and durations of the result are left out.
\<close>

record SnapshotConfig =
  sc_QMPSocketPath :: string
  sc_VSockTarget :: string
  sc_PauseVM :: bool

record SnapshotResult =
  sr_Tag :: string
  sr_Quiesced :: bool
  sr_Output :: string

definition NewOrchestrator :: "SnapshotConfig \<Rightarrow> SnapshotConfig" where
  "NewOrchestrator cfg =
     (if sc_QMPSocketPath cfg = [] then cfg\<lparr>sc_QMPSocketPath := ''/tmp/qmp.sock''\<rparr> else cfg)"

text \<open>A request to the guest on a connection of its own, the monitor connection, a payload on it, its end.\<close>

datatype snap_call = SnGuest string string | SnDial string | SnQmp bytes | SnClose

record 'v snap_env =
  se_json :: "'v qmp_json"
  se_qmp_dial :: "snap_call list \<Rightarrow> string \<Rightarrow> string \<Rightarrow> (string, reader) result"
  se_qmp_write :: "snap_call list \<Rightarrow> bytes world"
  se_sock :: "snap_call list \<Rightarrow> sock_call world"
  se_fd :: nat
  se_guest_in :: "snap_call list \<Rightarrow> reader"
  se_guest_write :: "snap_call list \<Rightarrow> bytes world"
  se_request_id :: "snap_call list \<Rightarrow> string"
  se_encode :: "RPCRequest \<Rightarrow> (string, bytes) result"
  se_decode :: "bytes \<Rightarrow> (string, bool \<times> string) result"

datatype rpc_error =
    GuestDial string sock_error
  | GuestEncode string
  | GuestFrame frame_error
  | GuestDecode string
  | GuestRefused string string

datatype snap_error =
    SnEmptyTag
  | SnConnect string qmp_error
  | SnSaveFailed string qmp_error
  | SnLoadFailed string qmp_error
  | SnCommand qmp_error

subsection \<open>Operations\<close>

definition guest_request :: "'v snap_env \<Rightarrow> snap_call list \<Rightarrow> string \<Rightarrow> RPCRequest" where
  "guest_request env tr command =
     \<lparr>req_ID = se_request_id env tr, req_Command = command, req_Service = [], req_Args = [], req_Payload = []\<rparr>"

definition rpc_exchange :: "'v snap_env \<Rightarrow> snap_call list \<Rightarrow> string \<Rightarrow> string \<Rightarrow> rpc_error option" where
  "rpc_exchange env tr target command =
     (case fst (Dial (se_sock env tr) (se_fd env) target []) of
        Some e \<Rightarrow> Some (GuestDial target e)
      | None \<Rightarrow>
          (case se_encode env (guest_request env tr command) of
             Inl e \<Rightarrow> Some (GuestEncode e)
           | Inr reqBytes \<Rightarrow>
               (case fst (WriteFrame (se_guest_write env tr) reqBytes []) of
                  Some e \<Rightarrow> Some (GuestFrame e)
                | None \<Rightarrow>
                    (case fst (ReadFrame (se_guest_in env tr)) of
                       Inl e \<Rightarrow> Some (GuestFrame e)
                     | Inr respBytes \<Rightarrow>
                         (case se_decode env respBytes of
                            Inl e \<Rightarrow> Some (GuestDecode e)
                          | Inr (success, msg) \<Rightarrow> if success then None else Some (GuestRefused command msg))))))"

definition sendVSockRPC :: "'v snap_env \<Rightarrow> string \<Rightarrow> string \<Rightarrow> (snap_call, rpc_error) action" where
  "sendVSockRPC env target command tr =
     (if target = [] then (None, tr)
      else (rpc_exchange env tr target command, tr @ [SnGuest target command]))"

definition qmp_Dial :: "'v snap_env \<Rightarrow> string \<Rightarrow> snap_call list \<Rightarrow> (qmp_error, client) result" where
  "qmp_Dial env path tr = DialTimeout (se_json env) (se_qmp_write env tr) (se_qmp_dial env tr) path"

definition said :: "client \<Rightarrow> snap_call list" where
  "said c = map SnQmp (cl_sent c)"

text \<open>Step 1: the guest is asked to quiesce; a guest that cannot be reached is only noted.\<close>

definition quiesce_guest :: "'v snap_env \<Rightarrow> SnapshotConfig \<Rightarrow> snap_call list \<Rightarrow> bool \<times> snap_call list" where
  "quiesce_guest env cfg tr =
     (if sc_VSockTarget cfg \<noteq> []
      then (case sendVSockRPC env (sc_VSockTarget cfg) ''quiesce'' tr of (err, t) \<Rightarrow> (err = None, t))
      else (False, tr))"

text \<open>Steps 3 to 5: pause, save, resume.\<close>

definition save_session ::
  "'v qmp_json \<Rightarrow> bytes world \<Rightarrow> SnapshotConfig \<Rightarrow> string \<Rightarrow> client \<Rightarrow> (qmp_error, string) result \<times> client"
where
  "save_session J w cfg tag c0 =
     (let c1 = (if sc_PauseVM cfg then snd (Stop_vm J w c0) else c0)
      in case SaveVM J w tag c1 of
           (out, c2) \<Rightarrow> (out, if sc_PauseVM cfg then snd (Cont_vm J w c2) else c2))"

definition SaveSnapshot ::
  "'v snap_env \<Rightarrow> SnapshotConfig \<Rightarrow> string \<Rightarrow> snap_call list \<Rightarrow> (snap_error, SnapshotResult) result \<times> snap_call list"
where
  "SaveSnapshot env cfg tag tr =
     (if tag = [] then (Inl SnEmptyTag, tr)
      else case quiesce_guest env cfg tr of
        (quiesced, tr1) \<Rightarrow>
          (case qmp_Dial env (sc_QMPSocketPath cfg) tr1 of
             Inl e \<Rightarrow> (Inl (SnConnect (sc_QMPSocketPath cfg) e), tr1 @ [SnDial (sc_QMPSocketPath cfg)])
           | Inr c0 \<Rightarrow>
               (case save_session (se_json env) (se_qmp_write env tr1) cfg tag c0 of
                  (out, c3) \<Rightarrow>
                    let tr3 = tr1 @ [SnDial (sc_QMPSocketPath cfg)] @ said c3;
                        tr4 = (if quiesced then snd (sendVSockRPC env (sc_VSockTarget cfg) ''unquiesce'' tr3) else tr3)
                    in (case out of
                          Inl e \<Rightarrow> Inl (SnSaveFailed tag e)
                        | Inr text \<Rightarrow> Inr \<lparr>sr_Tag = tag, sr_Quiesced = quiesced, sr_Output = text\<rparr>,
                        tr4 @ [SnClose]))))"

definition RestoreSnapshot ::
  "'v snap_env \<Rightarrow> SnapshotConfig \<Rightarrow> string \<Rightarrow> snap_call list \<Rightarrow> (snap_error, SnapshotResult) result \<times> snap_call list"
where
  "RestoreSnapshot env cfg tag tr =
     (if tag = [] then (Inl SnEmptyTag, tr)
      else
        let target = sc_VSockTarget cfg; path = sc_QMPSocketPath cfg; tr1 = tr @ [SnDial path]
        in case qmp_Dial env path tr of
             Inl e \<Rightarrow> (Inl (SnConnect path e), tr1)
           | Inr c0 \<Rightarrow>
               let J = se_json env; w = se_qmp_write env tr
               in case LoadVM J w tag c0 of
                    (Inl e, c1) \<Rightarrow> (Inl (SnLoadFailed tag e), tr1 @ said c1 @ [SnClose])
                  | (Inr text, c1) \<Rightarrow>
                      let c2 = snd (Cont_vm J w c1);
                          tr2 = tr1 @ said c2;
                          tr3 = (if target \<noteq> [] then snd (sendVSockRPC env target ''unquiesce'' tr2) else tr2)
                      in (Inr \<lparr>sr_Tag = tag, sr_Quiesced = False, sr_Output = text\<rparr>, tr3 @ [SnClose]))"

text \<open>The operations that open a connection for one command.\<close>

definition with_client ::
  "'v snap_env \<Rightarrow> SnapshotConfig \<Rightarrow> (bytes world \<Rightarrow> client \<Rightarrow> (qmp_error, 'a) result \<times> client) \<Rightarrow> snap_call list \<Rightarrow>
     (snap_error, 'a) result \<times> snap_call list"
where
  "with_client env cfg command tr =
     (let path = sc_QMPSocketPath cfg
      in case qmp_Dial env path tr of
           Inl e \<Rightarrow> (Inl (SnConnect path e), tr @ [SnDial path])
         | Inr c0 \<Rightarrow>
             (case command (se_qmp_write env tr) c0 of
                (Inl e, c1) \<Rightarrow> (Inl (SnCommand e), tr @ [SnDial path] @ said c1 @ [SnClose])
              | (Inr x, c1) \<Rightarrow> (Inr x, tr @ [SnDial path] @ said c1 @ [SnClose])))"

definition orch_ListSnapshots :: "'v snap_env \<Rightarrow> SnapshotConfig \<Rightarrow> snap_call list \<Rightarrow> (snap_error, SnapshotInfo list) result \<times> snap_call list" where
  "orch_ListSnapshots env cfg = with_client env cfg (ListSnapshots (se_json env))"

definition DeleteSnapshot :: "'v snap_env \<Rightarrow> SnapshotConfig \<Rightarrow> string \<Rightarrow> snap_call list \<Rightarrow> (snap_error, string) result \<times> snap_call list" where
  "DeleteSnapshot env cfg tag tr =
     (if tag = [] then (Inl SnEmptyTag, tr) else with_client env cfg (\<lambda>w. DelVM (se_json env) w tag) tr)"

definition orch_QueryStatus :: "'v snap_env \<Rightarrow> SnapshotConfig \<Rightarrow> snap_call list \<Rightarrow> (snap_error, VMStatus) result \<times> snap_call list" where
  "orch_QueryStatus env cfg = with_client env cfg (QueryStatus (se_json env))"

subsection \<open>What is said on the monitor connection\<close>

text \<open>Encoding a command never fails: it is a record of strings.\<close>

definition encodes :: "'v qmp_json \<Rightarrow> (string \<Rightarrow> qmp_args \<Rightarrow> bytes) \<Rightarrow> bool" where
  "encodes J enc \<longleftrightarrow> (\<forall>cmd args. qj_encode J cmd args = Inr (enc cmd args))"

definition payload :: "(string \<Rightarrow> qmp_args \<Rightarrow> bytes) \<Rightarrow> string \<Rightarrow> qmp_args \<Rightarrow> bytes" where
  "payload enc cmd args = enc cmd args @ [CHR 0x0A]"

definition monitor_line :: "(string \<Rightarrow> qmp_args \<Rightarrow> bytes) \<Rightarrow> string \<Rightarrow> bytes" where
  "monitor_line enc l = payload enc ''human-monitor-command'' [(''command-line'', l)]"

text \<open>However the peer answers, a command adds its payload to what was said and leaves the client open.\<close>

definition says :: "bytes \<Rightarrow> client \<Rightarrow> client \<Rightarrow> bool" where
  "says p c c' \<longleftrightarrow> cl_sent c' = cl_sent c @ [p] \<and> \<not> cl_closed c'"

lemma Execute_says: "encodes J enc \<Longrightarrow> \<not> cl_closed c \<Longrightarrow> says (payload enc cmd args) c (snd (Execute J w cmd args c))"
  by (auto simp: encodes_def says_def payload_def Execute_def Let_def split: option.splits prod.splits)

lemma Stop_says: "encodes J enc \<Longrightarrow> \<not> cl_closed c \<Longrightarrow> says (payload enc ''stop'' []) c (snd (Stop_vm J w c))"
  using Execute_says [of J enc c "''stop''" "[]" w] by (auto simp: Stop_vm_def drop_value_def split: prod.splits sum.splits)

lemma Cont_says: "encodes J enc \<Longrightarrow> \<not> cl_closed c \<Longrightarrow> says (payload enc ''cont'' []) c (snd (Cont_vm J w c))"
  using Execute_says [of J enc c "''cont''" "[]" w] by (auto simp: Cont_vm_def drop_value_def split: prod.splits sum.splits)

lemma Monitor_says: "encodes J enc \<Longrightarrow> \<not> cl_closed c \<Longrightarrow> says (monitor_line enc l) c (snd (HumanMonitorCommand J w l c))"
  using Execute_says [of J enc c "''human-monitor-command''" "[(''command-line'', l)]" w]
  by (auto simp: HumanMonitorCommand_def monitor_line_def split: prod.splits sum.splits)

lemma Save_says: "encodes J enc \<Longrightarrow> \<not> cl_closed c \<Longrightarrow> t \<noteq> [] \<Longrightarrow> says (monitor_line enc (''savevm '' @ t)) c (snd (SaveVM J w t c))"
  by (simp add: SaveVM_def Monitor_says)

lemma Load_says: "encodes J enc \<Longrightarrow> \<not> cl_closed c \<Longrightarrow> t \<noteq> [] \<Longrightarrow> says (monitor_line enc (''loadvm '' @ t)) c (snd (LoadVM J w t c))"
  by (simp add: LoadVM_def Monitor_says)

lemma Dial_says:
  assumes "encodes J enc" and "DialTimeout J w dial target = Inr c"
  shows "cl_sent c = [payload enc ''qmp_capabilities'' []] \<and> \<not> cl_closed c"
proof -
  from assms(2) obtain conn where "handshake J w (new_client conn) = (None, c)"
    by (auto simp: DialTimeout_def DialConn_def split: prod.splits sum.splits option.splits)
  then obtain r v where "Execute J w ''qmp_capabilities'' [] ((new_client conn)\<lparr>cl_in := r\<rparr>) = (Inr v, c)"
    by (auto simp: handshake_def split: prod.splits sum.splits option.splits)
  with Execute_says [OF assms(1), of "(new_client conn)\<lparr>cl_in := r\<rparr>" "''qmp_capabilities''" "[]" w]
  show ?thesis by (simp add: says_def new_client_def)
qed

subsection \<open>The protocol of a snapshot\<close>

definition prologue :: "SnapshotConfig \<Rightarrow> snap_call list" where
  "prologue cfg = (if sc_VSockTarget cfg \<noteq> [] then [SnGuest (sc_VSockTarget cfg) ''quiesce''] else [])"

definition quiesce_ok :: "'v snap_env \<Rightarrow> SnapshotConfig \<Rightarrow> snap_call list \<Rightarrow> bool" where
  "quiesce_ok env cfg tr \<longleftrightarrow> sc_VSockTarget cfg \<noteq> [] \<and> rpc_exchange env tr (sc_VSockTarget cfg) ''quiesce'' = None"

definition save_commands :: "(string \<Rightarrow> qmp_args \<Rightarrow> bytes) \<Rightarrow> SnapshotConfig \<Rightarrow> string \<Rightarrow> bytes list" where
  "save_commands enc cfg tag =
     [payload enc ''qmp_capabilities'' []] @ (if sc_PauseVM cfg then [payload enc ''stop'' []] else []) @
     [monitor_line enc (''savevm '' @ tag)] @ (if sc_PauseVM cfg then [payload enc ''cont'' []] else [])"

lemma save_session_said:
  assumes "encodes J enc" and "cl_sent c0 = [payload enc ''qmp_capabilities'' []]" and "\<not> cl_closed c0" and "tag \<noteq> []"
    and "save_session J w cfg tag c0 = (out, c3)"
  shows "said c3 = map SnQmp (save_commands enc cfg tag)"
proof -
  obtain c1 c2 where c1: "c1 = (if sc_PauseVM cfg then snd (Stop_vm J w c0) else c0)" and c2: "SaveVM J w tag c1 = (out, c2)"
    and c3: "c3 = (if sc_PauseVM cfg then snd (Cont_vm J w c2) else c2)"
    using assms(5) by (auto simp: save_session_def Let_def split: prod.splits)
  have s1: "cl_sent c1 = cl_sent c0 @ (if sc_PauseVM cfg then [payload enc ''stop'' []] else []) \<and> \<not> cl_closed c1"
    using Stop_says [OF assms(1,3), of w] assms(3) c1 by (simp add: says_def)
  then have s2: "says (monitor_line enc (''savevm '' @ tag)) c1 c2"
    using Save_says [OF assms(1) _ assms(4), of c1 w] c2 by simp
  then have "cl_sent c3 = cl_sent c2 @ (if sc_PauseVM cfg then [payload enc ''cont'' []] else [])"
    using Cont_says [OF assms(1), of c2 w] c3 by (simp add: says_def)
  with s1 s2 assms(2) show ?thesis by (simp add: says_def save_commands_def said_def)
qed

lemma quiesce_guest_prologue: "quiesce_guest env cfg tr = (quiesce_ok env cfg tr, tr @ prologue cfg)"
  by (simp add: quiesce_guest_def sendVSockRPC_def quiesce_ok_def prologue_def)

lemma quiesce_ok_target: "quiesce_ok env cfg tr \<Longrightarrow> sc_VSockTarget cfg \<noteq> []"
  by (simp add: quiesce_ok_def)


text \<open>A hypervisor that greets and answers every command, and a guest that accepts every request.\<close>

definition obliging_env :: "string snap_env" where
  "obliging_env =
     \<lparr>se_json = toy_qmp,
      se_qmp_dial = \<lambda>_ _ _. Inr \<lparr>rd_data = wire [''R hello'', ''R caps'', ''R stop'', ''R saved'', ''R cont''], rd_end = AtEOF\<rparr>,
      se_qmp_write = \<lambda>_ _ _. None, se_sock = \<lambda>_ _ _. None, se_fd = 3,
      se_guest_in = \<lambda>_. \<lparr>rd_data = put_u32_be 0, rd_end = AtEOF\<rparr>, se_guest_write = \<lambda>_ _ _. None,
      se_request_id = \<lambda>_. ''snap-1'', se_encode = \<lambda>_. Inr ''{}'', se_decode = \<lambda>_. Inr (True, [])\<rparr>"

definition sample_cfg :: SnapshotConfig where
  "sample_cfg = \<lparr>sc_QMPSocketPath = ''/tmp/qmp.sock'', sc_VSockTarget = ''vsock://3:1024'', sc_PauseVM = True\<rparr>"

lemma obliging_encodes: "encodes (se_json obliging_env) (\<lambda>cmd _. cmd)"
  by (simp add: encodes_def obliging_env_def toy_qmp_def)

text \<open>A peer that greets and answers the negotiation is connected to.\<close>

lemma dial_answered:
  assumes "dial (fst (parseTarget target)) (snd (parseTarget target)) = Inr conn"
    and "rd_data conn = g @ CHR 0x0A # a @ CHR 0x0A # rest"
    and "CHR 0x0A \<notin> set g" and "TrimSpace g \<noteq> []" and "\<not> event_text (TrimSpace g)" and "qj_greeting J (TrimSpace g) = None"
    and "is_answer J a" and "reply_value J a = Inr v" and "\<forall>tr p. w tr p = None" and "encodes J enc"
  shows "\<exists>c. DialTimeout J w dial target = Inr c"
proof -
  let ?r = "conn\<lparr>rd_data := a @ CHR 0x0A # rest\<rparr>"
  have line: "readLine conn = (Inr (TrimSpace g), ?r)"
    using assms(4,5) by (simp add: readLine.simps [of conn] read_string_line [OF assms(2,3)] TrimSpace_newline)
  have "await_response J ?r = (reply_value J a, ?r\<lparr>rd_data := rest\<rparr>)"
    using assms(7) by (intro await_line(2)) (simp_all add: is_answer_def)
  with assms line show ?thesis
    by (simp add: DialTimeout_def DialConn_def handshake_def new_client_def Execute_def encodes_def case_prod_beta)
qed

lemma obliging_dial: "\<exists>c. qmp_Dial obliging_env ''/tmp/qmp.sock'' tr = Inr c"
  unfolding qmp_Dial_def
proof (rule dial_answered)
  show "se_qmp_dial obliging_env tr (fst (parseTarget ''/tmp/qmp.sock'')) (snd (parseTarget ''/tmp/qmp.sock'')) =
      Inr \<lparr>rd_data = wire [''R hello'', ''R caps'', ''R stop'', ''R saved'', ''R cont''], rd_end = AtEOF\<rparr>"
    by (simp add: obliging_env_def)
  show "encodes (se_json obliging_env) (\<lambda>cmd _. cmd)" by (rule obliging_encodes)
  show "rd_data \<lparr>rd_data = wire [''R hello'', ''R caps'', ''R stop'', ''R saved'', ''R cont''], rd_end = AtEOF\<rparr> =
      ''R hello'' @ CHR 0x0A # ''R caps'' @ CHR 0x0A # wire [''R stop'', ''R saved'', ''R cont'']"
    by simp
  show "reply_value (se_json obliging_env) ''R caps'' = Inr (Some ''R caps'')"
    by (simp add: obliging_env_def toy_qmp_def reply_value_def go_eval)
qed (simp_all add: obliging_env_def toy_qmp_def is_answer_def passed_over_def event_only_def event_text_def go_eval)


end
