(* ===== verification/CliTools.thy ===== *)
theory CliTools
  imports Cli Builder Snapshot
begin

text \<open>
  \<open>cmd/karim/main.go\<close>, the commands that work on the host: building images, importing container images
  as layers, and snapshots of the machine. Output and banners are left out; a command ends with an exit
  status or with what it obtained.
\<close>

subsection \<open>Building\<close>

record build_flags =
  bf_out_dir :: string
  bf_init_bin :: string
  bf_svcd_bin :: string
  bf_services_dir :: string
  bf_layers_file :: string
  bf_kernel :: string
  bf_epoch :: int
  bf_verify :: bool

definition build_defaults :: build_flags where
  "build_defaults =
     \<lparr>bf_out_dir = ''dist'', bf_init_bin = ''build/init'', bf_svcd_bin = ''build/karim-svcd'', bf_services_dir = ''config/services'',
      bf_layers_file = ''config/layers.toml'', bf_kernel = ''dist/bzImage'', bf_epoch = 0, bf_verify = False\<rparr>"

definition build_kinds :: "string \<Rightarrow> flag_kind option" where
  "build_kinds name =
     (if name \<in> set [''out-dir'', ''init-bin'', ''svcd-bin'', ''services-dir'', ''layers-file'', ''kernel''] then Some FString
      else if name = ''epoch'' then Some FInt
      else if name = ''verify-reproducible'' then Some FBool
      else None)"

definition build_set :: "string \<Rightarrow> string \<Rightarrow> build_flags \<Rightarrow> build_flags" where
  "build_set name v f =
     (if name = ''out-dir'' then f\<lparr>bf_out_dir := v\<rparr>
      else if name = ''init-bin'' then f\<lparr>bf_init_bin := v\<rparr>
      else if name = ''svcd-bin'' then f\<lparr>bf_svcd_bin := v\<rparr>
      else if name = ''services-dir'' then f\<lparr>bf_services_dir := v\<rparr>
      else if name = ''layers-file'' then f\<lparr>bf_layers_file := v\<rparr>
      else if name = ''kernel'' then f\<lparr>bf_kernel := v\<rparr>
      else f\<lparr>bf_epoch := (case ParseInt0 v of Inl _ \<Rightarrow> 0 | Inr n \<Rightarrow> n)\<rparr>)"

definition build_config_of :: "build_flags \<Rightarrow> BuildConfig" where
  "build_config_of f =
     \<lparr>bc_InitBinPath = bf_init_bin f, bc_SvcdBinPath = bf_svcd_bin f, bc_ServicesDir = bf_services_dir f,
      bc_LayersFile = bf_layers_file f, bc_KernelPath = bf_kernel f, bc_OutputDir = bf_out_dir f,
      bc_SourceDateEpoch = bf_epoch f\<rparr>"

datatype build_outcome = BuildUsage flag_error | AuditFailed repro_error | AuditPassed | BuildFailed build_error | BuildDone BuildManifest

definition build_status :: "build_outcome \<Rightarrow> nat" where
  "build_status r =
     (case r of
        BuildUsage e \<Rightarrow> (if e \<in> {FlagNotDefined ''h'', FlagNotDefined ''help''} then 0 else 2)
      | AuditFailed _ \<Rightarrow> 1 | BuildFailed _ \<Rightarrow> 1 | AuditPassed \<Rightarrow> 0 | BuildDone _ \<Rightarrow> 0)"

definition runBuild :: "build_env \<Rightarrow> b_call world \<Rightarrow> string list \<Rightarrow> b_call list \<Rightarrow> build_outcome \<times> b_call list" where
  "runBuild env w cmdArgs tr =
     (case parse_flags build_kinds build_set (\<lambda>_ b f. f\<lparr>bf_verify := b\<rparr>) cmdArgs build_defaults of
        Inl e \<Rightarrow> (BuildUsage e, tr)
      | Inr (f, _) \<Rightarrow>
          if bf_verify f
          then (case VerifyReproducibility env w (build_config_of f) tr of
                  (Some e, tr') \<Rightarrow> (AuditFailed e, tr') | (None, tr') \<Rightarrow> (AuditPassed, tr'))
          else (case BuildImagePipeline env w (build_config_of f) tr of
                  (Inl e, tr') \<Rightarrow> (BuildFailed e, tr') | (Inr m, tr') \<Rightarrow> (BuildDone m, tr')))"

subsection \<open>Importing a layer\<close>

text \<open>
  The host as the command finds it: whether a path does not exist, the directory for temporary files,
  the result of \<open>docker save\<close>, and how archives and the layer file are read.
\<close>

record import_env =
  ie_not_exist :: "string \<Rightarrow> bool"
  ie_tempdir :: string
  ie_docker_save :: "string \<Rightarrow> string \<Rightarrow> string option"
  ie_archive :: archive_env
  ie_layers :: layers_env

datatype import_outcome =
    ImportUsage
  | ArchiveMissing string
  | ExportFailed string string
  | InspectFailed archive_error
  | ImportPanic
  | RegisterFailed string
  | Registered string

definition clean_ref :: "string \<Rightarrow> string" where
  "clean_ref rawInput = TrimPrefix (TrimPrefix (TrimPrefix rawInput ''docker-archive:'') ''oci:'') ''docker:''"

definition sanitize_ref :: "string \<Rightarrow> string" where
  "sanitize_ref ref = map (\<lambda>c. if c = CHR ''/'' \<or> c = CHR '':'' then CHR ''_'' else c) ref"

definition is_tar_name :: "string \<Rightarrow> bool" where
  "is_tar_name s \<longleftrightarrow> HasSuffix s ''.tar'' \<or> HasSuffix s ''.tgz'' \<or> HasSuffix s ''.tar.gz''"

text \<open>The archive to inspect and the name of the layer, after an export where the input is not a file.\<close>

definition locate_archive :: "import_env \<Rightarrow> string list \<Rightarrow> (import_outcome, string \<times> string) result" where
  "locate_archive env args =
     (let rawInput = hd args;
          layerName = (case tl args of [] \<Rightarrow> ''imported-oci'' | n # _ \<Rightarrow> n)
      in if \<not> ie_not_exist env rawInput then Inr (rawInput, layerName)
         else
           let ref = clean_ref rawInput
           in if is_tar_name ref then Inl (ArchiveMissing ref)
              else
                let sanitized = sanitize_ref ref;
                    tmpTar = Join_path [ie_tempdir env, ''karim_docker_'' @ sanitized @ ''.tar'']
                in case ie_docker_save env ref tmpTar of
                     Some e \<Rightarrow> Inl (ExportFailed rawInput e)
                   | None \<Rightarrow> Inr (tmpTar, if length args = 1 then sanitized else layerName))"

definition layer_file :: string where
  "layer_file = ''config/layers.toml''"

definition imported_layer :: "string \<Rightarrow> string \<Rightarrow> LayerSpec" where
  "imported_layer name path =
     \<lparr>ls_Name = name, ls_Type = LayerTypeOCIArchive, ls_Path = path, ls_TargetDir = ''/'', ls_SHA256 = []\<rparr>"

text \<open>The loop that replaces the first layer of that name, and the append when there is none.\<close>

fun register_layer :: "LayerSpec \<Rightarrow> LayerConfig \<Rightarrow> LayerConfig" where
  "register_layer new [] = [new]"
| "register_layer new (l # ls) = (if ls_Name l = ls_Name new then new # ls else l # register_layer new ls)"

text \<open>\<open>cfg, _ := LoadLayerConfig(...)\<close>: a configuration that cannot be read is nil, and ranging over its layers panics.\<close>

definition runLayer :: "import_env \<Rightarrow> lc_call world \<Rightarrow> string list \<Rightarrow> lc_call list \<Rightarrow> import_outcome \<times> lc_call list" where
  "runLayer env w cmdArgs tr =
     (if cmdArgs = [] then (ImportUsage, tr)
      else
        case locate_archive env cmdArgs of
          Inl r \<Rightarrow> (r, tr)
        | Inr (archivePath, layerName) \<Rightarrow>
            (case InspectOCIArchive (ie_archive env) archivePath of
               Inl e \<Rightarrow> (InspectFailed e, tr)
             | Inr info \<Rightarrow>
                 (case LoadLayerConfig (ie_layers env) layer_file of
                    Inl _ \<Rightarrow> (ImportPanic, tr)
                  | Inr cfg \<Rightarrow>
                      (case SaveLayerConfig (ie_layers env) w (Some (register_layer (imported_layer layerName archivePath) cfg)) layer_file tr of
                         (Some e, tr') \<Rightarrow> (RegisterFailed e, tr')
                       | (None, tr') \<Rightarrow> (Registered layerName, tr')))))"

subsection \<open>Snapshots\<close>

text \<open>The loop that takes flags out of the arguments: flags (with the value of \<open>--qmp-socket\<close>) and the rest.\<close>

fun separate_args :: "string list \<Rightarrow> string list \<times> string list" where
  "separate_args [] = ([], [])"
| "separate_args [arg] = (if HasPrefix arg ''-'' then ([arg], []) else ([], [arg]))"
| "separate_args (arg # v # rest) =
     (if HasPrefix arg ''-'' then
        (if arg = ''--qmp-socket'' \<or> arg = ''-qmp-socket''
         then (case separate_args rest of (fs, ps) \<Rightarrow> (arg # v # fs, ps))
         else (case separate_args (v # rest) of (fs, ps) \<Rightarrow> (arg # fs, ps)))
      else (case separate_args (v # rest) of (fs, ps) \<Rightarrow> (fs, arg # ps)))"

record snap_flags =
  sf_qmp_socket :: string
  sf_pause_vm :: bool

definition snap_kinds :: "string \<Rightarrow> flag_kind option" where
  "snap_kinds name = (if name = ''qmp-socket'' then Some FString else if name = ''pause-vm'' then Some FBool else None)"

datatype snap_outcome =
    SnapHelp
  | SnapUsage flag_error
  | SnapMissingTag
  | SnapFailed snap_error
  | SnapSaved SnapshotResult
  | SnapRestored SnapshotResult
  | SnapList "SnapshotInfo list"
  | SnapDeleted string
  | SnapStatus VMStatus
  | SnapUnknown string

text \<open>A subcommand that needs a tag gets the first positional argument.\<close>

definition with_tag ::
  "string list \<Rightarrow> (string \<Rightarrow> snap_call list \<Rightarrow> (snap_error, 'a) result \<times> snap_call list) \<Rightarrow> ('a \<Rightarrow> snap_outcome) \<Rightarrow>
     snap_call list \<Rightarrow> snap_outcome \<times> snap_call list"
where
  "with_tag positional act mk tr =
     (case positional of
        [] \<Rightarrow> (SnapMissingTag, tr)
      | tag # _ \<Rightarrow> (case act tag tr of (Inl e, tr') \<Rightarrow> (SnapFailed e, tr') | (Inr r, tr') \<Rightarrow> (mk r, tr')))"

definition runSnapshot ::
  "'v snap_env \<Rightarrow> string \<Rightarrow> string \<Rightarrow> string list \<Rightarrow> snap_call list \<Rightarrow> snap_outcome \<times> snap_call list"
where
  "runSnapshot env envSock vsockTarget cmdArgs tr =
     (case cmdArgs of
        [] \<Rightarrow> (SnapHelp, tr)
      | c # subArgs \<Rightarrow>
          (let (flagArgs, positionalArgs) = separate_args subArgs
           in case parse_flags snap_kinds (\<lambda>_ v f. f\<lparr>sf_qmp_socket := v\<rparr>) (\<lambda>_ b f. f\<lparr>sf_pause_vm := b\<rparr>)
                     (flagArgs @ positionalArgs) \<lparr>sf_qmp_socket = ''/tmp/qmp.sock'', sf_pause_vm = True\<rparr> of
                Inl e \<Rightarrow> (SnapUsage e, tr)
              | Inr (f, positional) \<Rightarrow>
                  (let cfg = NewOrchestrator
                         \<lparr>sc_QMPSocketPath = (if envSock \<noteq> [] then envSock else sf_qmp_socket f), sc_VSockTarget = vsockTarget,
                          sc_PauseVM = sf_pause_vm f\<rparr>;
                       subCmd = ToLower c
                   in if subCmd \<in> {''save'', ''create''} then with_tag positional (SaveSnapshot env cfg) SnapSaved tr
                      else if subCmd \<in> {''restore'', ''load''} then with_tag positional (RestoreSnapshot env cfg) SnapRestored tr
                      else if subCmd \<in> {''list'', ''ls''} then
                        (case orch_ListSnapshots env cfg tr of (Inl e, tr') \<Rightarrow> (SnapFailed e, tr') | (Inr s, tr') \<Rightarrow> (SnapList s, tr'))
                      else if subCmd \<in> {''delete'', ''del'', ''rm''}
                        then with_tag positional (DeleteSnapshot env cfg) (\<lambda>_. SnapDeleted (hd positional)) tr
                      else if subCmd = ''status'' then
                        (case orch_QueryStatus env cfg tr of (Inl e, tr') \<Rightarrow> (SnapFailed e, tr') | (Inr s, tr') \<Rightarrow> (SnapStatus s, tr'))
                      else (SnapUnknown subCmd, tr))))"

subsection \<open>What an import leaves behind\<close>

lemma register_layer_in: "new \<in> set (register_layer new cfg)"
  by (induction new cfg rule: register_layer.induct) auto

lemma register_layer_others:
  "filter (\<lambda>l. ls_Name l \<noteq> ls_Name new) (register_layer new cfg) = filter (\<lambda>l. ls_Name l \<noteq> ls_Name new) cfg"
  by (induction new cfg rule: register_layer.induct) auto

lemma register_layer_storable: "storable new \<Longrightarrow> list_all storable cfg \<Longrightarrow> list_all storable (register_layer new cfg)"
  by (induction new cfg rule: register_layer.induct) auto

lemma register_layer_last:
  "ls_Name new \<noteq> [] \<Longrightarrow> cfg = [] \<or> ls_Name (last cfg) \<noteq> [] \<Longrightarrow> ls_Name (last (register_layer new cfg)) \<noteq> []"
proof (induction new cfg rule: register_layer.induct)
  case (2 new l ls)
  then show ?case by (cases ls) (auto split: if_splits)
qed simp

lemma register_layer_set: "ls_Name ` set (register_layer new cfg) = insert (ls_Name new) (ls_Name ` set cfg)"
  by (induction new cfg rule: register_layer.induct) auto

lemma register_layer_names: "distinct (map ls_Name cfg) \<Longrightarrow> distinct (map ls_Name (register_layer new cfg))"
  by (induction new cfg rule: register_layer.induct) (auto simp: register_layer_set)


definition sample_import :: import_env where
  "sample_import =
     \<lparr>ie_not_exist = \<lambda>_. False, ie_tempdir = ''/tmp'', ie_docker_save = \<lambda>_ _. Some ''no docker'',
      ie_archive =
        \<lparr>ae_open = \<lambda>_. Inr [], ae_gunzip = \<lambda>b. Inr b,
         ae_untar = \<lambda>_. ([\<lparr>te_Name = ''manifest.json'', te_Type = TypeReg, te_Mode = 420, te_Linkname = [], te_Data = ''{}''\<rparr>], None),
         ae_readall = \<lambda>h. Inr (te_Data h), ae_docker = \<lambda>_. Inr [\<lparr>dm_Config = [], dm_RepoTags = [''alpine''], dm_Layers = [''l1'']\<rparr>]\<rparr>,
      ie_layers = file_env []\<rparr>"


text \<open>The socket of the monitor may be given before or after the tag.\<close>

lemma snapshot_socket_any_order:
  assumes "\<not> HasPrefix tag ''-''"
  shows "runSnapshot env envSock target [c, tag, ''--qmp-socket'', p] = runSnapshot env envSock target [c, ''--qmp-socket'', p, tag]"
proof -
  have "tag \<noteq> ''--qmp-socket''" "tag \<noteq> ''-qmp-socket''" using assms by auto
  with assms have "separate_args [tag, ''--qmp-socket'', p] = separate_args [''--qmp-socket'', p, tag]" by simp
  then show ?thesis by (simp add: runSnapshot_def fun_eq_iff del: separate_args.simps)
qed

text \<open>The value of a boolean flag written as an argument of its own is taken for the tag.\<close>

lemma snapshot_bool_value_is_tag: "separate_args [''--pause-vm'', ''false'', ''nightly''] = ([''--pause-vm''], [''false'', ''nightly''])"
  by simp

end
