(* ===== verification/GoNet.thy ===== *)
theory GoNet
  imports GoStrings GoBytes
begin

text \<open>
  The reading of IP addresses of Go's \<open>net\<close> package: \<open>net.ParseIP\<close> (through \<open>netip.ParseAddr\<close>)
  and \<open>IP.To4\<close>, for dotted IPv4 addresses and for IPv6 addresses with groups, an ellipsis and an
  IPv4 tail. An address is its sixteen bytes, IPv4 in the mapped form; \<open>None\<close> is Go's nil.
\<close>

subsection \<open>Dotted addresses\<close>

text \<open>One field: decimal digits, no leading zero, at most 255.\<close>

definition octet_ok :: "string \<Rightarrow> bool" where
  "octet_ok s \<longleftrightarrow> s \<noteq> [] \<and> list_all is_digit s \<and> (length s = 1 \<or> hd s \<noteq> CHR ''0'') \<and> decimal_value s \<le> 255"

definition octet :: "string \<Rightarrow> char" where
  "octet s = char_of (nat (decimal_value s))"

definition parseIPv4 :: "string \<Rightarrow> bytes option" where
  "parseIPv4 s =
     (let fs = Split s (CHR ''.'')
      in if length fs = 4 \<and> list_all octet_ok fs then Some (map octet fs) else None)"

subsection \<open>Colon-separated addresses\<close>

definition is_hex :: "char \<Rightarrow> bool" where
  "is_hex c \<longleftrightarrow> is_digit c \<or> (97 \<le> (of_char c :: nat) \<and> (of_char c :: nat) \<le> 102) \<or> (65 \<le> (of_char c :: nat) \<and> (of_char c :: nat) \<le> 70)"

definition hex_digit_val :: "char \<Rightarrow> nat" where
  "hex_digit_val c =
     (let n = of_char c in if n \<le> 57 then n - 48 else if 97 \<le> n then n - 87 else n - 55)"

definition hex_value :: "string \<Rightarrow> nat" where
  "hex_value s = foldl (\<lambda>n c. 16 * n + hex_digit_val c) 0 s"

text \<open>
  The loop over the groups: how many two-byte groups may still follow, the bytes read so far, where
  the ellipsis stood, and what is left of the input.
\<close>

fun v6_groups :: "nat \<Rightarrow> bytes \<Rightarrow> nat option \<Rightarrow> string \<Rightarrow> (bytes \<times> nat option \<times> string) option" where
  "v6_groups 0 ip ell s = Some (ip, ell, s)"
| "v6_groups (Suc k) ip ell s =
     (let h = takeWhile is_hex s; rest = dropWhile is_hex s
      in if h = [] \<or> 4 < length h then None
         else if rest \<noteq> [] \<and> hd rest = CHR ''.'' then
           (if (ell = None \<and> length ip \<noteq> 12) \<or> 16 < length ip + 4 then None
            else map_option (\<lambda>q. (ip @ q, ell, [])) (parseIPv4 s))
         else
           let ip' = ip @ [char_of (hex_value h div 256), char_of (hex_value h)]
           in if rest = [] then Some (ip', ell, [])
              else if hd rest \<noteq> CHR '':'' \<or> tl rest = [] then None
              else
                let s' = tl rest
                in if hd s' \<noteq> CHR '':'' then v6_groups k ip' ell s'
                   else if ell \<noteq> None then None
                   else if tl s' = [] then Some (ip', Some (length ip'), [])
                   else v6_groups k ip' (Some (length ip')) (tl s'))"

definition v6_expand :: "bytes \<Rightarrow> nat option \<Rightarrow> string \<Rightarrow> bytes option" where
  "v6_expand ip ell s =
     (if s \<noteq> [] then None
      else if length ip < 16
        then map_option (\<lambda>e. take e ip @ replicate (16 - length ip) (CHR 0x00) @ drop e ip) ell
      else if ell \<noteq> None then None
      else Some ip)"

definition parseIPv6 :: "string \<Rightarrow> bytes option" where
  "parseIPv6 s =
     (if HasPrefix s ''::''
      then if drop 2 s = [] then Some (replicate 16 (CHR 0x00))
           else Option.bind (v6_groups 8 [] (Some 0) (drop 2 s)) (\<lambda>(ip, ell, r). v6_expand ip ell r)
      else Option.bind (v6_groups 8 [] None s) (\<lambda>(ip, ell, r). v6_expand ip ell r))"

subsection \<open>Package net\<close>

text \<open>The first of the characters \<open>.\<close>, \<open>:\<close> and \<open>%\<close> selects the parser; an address with a zone is refused.\<close>

definition v4_mapped :: "bytes \<Rightarrow> bytes" where
  "v4_mapped ip = replicate 10 (CHR 0x00) @ [CHR 0xFF, CHR 0xFF] @ ip"

definition ParseIP :: "string \<Rightarrow> bytes option" where
  "ParseIP s =
     (case find (\<lambda>c. c \<in> set ''.:%'') s of
        None \<Rightarrow> None
      | Some c \<Rightarrow>
          (if c = CHR ''.'' then map_option v4_mapped (parseIPv4 s)
           else if c = CHR '':'' \<and> CHR ''%'' \<notin> set s then parseIPv6 s
           else None))"

text \<open>\<open>ip.To4()\<close>; nil has no IPv4 form.\<close>

definition To4 :: "bytes option \<Rightarrow> bytes option" where
  "To4 ip =
     (case ip of
        None \<Rightarrow> None
      | Some b \<Rightarrow>
          (if length b = 4 then Some b
           else if length b = 16 \<and> take 12 b = replicate 10 (CHR 0x00) @ [CHR 0xFF, CHR 0xFF] then Some (drop 12 b)
           else None))"

lemma To4_length [simp]: "To4 ip = Some b \<Longrightarrow> length b = 4"
  by (auto simp: To4_def split: option.splits if_splits)

lemma To4_mapped: "length ip = 4 \<Longrightarrow> To4 (Some (v4_mapped ip)) = Some ip"
  by (simp add: To4_def v4_mapped_def)

lemma parseIPv4_length: "parseIPv4 s = Some ip \<Longrightarrow> length ip = 4"
  by (auto simp: parseIPv4_def Let_def split: if_splits)

subsection \<open>Printed addresses\<close>

definition dotted :: "bytes \<Rightarrow> string" where
  "dotted ip = Join_strings (map (\<lambda>b. show_nat (of_char b)) ip) ''.''"

lemma show_nat_hd: "10 \<le> n \<Longrightarrow> hd (show_nat n) \<noteq> CHR ''0''"
proof (induction n rule: show_nat.induct)
  case (1 n)
  have app: "show_nat n = show_nat (n div 10) @ [digit_char (n mod 10)]"
    using 1(2) by (subst show_nat.simps) simp
  show ?case
  proof (cases "n div 10 < 10")
    case True
    moreover have "n div 10 \<noteq> 0" using 1(2) by (simp add: div_eq_0_iff)
    ultimately have "n div 10 \<in> {1, 2, 3, 4, 5, 6, 7, 8, 9}" using less_10_cases [of "n div 10"] by simp
    then have "digit_char (n div 10) \<noteq> CHR ''0''"
      by (elim insertE) (simp_all add: digit_char_def)
    then have "hd (show_nat (n div 10)) \<noteq> CHR ''0''"
      using True by (simp add: show_nat.simps [of "n div 10"])
    then show ?thesis by (simp add: app)
  next
    case False
    then show ?thesis using 1 by (simp add: app)
  qed
qed

lemma octet_show_nat: "n < 256 \<Longrightarrow> octet_ok (show_nat n) \<and> octet (show_nat n) = char_of n"
proof -
  assume n: "n < 256"
  have "length (show_nat n) = 1" if "n < 10" using that by (simp add: show_nat.simps [of n])
  then have "length (show_nat n) = 1 \<or> hd (show_nat n) \<noteq> CHR ''0''"
    using show_nat_hd [of n] by linarith
  with n show ?thesis by (simp add: octet_ok_def octet_def)
qed

lemma digits_no_dot: "list_all is_digit s \<Longrightarrow> CHR ''.'' \<notin> set s"
  by (auto simp: list_all_iff is_digit_def)

lemma find_skip: "\<forall>c \<in> set s. \<not> P c \<Longrightarrow> P d \<Longrightarrow> find P (s @ d # t) = Some d"
  by (induction s) auto

lemma parse_dotted:
  assumes "length ip = 4"
  shows "To4 (ParseIP (dotted ip)) = Some ip"
proof -
  obtain a b c d where ip: "ip = [a, b, c, d]"
    using assms by (auto simp: length_Suc_conv numeral_eq_Suc)
  let ?n = "\<lambda>b. show_nat (of_char b)"
  have "dotted ip = ?n a @ CHR ''.'' # ?n b @ CHR ''.'' # ?n c @ CHR ''.'' # ?n d"
    by (simp add: dotted_def ip)
  moreover have nd: "CHR ''.'' \<notin> set (?n x)" for x by (simp add: digits_no_dot)
  ultimately have fs: "Split (dotted ip) (CHR ''.'') = [?n a, ?n b, ?n c, ?n d]"
    by (simp add: Split_append_sep Split_no_sep)
  then have v4: "parseIPv4 (dotted ip) = Some ip"
    using octet_show_nat [OF nat_of_char_less_256] by (simp add: parseIPv4_def ip)
  have "find (\<lambda>c. c \<in> set ''.:%'') (dotted ip) = Some (CHR ''.'')"
  proof -
    have "\<forall>c \<in> set (?n a). c \<notin> set ''.:%''"
      using show_nat_digits [of "of_char a"] by (auto simp: list_all_iff is_digit_def)
    then have "find (\<lambda>c. c \<in> set ''.:%'') (?n a @ CHR ''.'' # t) = Some (CHR ''.'')" for t
      by (rule find_skip) simp
    then show ?thesis by (simp add: dotted_def ip)
  qed
  with v4 show ?thesis by (simp add: ParseIP_def To4_mapped assms)
qed

end
