(* ===== verification/Netd.thy ===== *)
theory Netd
  imports GoNet GoPath
begin

text \<open>
  \<open>internal/netd/netd.go\<close>: the interface of the guest is brought up, addressed and routed with
  netlink messages, and the name servers are written.

  The constants and structures of \<open>golang.org/x/sys/unix\<close> are not part of the repository: the
  constants are the parameter \<open>k\<close>, of which the theorems assume what the kernel interface fixes
  (\<open>nl_abi\<close>: the sizes of the structures); the structures are records with the fields the source
  sets, written in the order of the kernel interface, little-endian. What the kernel does is the
  environment: the interface table, the datagrams that reach the socket before the read deadline,
  and the answers of the calls. \<open>syscall.ParseNetlinkMessage\<close> is Go's.
\<close>

unbundle bit_operations_syntax

record NetworkConfig =
  nc_InterfaceName :: string
  nc_IPAddress :: string
  nc_NetmaskCIDR :: int
  nc_GatewayIP :: string
  nc_DNSServers :: "string list"

definition netd_DefaultConfig :: "string \<Rightarrow> NetworkConfig" where
  "netd_DefaultConfig ifaceName =
     \<lparr>nc_InterfaceName = (if ifaceName = [] then ''eth0'' else ifaceName), nc_IPAddress = ''10.0.2.15'',
      nc_NetmaskCIDR = 24, nc_GatewayIP = ''10.0.2.2'', nc_DNSServers = [''10.0.2.3'', ''1.1.1.1'']\<rparr>"

subsection \<open>Messages\<close>

record nl_consts =
  RTM_NEWLINK :: u16
  RTM_NEWADDR :: u16
  RTM_NEWROUTE :: u16
  NLM_F_REQUEST :: u16
  NLM_F_ACK :: u16
  NLM_F_CREATE :: u16
  NLM_F_REPLACE :: u16
  NLMSG_ERROR :: u16
  AF_UNSPEC :: u8
  AF_INET :: u8
  IFF_UP :: u32
  IFA_LOCAL :: u16
  IFA_ADDRESS :: u16
  RTA_GATEWAY :: u16
  RTA_OIF :: u16
  RT_SCOPE_UNIVERSE :: u8
  RT_TABLE_MAIN :: u8
  RTPROT_BOOT :: u8
  RTN_UNICAST :: u8
  SizeofNlMsghdr :: nat
  SizeofIfInfomsg :: nat
  SizeofIfAddrmsg :: nat
  SizeofRtMsg :: nat
  SizeofRtAttr :: nat

definition nl_abi :: "nl_consts \<Rightarrow> bool" where
  "nl_abi k \<longleftrightarrow> SizeofNlMsghdr k = 16 \<and> SizeofIfInfomsg k = 16 \<and> SizeofIfAddrmsg k = 8 \<and> SizeofRtMsg k = 12 \<and> SizeofRtAttr k = 4"

record NlMsghdr =
  nh_Len :: u32
  nh_Type :: u16
  nh_Flags :: u16
  nh_Seq :: u32
  nh_Pid :: u32

definition put_u8 :: "u8 \<Rightarrow> bytes" where
  "put_u8 v = [char_of (unat v)]"

definition get_u8 :: "bytes \<Rightarrow> u8" where
  "get_u8 b = word_of_nat (of_char (hd b))"

lemma u8_bound: "unat (v :: u8) < 256"
  using unsigned_less [of v, where ?'a = nat] by simp

interpretation u8: fixed_codec put_u8 get_u8 1
  by unfold_locales (simp_all add: put_u8_def get_u8_def mod_less [OF u8_bound])

definition put_NlMsghdr :: "NlMsghdr \<Rightarrow> bytes" where
  "put_NlMsghdr h =
     put_u32_le (nh_Len h) @ put_u16_le (nh_Type h) @ put_u16_le (nh_Flags h) @ put_u32_le (nh_Seq h) @ put_u32_le (nh_Pid h)"

definition get_NlMsghdr :: "bytes \<Rightarrow> NlMsghdr" where
  "get_NlMsghdr b =
     \<lparr>nh_Len = get_u32_le b, nh_Type = get_u16_le (drop 4 b), nh_Flags = get_u16_le (drop 6 b),
      nh_Seq = get_u32_le (drop 8 b), nh_Pid = get_u32_le (drop 12 b)\<rparr>"

text \<open>\<open>(attrLen + 3) &^ 3\<close>; the buffer is zeroed, the length and type stand first, and \<open>copy\<close> stops at its end.\<close>

definition align4 :: "nat \<Rightarrow> nat" where
  "align4 n = (n + 3) div 4 * 4"

definition encodeRtAttr :: "nl_consts \<Rightarrow> u16 \<Rightarrow> bytes \<Rightarrow> bytes" where
  "encodeRtAttr k attrType data =
     (let attrLen = SizeofRtAttr k + length data; alignedLen = align4 attrLen
      in take alignedLen
           (put_u16_le (word_of_nat attrLen) @ put_u16_le attrType @ data @ replicate alignedLen (CHR 0x00)))"

definition ifinfomsg :: "nl_consts \<Rightarrow> int \<Rightarrow> bytes" where
  "ifinfomsg k index =
     put_u8 (AF_UNSPEC k) @ put_u8 0 @ put_u16_le 0 @ put_u32_le (word_of_int index) @ put_u32_le (IFF_UP k) @ put_u32_le (IFF_UP k)"

definition link_request :: "nl_consts \<Rightarrow> int \<Rightarrow> bytes" where
  "link_request k index =
     put_NlMsghdr \<lparr>nh_Len = word_of_nat (SizeofNlMsghdr k + SizeofIfInfomsg k), nh_Type = RTM_NEWLINK k,
       nh_Flags = NLM_F_REQUEST k OR NLM_F_ACK k, nh_Seq = 1, nh_Pid = 0\<rparr> @
     ifinfomsg k index"

definition ifaddrmsg :: "nl_consts \<Rightarrow> int \<Rightarrow> int \<Rightarrow> bytes" where
  "ifaddrmsg k cidr index =
     put_u8 (AF_INET k) @ put_u8 (word_of_int cidr) @ put_u8 0 @ put_u8 (RT_SCOPE_UNIVERSE k) @ put_u32_le (word_of_int index)"

definition addr_request :: "nl_consts \<Rightarrow> int \<Rightarrow> bytes \<Rightarrow> int \<Rightarrow> bytes" where
  "addr_request k index ip cidr =
     (let attrLocal = encodeRtAttr k (IFA_LOCAL k) ip;
          attrAddress = encodeRtAttr k (IFA_ADDRESS k) ip;
          payloadLen = SizeofIfAddrmsg k + length attrLocal + length attrAddress
      in put_NlMsghdr \<lparr>nh_Len = word_of_nat (SizeofNlMsghdr k + payloadLen), nh_Type = RTM_NEWADDR k,
           nh_Flags = NLM_F_REQUEST k OR NLM_F_ACK k OR NLM_F_CREATE k OR NLM_F_REPLACE k, nh_Seq = 2, nh_Pid = 0\<rparr> @
         ifaddrmsg k cidr index @ attrLocal @ attrAddress)"

definition rtmsg :: "nl_consts \<Rightarrow> bytes" where
  "rtmsg k =
     put_u8 (AF_INET k) @ put_u8 0 @ put_u8 0 @ put_u8 0 @
     put_u8 (RT_TABLE_MAIN k) @ put_u8 (RTPROT_BOOT k) @ put_u8 (RT_SCOPE_UNIVERSE k) @ put_u8 (RTN_UNICAST k) @ put_u32_le 0"

definition route_request :: "nl_consts \<Rightarrow> int \<Rightarrow> bytes \<Rightarrow> bytes" where
  "route_request k index gw =
     (let attrGw = encodeRtAttr k (RTA_GATEWAY k) gw;
          attrOif = encodeRtAttr k (RTA_OIF k) (put_u32_le (word_of_int index));
          payloadLen = SizeofRtMsg k + length attrGw + length attrOif
      in put_NlMsghdr \<lparr>nh_Len = word_of_nat (SizeofNlMsghdr k + payloadLen), nh_Type = RTM_NEWROUTE k,
           nh_Flags = NLM_F_REQUEST k OR NLM_F_ACK k OR NLM_F_CREATE k OR NLM_F_REPLACE k, nh_Seq = 3, nh_Pid = 0\<rparr> @
         rtmsg k @ attrGw @ attrOif)"

subsection \<open>Acknowledgements\<close>

text \<open>\<open>syscall.ParseNetlinkMessage\<close>: \<open>None\<close> is EINVAL.\<close>

function ParseNetlinkMessage :: "bytes \<Rightarrow> (NlMsghdr \<times> bytes) list option" where
  "ParseNetlinkMessage b =
     (if length b < 16 then Some []
      else
        let h = get_NlMsghdr b; n = unat (nh_Len h)
        in if n < 16 \<or> length b < align4 n then None
           else map_option (Cons (h, take (n - 16) (drop 16 b))) (ParseNetlinkMessage (drop (align4 n) b)))"
  by pat_completeness auto
termination
  by (relation "measure length") (auto simp: align4_def)

declare ParseNetlinkMessage.simps [simp del]

text \<open>Everything \<open>netd.go\<close> asks of the system.\<close>

datatype nd_call =
    NdSocket
  | NdBind
  | NdNewFile
  | NdCloseFd
  | NdClose
  | NdSendto bytes
  | NdReadDeadline nat
  | NdSyscallConn
  | NdRecv
  | NdMkdirAll string nat
  | NdWriteFile string string nat

datatype nd_error =
    IfaceNotFound string string
  | InvalidIPv4 string
  | InvalidGateway string
  | SocketFailed string
  | BindFailed string
  | WrapFailed
  | SendFailed string
  | DeadlineFailed string
  | SyscallConnFailed string
  | AckTimeout string
  | RecvfromFailed string
  | AckUnparsable
  | NetlinkErrno int
  | OperstateDown string string
  | ResolvDir string
  | ResolvWrite string
  | LinkUpFailed nd_error
  | SetIPFailed nd_error

text \<open>How reading from the socket ends: the poller reports the deadline or a failure, or \<open>recvfrom\<close> an error other than EAGAIN.\<close>

datatype recv_end = PollError string | RecvError string

record netd_env =
  ne_iface :: "nd_call list \<Rightarrow> string \<Rightarrow> (string, int) result"
  ne_arrivals :: "nd_call list \<Rightarrow> bytes list \<times> recv_end"
  ne_readfile :: "nd_call list \<Rightarrow> string \<Rightarrow> (string, string) result"

text \<open>The loop over the messages of one datagram: \<open>None\<close> if the function reads on.\<close>

fun ack_in :: "nl_consts \<Rightarrow> u32 \<Rightarrow> (NlMsghdr \<times> bytes) list \<Rightarrow> nd_error option option" where
  "ack_in k expectedSeq [] = None"
| "ack_in k expectedSeq ((h, data) # msgs) =
     (if nh_Seq h \<noteq> expectedSeq then ack_in k expectedSeq msgs
      else if nh_Type h = NLMSG_ERROR k then
        Some (if 4 \<le> length data \<and> get_u32_le data \<noteq> 0 then Some (NetlinkErrno (sint (- get_u32_le data))) else None)
      else ack_in k expectedSeq msgs)"

fun read_acks :: "nl_consts \<Rightarrow> u32 \<Rightarrow> bytes list \<Rightarrow> recv_end \<Rightarrow> (nd_call, nd_error) action" where
  "read_acks k expectedSeq [] (PollError e) tr = (Some (AckTimeout e), tr @ [NdRecv])"
| "read_acks k expectedSeq [] (RecvError e) tr = (Some (RecvfromFailed e), tr @ [NdRecv])"
| "read_acks k expectedSeq (d # ds) end tr =
     (case ParseNetlinkMessage (take 8192 d) of
        None \<Rightarrow> (Some AckUnparsable, tr @ [NdRecv])
      | Some msgs \<Rightarrow>
          (case ack_in k expectedSeq msgs of
             Some r \<Rightarrow> (r, tr @ [NdRecv])
           | None \<Rightarrow> read_acks k expectedSeq ds end (tr @ [NdRecv])))"

definition readNetlinkAckPersistent ::
  "nl_consts \<Rightarrow> netd_env \<Rightarrow> nd_call world \<Rightarrow> u32 \<Rightarrow> nat \<Rightarrow> (nd_call, nd_error) action"
where
  "readNetlinkAckPersistent k env w expectedSeq timeout =
     steps [must w (NdReadDeadline timeout) DeadlineFailed,
            must w NdSyscallConn SyscallConnFailed,
            looking (\<lambda>tr. case ne_arrivals env tr of (ds, end) \<Rightarrow> read_acks k expectedSeq ds end)]"

subsection \<open>Operations\<close>

definition must_or_close_fd :: "nd_call world \<Rightarrow> nd_call \<Rightarrow> (string \<Rightarrow> nd_error) \<Rightarrow> (nd_call, nd_error) action" where
  "must_or_close_fd w c mk tr =
     (case w tr c of None \<Rightarrow> (None, tr @ [c]) | Some e \<Rightarrow> (Some (mk e), tr @ [c, NdCloseFd]))"

definition openNetlinkSocketNonBlock :: "nd_call world \<Rightarrow> (nd_call, nd_error) action" where
  "openNetlinkSocketNonBlock w =
     steps [must w NdSocket SocketFailed, must_or_close_fd w NdBind BindFailed, must_or_close_fd w NdNewFile (\<lambda>_. WrapFailed)]"

definition VerifyInterfaceUp :: "netd_env \<Rightarrow> string \<Rightarrow> (nd_call, nd_error) action" where
  "VerifyInterfaceUp env ifaceName =
     looking (\<lambda>tr. case ne_readfile env tr (''/sys/class/net/'' @ ifaceName @ ''/operstate'') of
         Inl _ \<Rightarrow> ok
       | Inr data \<Rightarrow>
           (let state = TrimSpace data
            in if state \<noteq> ''up'' \<and> state \<noteq> ''unknown'' \<and> state \<noteq> ''lowerup'' then fail (OperstateDown ifaceName state) else ok))"

text \<open>The exchange of one request: open, send, wait for the acknowledgement, close.\<close>

definition exchange ::
  "nl_consts \<Rightarrow> netd_env \<Rightarrow> nd_call world \<Rightarrow> bytes \<Rightarrow> u32 \<Rightarrow> (nd_call, nd_error) action \<Rightarrow> (nd_call, nd_error) action"
where
  "exchange k env w req seqno after =
     and_then (openNetlinkSocketNonBlock w)
       (with_deferred NdClose
          (steps [must w (NdSendto req) SendFailed, readNetlinkAckPersistent k env w seqno 2, after]))"

definition SetLinkUp :: "nl_consts \<Rightarrow> netd_env \<Rightarrow> nd_call world \<Rightarrow> string \<Rightarrow> (nd_call, nd_error) action" where
  "SetLinkUp k env w ifaceName =
     looking (\<lambda>tr. case ne_iface env tr ifaceName of
         Inl e \<Rightarrow> fail (IfaceNotFound ifaceName e)
       | Inr index \<Rightarrow> exchange k env w (link_request k index) 1 (VerifyInterfaceUp env ifaceName))"

definition SetInterfaceIP ::
  "nl_consts \<Rightarrow> netd_env \<Rightarrow> nd_call world \<Rightarrow> string \<Rightarrow> string \<Rightarrow> int \<Rightarrow> (nd_call, nd_error) action"
where
  "SetInterfaceIP k env w ifaceName ipStr cidr =
     looking (\<lambda>tr. case ne_iface env tr ifaceName of
         Inl e \<Rightarrow> fail (IfaceNotFound ifaceName e)
       | Inr index \<Rightarrow>
           (case To4 (ParseIP ipStr) of
              None \<Rightarrow> fail (InvalidIPv4 ipStr)
            | Some ip \<Rightarrow> exchange k env w (addr_request k index ip cidr) 2 ok))"

definition SetDefaultGateway ::
  "nl_consts \<Rightarrow> netd_env \<Rightarrow> nd_call world \<Rightarrow> string \<Rightarrow> string \<Rightarrow> (nd_call, nd_error) action"
where
  "SetDefaultGateway k env w gatewayIP ifaceName =
     looking (\<lambda>tr. case ne_iface env tr ifaceName of
         Inl e \<Rightarrow> fail (IfaceNotFound ifaceName e)
       | Inr index \<Rightarrow>
           (case To4 (ParseIP gatewayIP) of
              None \<Rightarrow> fail (InvalidGateway gatewayIP)
            | Some gw \<Rightarrow> exchange k env w (route_request k index gw) 3 ok))"

definition resolv_content :: "string list \<Rightarrow> string" where
  "resolv_content dnsServers =
     ''# Generated by karim-netd'' @ [CHR 0x0A] @
     concat (map (\<lambda>dns. let d = TrimSpace dns in if d \<noteq> [] then ''nameserver '' @ d @ [CHR 0x0A] else []) dnsServers)"

definition WriteResolvConf :: "nd_call world \<Rightarrow> string list \<Rightarrow> string \<Rightarrow> (nd_call, nd_error) action" where
  "WriteResolvConf w dnsServers path =
     (let path = (if path = [] then ''/etc/resolv.conf'' else path)
      in steps [must w (NdMkdirAll (Dir path) 493) ResolvDir,
                must w (NdWriteFile path (resolv_content dnsServers) 420) ResolvWrite])"

definition AutoConfigure :: "nl_consts \<Rightarrow> netd_env \<Rightarrow> nd_call world \<Rightarrow> NetworkConfig \<Rightarrow> (nd_call, nd_error) action" where
  "AutoConfigure k env w cfg =
     (let name = (if nc_InterfaceName cfg = [] then ''eth0'' else nc_InterfaceName cfg);
          cidr = (if nc_NetmaskCIDR cfg \<le> 0 \<or> 32 < nc_NetmaskCIDR cfg then 24 else nc_NetmaskCIDR cfg)
      in steps
           [map_err LinkUpFailed (SetLinkUp k env w name),
            when_act (nc_IPAddress cfg \<noteq> []) (map_err SetIPFailed (SetInterfaceIP k env w name (nc_IPAddress cfg) cidr)),
            when_act (nc_GatewayIP cfg \<noteq> []) (ignore_err (SetDefaultGateway k env w (nc_GatewayIP cfg) name)),
            when_act (nc_DNSServers cfg \<noteq> []) (ignore_err (WriteResolvConf w (nc_DNSServers cfg) ''/etc/resolv.conf''))])"

subsection \<open>Reading the requests back\<close>

text \<open>The attributes of a message body as the kernel reads them: aligned, each with its length and type.\<close>

function read_attrs :: "bytes \<Rightarrow> (u16 \<times> bytes) list" where
  "read_attrs b =
     (let n = unat (get_u16_le b)
      in if length b < 4 \<or> n < 4 \<or> length b < n then []
         else (get_u16_le (drop 2 b), take (n - 4) (drop 4 b)) # read_attrs (drop (align4 n) b))"
  by pat_completeness auto
termination
  by (relation "measure length") (auto simp: align4_def)

declare read_attrs.simps [simp del]

lemma get_u32_le_prefix [simp]: "get_u32_le (put_u32_le v @ r) = v"
  using u32_le.dec_enc [of v] by (simp add: get_u32_le_def put_u32_le_def)

lemma get_u16_le_prefix [simp]: "get_u16_le (put_u16_le v @ r) = v"
  using u16_le.dec_enc [of v] by (simp add: get_u16_le_def put_u16_le_def)

lemma get_u8_prefix [simp]: "get_u8 (put_u8 v @ r) = v"
  using u8.dec_enc [of v] by (simp add: get_u8_def put_u8_def)

lemma drop_codec: "length a = n \<Longrightarrow> m = n + j \<Longrightarrow> drop m (a @ r) = drop j r"
  by simp

lemma put_NlMsghdr_length [simp]: "length (put_NlMsghdr h) = 16"
  by (simp add: put_NlMsghdr_def)

lemma get_put_NlMsghdr [simp]: "get_NlMsghdr (put_NlMsghdr h @ r) = h"
  by (simp add: get_NlMsghdr_def put_NlMsghdr_def)

lemma align4_id: "n mod 4 = 0 \<Longrightarrow> align4 n = n"
  by (auto simp: align4_def)

lemma parse_single:
  assumes "unat (nh_Len h) = 16 + length body" and "length body mod 4 = 0"
  shows "ParseNetlinkMessage (put_NlMsghdr h @ body) = Some [(h, body)]"
proof -
  have "align4 (16 + length body) = 16 + length body"
    using assms(2) by (intro align4_id) presburger
  with assms(1) show ?thesis
    by (simp add: ParseNetlinkMessage.simps [of "put_NlMsghdr h @ body"] ParseNetlinkMessage.simps [of "[]"])
qed

lemma encodeRtAttr_4:
  assumes "SizeofRtAttr k = 4" and "length data = 4"
  shows "encodeRtAttr k t data = put_u16_le 8 @ put_u16_le t @ data"
  using assms by (simp add: encodeRtAttr_def align4_def)

lemma read_attrs_4:
  assumes "length data = 4"
  shows "read_attrs (put_u16_le 8 @ put_u16_le t @ data @ rest) = (t, data) # read_attrs rest"
  using assms by (subst read_attrs.simps) (simp add: align4_def)

lemma read_attrs_Nil [simp]: "read_attrs [] = []"
  by (simp add: read_attrs.simps)

text \<open>
  C13: the kernel reads in the requests what was asked for. Each of the three requests is one netlink
  message with its type and sequence number; the address request carries the prefix length, the
  interface index and the address as local and interface address, the route request the gateway
  and the outgoing interface.
\<close>

theorem requests_read_back:
  assumes "nl_abi k" and "length ip = 4" and "0 \<le> index" and "index < 2 ^ 31" and "0 \<le> cidr" and "cidr < 256"
  shows "(\<exists>h d. ParseNetlinkMessage (link_request k index) = Some [(h, d)] \<and> nh_Type h = RTM_NEWLINK k \<and> nh_Seq h = 1 \<and>
      sint (get_u32_le (drop 4 d)) = index \<and> get_u32_le (drop 8 d) = IFF_UP k \<and> get_u32_le (drop 12 d) = IFF_UP k) \<and>
    (\<exists>h d. ParseNetlinkMessage (addr_request k index ip cidr) = Some [(h, d)] \<and> nh_Type h = RTM_NEWADDR k \<and> nh_Seq h = 2 \<and>
      uint (get_u8 (drop 1 d)) = cidr \<and> uint (get_u32_le (drop 4 d)) = index \<and>
      read_attrs (drop 8 d) = [(IFA_LOCAL k, ip), (IFA_ADDRESS k, ip)]) \<and>
    (\<exists>h d. ParseNetlinkMessage (route_request k index ip) = Some [(h, d)] \<and> nh_Type h = RTM_NEWROUTE k \<and> nh_Seq h = 3 \<and>
      get_u8 (drop 1 d) = 0 \<and> read_attrs (drop 12 d) = [(RTA_GATEWAY k, ip), (RTA_OIF k, put_u32_le (word_of_int index))])"
proof (intro conjI)
  have abi: "SizeofNlMsghdr k = 16" "SizeofIfInfomsg k = 16" "SizeofIfAddrmsg k = 8" "SizeofRtMsg k = 12" "SizeofRtAttr k = 4"
    using assms(1) by (simp_all add: nl_abi_def)
  have idx: "uint (word_of_int index :: u32) = index" "sint (word_of_int index :: u32) = index"
    using assms(3,4) by (simp_all add: unsigned_of_int signed_of_int take_bit_int_eq_self signed_take_bit_int_eq_self)
  have len: "uint (word_of_int cidr :: u8) = cidr"
    using assms(5,6) by (simp add: unsigned_of_int take_bit_int_eq_self)
  show "\<exists>h d. ParseNetlinkMessage (link_request k index) = Some [(h, d)] \<and> nh_Type h = RTM_NEWLINK k \<and> nh_Seq h = 1 \<and>
      sint (get_u32_le (drop 4 d)) = index \<and> get_u32_le (drop 8 d) = IFF_UP k \<and> get_u32_le (drop 12 d) = IFF_UP k"
    unfolding link_request_def
    by (subst parse_single) (simp_all add: abi ifinfomsg_def idx unat_u32)
  show "\<exists>h d. ParseNetlinkMessage (addr_request k index ip cidr) = Some [(h, d)] \<and> nh_Type h = RTM_NEWADDR k \<and> nh_Seq h = 2 \<and>
      uint (get_u8 (drop 1 d)) = cidr \<and> uint (get_u32_le (drop 4 d)) = index \<and>
      read_attrs (drop 8 d) = [(IFA_LOCAL k, ip), (IFA_ADDRESS k, ip)]"
    unfolding addr_request_def Let_def
    using read_attrs_4 [OF assms(2), of _ "[]"]
    by (subst parse_single) (simp_all add: abi encodeRtAttr_4 assms(2) ifaddrmsg_def idx len unat_u32 read_attrs_4)
  show "\<exists>h d. ParseNetlinkMessage (route_request k index ip) = Some [(h, d)] \<and> nh_Type h = RTM_NEWROUTE k \<and> nh_Seq h = 3 \<and>
      get_u8 (drop 1 d) = 0 \<and> read_attrs (drop 12 d) = [(RTA_GATEWAY k, ip), (RTA_OIF k, put_u32_le (word_of_int index))]"
    unfolding route_request_def Let_def
    using read_attrs_4 [of "put_u32_le (word_of_int index)" _ "[]"]
    by (subst parse_single) (simp_all add: abi encodeRtAttr_4 assms(2) rtmsg_def unat_u32 read_attrs_4)
qed

text \<open>The kernel's numbering, as far as the witnesses need one.\<close>

definition linux_consts :: nl_consts where
  "linux_consts =
     \<lparr>RTM_NEWLINK = 16, RTM_NEWADDR = 20, RTM_NEWROUTE = 24, NLM_F_REQUEST = 1, NLM_F_ACK = 4, NLM_F_CREATE = 0x400,
      NLM_F_REPLACE = 0x100, NLMSG_ERROR = 2, AF_UNSPEC = 0, AF_INET = 2, IFF_UP = 1, IFA_LOCAL = 2, IFA_ADDRESS = 1,
      RTA_GATEWAY = 5, RTA_OIF = 4, RT_SCOPE_UNIVERSE = 0, RT_TABLE_MAIN = 254, RTPROT_BOOT = 3, RTN_UNICAST = 1,
      SizeofNlMsghdr = 16, SizeofIfInfomsg = 16, SizeofIfAddrmsg = 8, SizeofRtMsg = 12, SizeofRtAttr = 4\<rparr>"

definition guest_ip :: bytes where
  "guest_ip = map char_of [10, 0, 2, 15 :: nat]"

lemma guest_ip_parsed: "To4 (ParseIP ''10.0.2.15'') = Some guest_ip"
proof -
  have "''10.0.2.15'' = dotted guest_ip" by (simp add: dotted_def guest_ip_def show_nat.simps digit_char_def)
  then show ?thesis using parse_dotted [of guest_ip] by (simp add: guest_ip_def)
qed

theorem requests_read_back_witness:
  "\<exists>h d. ParseNetlinkMessage (addr_request linux_consts 2 guest_ip 24) = Some [(h, d)] \<and> nh_Type h = 20 \<and> nh_Seq h = 2 \<and>
     uint (get_u8 (drop 1 d)) = 24 \<and> uint (get_u32_le (drop 4 d)) = 2 \<and> read_attrs (drop 8 d) = [(2, guest_ip), (1, guest_ip)]"
proof -
  have "nl_abi linux_consts" "length guest_ip = 4" by (simp_all add: nl_abi_def linux_consts_def guest_ip_def)
  moreover have "RTM_NEWADDR linux_consts = 20" "IFA_LOCAL linux_consts = 2" "IFA_ADDRESS linux_consts = 1"
    by (simp_all add: linux_consts_def)
  ultimately show ?thesis using requests_read_back [of linux_consts guest_ip 2 24] by simp
qed

subsection \<open>Waiting for the acknowledgement\<close>

text \<open>A message that is not an answer to the request.\<close>

definition unrelated :: "nl_consts \<Rightarrow> u32 \<Rightarrow> NlMsghdr \<times> bytes \<Rightarrow> bool" where
  "unrelated k expectedSeq m \<longleftrightarrow> nh_Seq (fst m) \<noteq> expectedSeq \<or> nh_Type (fst m) \<noteq> NLMSG_ERROR k"

lemma ack_in_unrelated: "list_all (unrelated k n) ms \<Longrightarrow> ack_in k n (ms @ rest) = ack_in k n rest"
  by (induction ms) (auto simp: unrelated_def)

lemma ack_in_only_unrelated: "list_all (unrelated k n) ms \<Longrightarrow> ack_in k n ms = None"
  using ack_in_unrelated [of k n ms "[]"] by simp

lemma read_acks_unrelated:
  assumes "list_all (\<lambda>d. \<exists>ms. ParseNetlinkMessage (take 8192 d) = Some ms \<and> list_all (unrelated k n) ms) ds"
  shows "read_acks k n (ds @ rest) end tr = read_acks k n rest end (tr @ replicate (length ds) NdRecv)"
  using assms
proof (induction ds arbitrary: tr)
  case (Cons d ds)
  then obtain ms where "ParseNetlinkMessage (take 8192 d) = Some ms" "list_all (unrelated k n) ms" by auto
  with Cons show ?case by (simp add: ack_in_only_unrelated)
qed simp

text \<open>
  C27: the answer is found. Whatever other messages arrive before it, in the same datagram or in
  earlier ones, the wait ends with the first error message for the request's sequence number: with
  success if its code is zero and with that error otherwise, and nothing more is read. If none
  arrives, the wait ends with the error of the read.
\<close>

theorem acknowledgement_found:
  assumes "list_all (\<lambda>d. \<exists>ms. ParseNetlinkMessage (take 8192 d) = Some ms \<and> list_all (unrelated k n) ms) ds"
  shows "(ParseNetlinkMessage (take 8192 d) = Some (ms @ (h, put_u32_le e @ x) # rest) \<longrightarrow> list_all (unrelated k n) ms \<longrightarrow>
      nh_Seq h = n \<longrightarrow> nh_Type h = NLMSG_ERROR k \<longrightarrow>
      read_acks k n (ds @ d # later) end tr =
        (if e = 0 then None else Some (NetlinkErrno (sint (- e))), tr @ replicate (Suc (length ds)) NdRecv)) \<and>
    fst (read_acks k n ds end tr) = Some (case end of PollError e \<Rightarrow> AckTimeout e | RecvError e \<Rightarrow> RecvfromFailed e)"
proof (intro conjI impI)
  assume "ParseNetlinkMessage (take 8192 d) = Some (ms @ (h, put_u32_le e @ x) # rest)" "list_all (unrelated k n) ms"
    "nh_Seq h = n" "nh_Type h = NLMSG_ERROR k"
  then show "read_acks k n (ds @ d # later) end tr =
      (if e = 0 then None else Some (NetlinkErrno (sint (- e))), tr @ replicate (Suc (length ds)) NdRecv)"
    by (simp add: read_acks_unrelated [OF assms] ack_in_unrelated replicate_append_same)
next
  show "fst (read_acks k n ds end tr) = Some (case end of PollError e \<Rightarrow> AckTimeout e | RecvError e \<Rightarrow> RecvfromFailed e)"
    using read_acks_unrelated [OF assms, of "[]" "end" tr] by (cases "end") simp_all
qed

definition nl_reply :: "u16 \<Rightarrow> u32 \<Rightarrow> bytes \<Rightarrow> bytes" where
  "nl_reply ty n body = put_NlMsghdr \<lparr>nh_Len = word_of_nat (16 + length body), nh_Type = ty, nh_Flags = 0, nh_Seq = n, nh_Pid = 0\<rparr> @ body"

lemma parse_nl_reply:
  assumes "length body mod 4 = 0" and "length body < 8000"
  shows "ParseNetlinkMessage (take 8192 (nl_reply ty n body)) =
    Some [(\<lparr>nh_Len = word_of_nat (16 + length body), nh_Type = ty, nh_Flags = 0, nh_Seq = n, nh_Pid = 0\<rparr>, body)]"
  unfolding nl_reply_def using assms by (subst take_all) (simp_all add: parse_single unat_u32 del: of_nat_add)

theorem acknowledgement_found_witness:
  "read_acks linux_consts 2 [nl_reply 3 1 [], nl_reply 2 2 (put_u32_le (- 13))] (PollError ''deadline'') [] =
     (Some (NetlinkErrno 13), [NdRecv, NdRecv])"
proof -
  let ?h = "\<lparr>nh_Len = 20, nh_Type = 2, nh_Flags = 0, nh_Seq = 2, nh_Pid = 0\<rparr>"
  have "list_all (\<lambda>d. \<exists>ms. ParseNetlinkMessage (take 8192 d) = Some ms \<and> list_all (unrelated linux_consts 2) ms) [nl_reply 3 1 []]"
    using parse_nl_reply [of "[]" 3 1] by (simp add: unrelated_def)
  moreover have "ParseNetlinkMessage (take 8192 (nl_reply 2 2 (put_u32_le (- 13)))) = Some ([] @ (?h, put_u32_le (- 13) @ []) # [])"
    using parse_nl_reply [of "put_u32_le (- 13)" 2 2] by simp
  moreover have "NLMSG_ERROR linux_consts = 2" by (simp add: linux_consts_def)
  ultimately show ?thesis
    using acknowledgement_found [of linux_consts 2 "[nl_reply 3 1 []]" "nl_reply 2 2 (put_u32_le (- 13))" "[]" ?h "- 13" "[]" "[]"
        "[]" "PollError ''deadline''" "[]"]
    by simp
qed

subsection \<open>What is configured, and in which order\<close>

fun sent :: "nd_call list \<Rightarrow> bytes list" where
  "sent [] = []"
| "sent (NdSendto req # cs) = req # sent cs"
| "sent (_ # cs) = sent cs"

lemma sent_append [simp]: "sent (as @ bs) = sent as @ sent bs"
  by (induction as rule: sent.induct) auto

text \<open>The requests an action sends: these, in this order; a prefix of them if it fails.\<close>

definition requests :: "(nd_call, nd_error) action \<Rightarrow> bytes list \<Rightarrow> bool" where
  "requests m rs \<longleftrightarrow> (\<forall>tr. \<exists>ds. snd (m tr) = tr @ ds \<and> prefix (sent ds) rs \<and> (fst (m tr) = None \<longrightarrow> sent ds = rs))"

named_theorems requests_intro \<open>the requests of compound actions\<close>

lemma requestsD: "requests m rs \<Longrightarrow> m tr = (r, tr') \<Longrightarrow> \<exists>ds. tr' = tr @ ds \<and> prefix (sent ds) rs \<and> (r = None \<longrightarrow> sent ds = rs)"
  unfolding requests_def by (metis fst_conv snd_conv)

lemma requests_basic [requests_intro]: "requests ok []" "requests (fail e) rs" "requests (must w (NdSendto req) mk) [req]"
  by (simp_all add: requests_def action_defs)

lemma requests_silent [requests_intro]: "sent [c] = [] \<Longrightarrow> requests (must w c mk) []"
  by (simp add: requests_def must_def)

lemma requests_and_then:
  assumes "requests m rs" and "requests m' rs'"
  shows "requests (and_then m m') (rs @ rs')"
  unfolding requests_def
proof
  fix tr
  obtain r tr1 where m: "m tr = (r, tr1)" by force
  obtain ds where ds: "tr1 = tr @ ds" "prefix (sent ds) rs" "r = None \<longrightarrow> sent ds = rs"
    using requestsD [OF assms(1) m] by blast
  obtain r2 tr2 where m': "m' tr1 = (r2, tr2)" by force
  obtain es where "tr2 = tr1 @ es" "prefix (sent es) rs'" "r2 = None \<longrightarrow> sent es = rs'"
    using requestsD [OF assms(2) m'] by blast
  with m m' ds show "\<exists>ds. snd (and_then m m' tr) = tr @ ds \<and> prefix (sent ds) (rs @ rs') \<and>
      (fst (and_then m m' tr) = None \<longrightarrow> sent ds = rs @ rs')"
    by (cases r) (auto simp: and_then_def intro: prefix_prefix)
qed

lemma requests_steps [requests_intro]: "list_all2 requests ms rss \<Longrightarrow> requests (steps ms) (concat rss)"
proof (induction ms arbitrary: rss)
  case Nil
  then show ?case by (simp add: requests_basic)
next
  case (Cons m ms)
  then show ?case by (auto simp: list_all2_Cons1 requests_and_then)
qed

lemma requests_looking [requests_intro]: "(\<And>tr. requests (m tr) rs) \<Longrightarrow> requests (looking m) rs"
  by (simp add: requests_def looking_def)

lemma requests_map_err [requests_intro]: "requests m rs \<Longrightarrow> requests (map_err f m) rs"
  by (simp add: requests_def map_err_def)

lemma requests_with_deferred [requests_intro]: "sent [c] = [] \<Longrightarrow> requests m rs \<Longrightarrow> requests (with_deferred c m) rs"
  unfolding requests_def with_deferred_def by (metis append.assoc append_Nil2 fst_conv sent_append snd_conv)

lemma requests_read_acks: "requests (read_acks k n ds end) []"
  unfolding requests_def
proof
  fix tr
  show "\<exists>cs. snd (read_acks k n ds end tr) = tr @ cs \<and> prefix (sent cs) [] \<and> (fst (read_acks k n ds end tr) = None \<longrightarrow> sent cs = [])"
  proof (induction k n ds "end" tr rule: read_acks.induct)
    case (3 k n d ds e tr)
    then show ?case by (fastforce split: option.splits)
  qed simp_all
qed

lemma requests_ack: "requests (readNetlinkAckPersistent k env w n t) []"
proof -
  have "requests (looking (\<lambda>tr. case ne_arrivals env tr of (ds, end) \<Rightarrow> read_acks k n ds end)) []"
    by (auto intro!: requests_intro requests_read_acks split: prod.splits)
  then show ?thesis
    unfolding readNetlinkAckPersistent_def
    using requests_steps [of "[_, _, _]" "[[], [], []]"] by (simp add: requests_silent)
qed

lemma requests_open: "requests (openNetlinkSocketNonBlock w) []"
proof -
  have "requests (must_or_close_fd w c mk) []" if "sent [c] = []" for c mk
    using that sent_append [of "[c]" "[NdCloseFd]"] by (auto simp: requests_def must_or_close_fd_def split: option.splits)
  then show ?thesis
    unfolding openNetlinkSocketNonBlock_def
    using requests_steps [of "[_, _, _]" "[[], [], []]"] by (simp add: requests_silent)
qed

lemma requests_exchange:
  assumes "requests after []"
  shows "requests (exchange k env w req n after) [req]"
proof -
  have "requests (steps [must w (NdSendto req) SendFailed, readNetlinkAckPersistent k env w n 2, after]) [req]"
    using requests_steps [of "[_, _, _]" "[[req], [], []]"] assms by (simp add: requests_basic requests_ack)
  then show ?thesis
    unfolding exchange_def
    using requests_and_then [OF requests_open requests_with_deferred [of NdClose]] by simp
qed

lemma requests_verify: "requests (VerifyInterfaceUp env name) []"
  unfolding VerifyInterfaceUp_def by (auto intro!: requests_intro simp: Let_def split: sum.splits)

lemma requests_resolv: "requests (WriteResolvConf w dns path) []"
  unfolding WriteResolvConf_def Let_def
  using requests_steps [of "[_, _]" "[[], []]"] by (simp add: requests_silent)

text \<open>What a configuration asks for: the link, then the address, then the route.\<close>

definition addr_part :: "nl_consts \<Rightarrow> int \<Rightarrow> NetworkConfig \<Rightarrow> bytes list" where
  "addr_part k index cfg =
     (case To4 (ParseIP (nc_IPAddress cfg)) of
        None \<Rightarrow> []
      | Some ip \<Rightarrow> [addr_request k index ip (if nc_NetmaskCIDR cfg \<in> {1..32} then nc_NetmaskCIDR cfg else 24)])"

definition route_part :: "nl_consts \<Rightarrow> int \<Rightarrow> NetworkConfig \<Rightarrow> bytes list" where
  "route_part k index cfg = (case To4 (ParseIP (nc_GatewayIP cfg)) of None \<Rightarrow> [] | Some gw \<Rightarrow> [route_request k index gw])"

lemma requests_SetLinkUp:
  "(\<And>tr. ne_iface env tr name = Inr index) \<Longrightarrow> requests (SetLinkUp k env w name) [link_request k index]"
  unfolding SetLinkUp_def by (auto intro!: requests_intro requests_exchange requests_verify)

lemma requests_SetInterfaceIP:
  assumes "\<And>tr. ne_iface env tr name = Inr index" and "nc_NetmaskCIDR cfg \<in> {1..32} \<Longrightarrow> cidr = nc_NetmaskCIDR cfg"
    and "nc_NetmaskCIDR cfg \<notin> {1..32} \<Longrightarrow> cidr = 24"
  shows "requests (SetInterfaceIP k env w name (nc_IPAddress cfg) cidr) (addr_part k index cfg)"
proof -
  have "cidr = (if nc_NetmaskCIDR cfg \<in> {1..32} then nc_NetmaskCIDR cfg else 24)" using assms(2,3) by auto
  then show ?thesis
    unfolding SetInterfaceIP_def addr_part_def
    by (auto intro!: requests_intro requests_exchange simp: assms(1) split: option.splits)
qed

lemma requests_SetDefaultGateway:
  "(\<And>tr. ne_iface env tr name = Inr index) \<Longrightarrow> requests (SetDefaultGateway k env w (nc_GatewayIP cfg) name) (route_part k index cfg)"
  unfolding SetDefaultGateway_def route_part_def
  by (auto intro!: requests_intro requests_exchange split: option.splits)

lemma ParseIP_Nil [simp]: "ParseIP [] = None"
  by (simp add: ParseIP_def)

lemma no_parts [simp]: "nc_IPAddress cfg = [] \<Longrightarrow> addr_part k index cfg = []" "nc_GatewayIP cfg = [] \<Longrightarrow> route_part k index cfg = []"
  by (simp_all add: addr_part_def route_part_def To4_def)

text \<open>The two halves: the steps that must succeed, and those that only warn.\<close>

definition required_steps ::
  "nl_consts \<Rightarrow> netd_env \<Rightarrow> nd_call world \<Rightarrow> string \<Rightarrow> int \<Rightarrow> NetworkConfig \<Rightarrow> (nd_call, nd_error) action"
where
  "required_steps k env w name cidr cfg =
     and_then (map_err LinkUpFailed (SetLinkUp k env w name))
       (when_act (nc_IPAddress cfg \<noteq> []) (map_err SetIPFailed (SetInterfaceIP k env w name (nc_IPAddress cfg) cidr)))"

definition warning_steps :: "nl_consts \<Rightarrow> netd_env \<Rightarrow> nd_call world \<Rightarrow> string \<Rightarrow> NetworkConfig \<Rightarrow> (nd_call, nd_error) action" where
  "warning_steps k env w name cfg =
     and_then (when_act (nc_GatewayIP cfg \<noteq> []) (ignore_err (SetDefaultGateway k env w (nc_GatewayIP cfg) name)))
       (when_act (nc_DNSServers cfg \<noteq> []) (ignore_err (WriteResolvConf w (nc_DNSServers cfg) ''/etc/resolv.conf'')))"

lemma and_then_assoc: "and_then (and_then m m') m'' = and_then m (and_then m' m'')"
  by (auto simp: and_then_def fun_eq_iff split: prod.splits option.splits)

lemma AutoConfigure_halves:
  "AutoConfigure k env w cfg =
     and_then
       (required_steps k env w (if nc_InterfaceName cfg = [] then ''eth0'' else nc_InterfaceName cfg)
          (if nc_NetmaskCIDR cfg \<le> 0 \<or> 32 < nc_NetmaskCIDR cfg then 24 else nc_NetmaskCIDR cfg) cfg)
       (warning_steps k env w (if nc_InterfaceName cfg = [] then ''eth0'' else nc_InterfaceName cfg) cfg)"
  by (simp add: AutoConfigure_def required_steps_def warning_steps_def and_then_assoc Let_def)

lemma warning_steps_run:
  assumes "\<And>tr. ne_iface env tr name = Inr index"
  shows "\<exists>ds. warning_steps k env w name cfg tr = (None, tr @ ds) \<and> prefix (sent ds) (route_part k index cfg)"
proof -
  obtain r1 tr1 where g: "SetDefaultGateway k env w (nc_GatewayIP cfg) name tr = (r1, tr1)" by force
  with requestsD [OF requests_SetDefaultGateway [OF assms]] obtain ds
    where ds: "tr1 = tr @ ds" "prefix (sent ds) (route_part k index cfg)" by blast
  define tr2 where "tr2 = (if nc_GatewayIP cfg \<noteq> [] then tr1 else tr)"
  obtain r2 tr3 where d: "WriteResolvConf w (nc_DNSServers cfg) ''/etc/resolv.conf'' tr2 = (r2, tr3)" by force
  with requestsD [OF requests_resolv] obtain es where "tr3 = tr2 @ es" "sent es = []" by fastforce
  then show ?thesis using g d ds
    by (auto simp: warning_steps_def when_act_def ignore_err_def and_then_def ok_def tr2_def)
qed

lemma requests_required:
  assumes "\<And>tr. ne_iface env tr name = Inr index"
    and "cidr = (if nc_NetmaskCIDR cfg \<le> 0 \<or> 32 < nc_NetmaskCIDR cfg then 24 else nc_NetmaskCIDR cfg)"
  shows "requests (required_steps k env w name cidr cfg) (link_request k index # addr_part k index cfg)"
proof -
  have "requests (when_act (nc_IPAddress cfg \<noteq> []) (map_err SetIPFailed (SetInterfaceIP k env w name (nc_IPAddress cfg) cidr))) (addr_part k index cfg)"
    using assms by (auto simp: when_act_def requests_basic intro!: requests_map_err requests_SetInterfaceIP)
  with requests_and_then [OF requests_map_err [OF requests_SetLinkUp [OF assms(1)]]] show ?thesis
    by (simp add: required_steps_def)
qed

text \<open>
  C28: the network is configured in order, and only the link and the address can make it fail. On an
  interface that stays in the kernel's table, the requests sent are the link, then the address with a
  prefix length in 1..32, then the default route, and no other; on success the first two have all
  been sent. It succeeds if and only if the link came up and the address, if there is one, was
  accepted: what goes wrong with the gateway or with \<open>/etc/resolv.conf\<close> changes nothing.
\<close>

theorem auto_configure_exact:
  assumes "name = (if nc_InterfaceName cfg = [] then ''eth0'' else nc_InterfaceName cfg)"
    and "\<And>tr. ne_iface env tr name = Inr index"
    and "cidr = (if nc_NetmaskCIDR cfg \<le> 0 \<or> 32 < nc_NetmaskCIDR cfg then 24 else nc_NetmaskCIDR cfg)"
    and "AutoConfigure k env w cfg tr = (r, tr')"
  shows "(\<exists>ds. tr' = tr @ ds \<and> prefix (sent ds) (link_request k index # addr_part k index cfg @ route_part k index cfg) \<and>
      (r = None \<longrightarrow> prefix (link_request k index # addr_part k index cfg) (sent ds))) \<and>
    (r = None \<longleftrightarrow> (\<exists>tr1. SetLinkUp k env w name tr = (None, tr1) \<and>
      (nc_IPAddress cfg \<noteq> [] \<longrightarrow> fst (SetInterfaceIP k env w name (nc_IPAddress cfg) cidr tr1) = None)))"
proof
  obtain q tr1 where req: "required_steps k env w name cidr cfg tr = (q, tr1)" by force
  obtain ds where ds: "tr1 = tr @ ds" "prefix (sent ds) (link_request k index # addr_part k index cfg)"
      "q = None \<longrightarrow> sent ds = link_request k index # addr_part k index cfg"
    using requestsD [OF requests_required [OF assms(2,3)] req] by blast
  obtain es where es: "warning_steps k env w name cfg tr1 = (None, tr1 @ es)" "prefix (sent es) (route_part k index cfg)"
    using warning_steps_run [OF assms(2)] by blast
  have run: "(r, tr') = (if q = None then (None, tr1 @ es) else (q, tr1))"
    using assms(4) req es(1) by (auto simp: AutoConfigure_halves assms(1,3) [symmetric] and_then_def)
  then show "\<exists>ds. tr' = tr @ ds \<and> prefix (sent ds) (link_request k index # addr_part k index cfg @ route_part k index cfg) \<and>
      (r = None \<longrightarrow> prefix (link_request k index # addr_part k index cfg) (sent ds))"
    using ds es(2) prefix_prefix [OF ds(2)] by (auto split: if_splits)
  show "r = None \<longleftrightarrow> (\<exists>tr1. SetLinkUp k env w name tr = (None, tr1) \<and>
      (nc_IPAddress cfg \<noteq> [] \<longrightarrow> fst (SetInterfaceIP k env w name (nc_IPAddress cfg) cidr tr1) = None))"
    using run req by (cases "SetLinkUp k env w name tr")
      (auto simp: required_steps_def and_then_def when_act_def map_err_def ok_def split: prod.splits option.splits if_splits)
qed

text \<open>A kernel that accepts everything: each request is answered by an acknowledgement, after an unrelated message.\<close>

definition sample_netd :: netd_env where
  "sample_netd =
     \<lparr>ne_iface = \<lambda>_ _. Inr 2,
      ne_arrivals = \<lambda>tr. ([nl_reply 3 0 [], nl_reply 2 (word_of_nat (length (sent tr))) (put_u32_le 0)], PollError ''deadline''),
      ne_readfile = \<lambda>_ _. Inr (''up'' @ [CHR 0x0A])\<rparr>"

lemma sample_ack:
  assumes "word_of_nat (length (sent tr)) = n" and "n \<noteq> 0"
  shows "readNetlinkAckPersistent linux_consts sample_netd all_ok n t tr = (None, tr @ [NdReadDeadline t, NdSyscallConn, NdRecv, NdRecv])"
  using assms
  by (simp add: readNetlinkAckPersistent_def and_then_def looking_def sample_netd_def parse_nl_reply linux_consts_def)

theorem auto_configure_exact_witness:
  "\<exists>ds. AutoConfigure linux_consts sample_netd all_ok (netd_DefaultConfig []) [] = (None, ds) \<and>
     prefix [link_request linux_consts 2, addr_request linux_consts 2 guest_ip 24] (sent ds)"
proof -
  let ?cfg = "netd_DefaultConfig []"
  obtain r tr' where run: "AutoConfigure linux_consts sample_netd all_ok ?cfg [] = (r, tr')" by force
  have part: "addr_part linux_consts 2 ?cfg = [addr_request linux_consts 2 guest_ip 24]"
    by (simp add: addr_part_def netd_DefaultConfig_def guest_ip_parsed)
  have iface: "ne_iface sample_netd tr name = Inr 2" for tr name by (simp add: sample_netd_def)
  have open_ok: "openNetlinkSocketNonBlock all_ok tr = (None, tr @ [NdSocket, NdBind, NdNewFile])" for tr
    by (simp add: openNetlinkSocketNonBlock_def must_or_close_fd_def and_then_def all_ok_def must_def ok_def)
  have up: "VerifyInterfaceUp sample_netd name tr = (None, tr)" for name tr
    by (simp add: VerifyInterfaceUp_def looking_def sample_netd_def TrimSpace_def is_space_def ok_def)
  have link: "\<exists>tr1. SetLinkUp linux_consts sample_netd all_ok ''eth0'' [] = (None, tr1) \<and> sent tr1 = [link_request linux_consts 2]"
    by (simp add: SetLinkUp_def looking_def iface exchange_def and_then_def open_ok with_deferred_def sample_ack up)
  have addr: "fst (SetInterfaceIP linux_consts sample_netd all_ok ''eth0'' ''10.0.2.15'' 24 tr) = None" if "length (sent tr) = 1" for tr
    using that by (simp add: SetInterfaceIP_def looking_def iface exchange_def and_then_def open_ok with_deferred_def sample_ack guest_ip_parsed)
  have cfg: "nc_InterfaceName ?cfg = ''eth0''" "nc_IPAddress ?cfg = ''10.0.2.15''" "nc_NetmaskCIDR ?cfg = 24"
    by (simp_all add: netd_DefaultConfig_def)
  from auto_configure_exact [OF refl iface refl run] link addr show ?thesis
    by (auto simp: run cfg part)
qed

end
