(* ===== verification/Daemons.thy ===== *)
theory Daemons
  imports SvcBridge VsockTransport Netd SystemStatus
begin

text \<open>
  The programs \<open>cmd/karim-svcd/main.go\<close> and \<open>cmd/karim-vsockd/main.go\<close> from their start: the supervisor up to
  its signal loop (the handlers are in \<open>SvcBridge\<close>), the control daemon through its shutdown. What they set up,
  in which order, and what they go on without. Every part's own calls are recorded in one trace, tagged with the part; log output is left out.
\<close>

datatype dm_call =
    DmStore st_call
  | DmNet nd_call
  | DmSock sock_call
  | DmMkdirAll string nat
  | DmServe string
  | DmWaitSignal
  | DmCloseServer
  | DmRemove string

subsection \<open>The control plane\<close>

text \<open>An \<open>AF_VSOCK\<close> listener where the kernel supports it; a failure is only reported.\<close>

definition serve_vsock :: "dm_call world \<Rightarrow> nat \<Rightarrow> u32 \<Rightarrow> (dm_call, unit) action" where
  "serve_vsock w fd port tr =
     (case IsVSockSupported (\<lambda>cs c. w (tr @ map DmSock cs) (DmSock c)) fd [] of
        (False, cs) \<Rightarrow> (None, tr @ map DmSock cs)
      | (True, cs) \<Rightarrow>
          (case lift_act DmSock w (\<lambda>w. ListenVSock w fd port) (tr @ map DmSock cs) of
             (Some e, tr') \<Rightarrow> (None, tr')
           | (None, tr') \<Rightarrow> (None, tr' @ [DmServe ''vsock''])))"

definition serve_unix :: "dm_call world \<Rightarrow> string \<Rightarrow> (dm_call, unit) action" where
  "serve_unix w socketPath tr =
     (case lift_act DmSock w (\<lambda>w. ListenUnix w socketPath) tr of
        (Some e, tr') \<Rightarrow> (None, tr')
      | (None, tr') \<Rightarrow> (None, tr' @ [DmServe socketPath]))"

definition control_plane :: "dm_call world \<Rightarrow> nat \<Rightarrow> u32 \<Rightarrow> string \<Rightarrow> (dm_call, unit) action" where
  "control_plane w fd port socketPath =
     steps [attempt (DmMkdirAll (Dir socketPath) 493), serve_vsock w fd port, serve_unix w socketPath]"

subsection \<open>karim-vsockd\<close>

text \<open>The bridge is made before the listeners; a panic while it loads the services ends the program.\<close>

definition vsockd_main :: "bridge_env \<Rightarrow> dm_call world \<Rightarrow> nat \<Rightarrow> nat \<Rightarrow> string \<Rightarrow> string \<Rightarrow> dm_call list \<Rightarrow> bridge option \<times> dm_call list" where
  "vsockd_main env w fd portFlag socketFlag configDirFlag tr =
     (case newSvcdBridge env configDirFlag of
        (Inl _, _) \<Rightarrow> (None, tr)
      | (Inr _, b) \<Rightarrow>
          (Some b,
           snd (steps [control_plane w fd (word_of_nat portFlag) socketFlag, attempt DmWaitSignal, attempt DmCloseServer,
                  attempt (DmRemove socketFlag)] tr)))"

subsection \<open>karim-svcd\<close>

record svcd_flags =
  sv_config_dir :: string
  sv_enable_net :: bool
  sv_enable_overlay :: bool
  sv_enable_vsockd :: bool

definition svcd_default_flags :: svcd_flags where
  "svcd_default_flags = \<lparr>sv_config_dir = ''/etc/karim/services'', sv_enable_net = True, sv_enable_overlay = True, sv_enable_vsockd = True\<rparr>"

record svcd_env =
  sx_bridge :: bridge_env
  sx_view :: st_view
  sx_tree :: dir_tree
  sx_net :: netd_env
  sx_consts :: nl_consts
  sx_fd :: nat
  sx_unix_socket :: string

definition overlay_step :: "svcd_env \<Rightarrow> dm_call world \<Rightarrow> (dm_call, unit) action" where
  "overlay_step env w =
     ignore_err (lift_act DmStore w (\<lambda>w. PrepareAndMountRootOverlay (sx_view env) w (sx_tree env) ''/mnt/lower'' ''/run/karim/overlay'' ''/''))"

definition network_step :: "svcd_env \<Rightarrow> dm_call world \<Rightarrow> (dm_call, unit) action" where
  "network_step env w =
     ignore_err (lift_act DmNet w (\<lambda>w. AutoConfigure (sx_consts env) (sx_net env) w (netd_DefaultConfig ''eth0'')))"

definition control_step :: "svcd_env \<Rightarrow> dm_call world \<Rightarrow> (dm_call, unit) action" where
  "control_step env w =
     control_plane w (sx_fd env) DefaultVSockPort
       (if sx_unix_socket env \<noteq> [] then sx_unix_socket env else ''/run/karim/vsock.sock'')"

text \<open>
  \<open>main\<close> up to its signal loop. The services are loaded before the control plane starts and started after
  it; a panic of the configuration reader comes before the control plane.
\<close>

definition svcd_main ::
  "svcd_env \<Rightarrow> dm_call world \<Rightarrow> svcd_flags \<Rightarrow> string list \<Rightarrow> string list \<Rightarrow> dm_call list \<Rightarrow> boot_outcome option \<times> dm_call list"
where
  "svcd_main env w f o2 o3 tr =
     (let tr1 = snd (steps [when_act (sv_enable_overlay f) (overlay_step env w), when_act (sv_enable_net f) (network_step env w)] tr);
          boot = svcd_boot (sx_bridge env) (sv_config_dir f) o2 o3
      in if boot = Some BootPanic then (boot, tr1)
         else (boot, snd (when_act (sv_enable_vsockd f) (control_step env w) tr1)))"

subsection \<open>Start-up\<close>

lemma lift_act_calls: "\<exists>cs. snd (lift_act emb w m tr) = tr @ map emb cs"
  by (auto simp: lift_act_def split: prod.splits)

lemma optional_step_calls:
  assumes "\<And>tr. \<exists>cs. m tr = (None, tr @ map emb cs)"
  shows "\<exists>cs. when_act b m tr = (None, tr @ map emb cs) \<and> (\<not> b \<longrightarrow> cs = [])"
proof (cases b)
  case True
  then show ?thesis using assms [of tr] by (simp add: when_act_def)
next
  case False
  then show ?thesis by (intro exI [of _ "[]"]) (simp add: when_act_def ok_def)
qed

lemma overlay_calls: "\<exists>cs. overlay_step env w tr = (None, tr @ map DmStore cs)"
  unfolding overlay_step_def ignore_err_def using lift_act_calls by auto

lemma network_calls: "\<exists>cs. network_step env w tr = (None, tr @ map DmNet cs)"
  unfolding network_step_def ignore_err_def using lift_act_calls by auto

fun control_call :: "dm_call \<Rightarrow> bool" where
  "control_call (DmSock _) = True"
| "control_call (DmMkdirAll _ _) = True"
| "control_call (DmServe _) = True"
| "control_call _ = False"

lemma control_sock [simp]: "list_all control_call (map DmSock cs)"
  by (induction cs) simp_all

lemma serve_vsock_calls: "\<exists>cs. serve_vsock w fd port tr = (None, tr @ cs) \<and> list_all control_call cs"
proof -
  obtain b cs where v: "IsVSockSupported (\<lambda>cs c. w (tr @ map DmSock cs) (DmSock c)) fd [] = (b, cs)" by force
  obtain r ds where l: "lift_act DmSock w (\<lambda>w. ListenVSock w fd port) (tr @ map DmSock cs) = (r, (tr @ map DmSock cs) @ map DmSock ds)"
    using lift_act_calls [of DmSock w "\<lambda>w. ListenVSock w fd port" "tr @ map DmSock cs"] by (metis prod.collapse)
  show ?thesis
    by (cases b; cases r)
      (auto simp: serve_vsock_def v l intro: exI [of _ "map DmSock cs"] exI [of _ "map DmSock cs @ map DmSock ds"]
        exI [of _ "map DmSock cs @ map DmSock ds @ [DmServe ''vsock'']"])
qed

lemma serve_unix_calls: "\<exists>cs. serve_unix w path tr = (None, tr @ cs) \<and> list_all control_call cs"
proof -
  obtain r ds where l: "lift_act DmSock w (\<lambda>w. ListenUnix w path) tr = (r, tr @ map DmSock ds)"
    using lift_act_calls [of DmSock w "\<lambda>w. ListenUnix w path" tr] by (metis prod.collapse)
  show ?thesis
    by (cases r) (auto simp: serve_unix_def l intro: exI [of _ "map DmSock ds"] exI [of _ "map DmSock ds @ [DmServe path]"])
qed

lemma control_plane_calls:
  "\<exists>cs. control_plane w fd port path tr = (None, tr @ DmMkdirAll (Dir path) 493 # cs) \<and> list_all control_call cs"
proof -
  define t1 where "t1 = tr @ [DmMkdirAll (Dir path) 493]"
  obtain as where as: "serve_vsock w fd port t1 = (None, t1 @ as)" "list_all control_call as" using serve_vsock_calls by blast
  define t2 where "t2 = t1 @ as"
  obtain bs where bs: "serve_unix w path t2 = (None, t2 @ bs)" "list_all control_call bs" using serve_unix_calls by blast
  have "control_plane w fd port path tr = (None, t2 @ bs)"
    using as(1) bs(1) by (simp add: control_plane_def and_then_def attempt_def ok_def t1_def [symmetric] t2_def [symmetric])
  moreover have "t2 @ bs = tr @ DmMkdirAll (Dir path) 493 # as @ bs" by (simp add: t1_def t2_def)
  moreover have "list_all control_call (as @ bs)" using as(2) bs(2) by simp
  ultimately show ?thesis by (intro exI conjI) auto
qed

text \<open>
  The supervisor starts whatever fails around it. Neither the storage overlay nor the network nor the
  control plane can keep it from booting: the outcome is that of loading, ordering and starting the
  services alone. It works in order: storage, network, control plane; a part that is disabled does
  nothing, and an enabled control plane is always attempted unless the configuration reader panics.
\<close>

theorem startup_resilient:
  "fst (svcd_main env w f o2 o3 tr) = svcd_boot (sx_bridge env) (sv_config_dir f) o2 o3 \<and>
   (\<exists>st nd ct. snd (svcd_main env w f o2 o3 tr) = tr @ map DmStore st @ map DmNet nd @ ct \<and> list_all control_call ct \<and>
      (sv_enable_overlay f \<or> st = []) \<and> (sv_enable_net f \<or> nd = []) \<and>
      (ct \<noteq> [] \<longleftrightarrow> sv_enable_vsockd f \<and> svcd_boot (sx_bridge env) (sv_config_dir f) o2 o3 \<noteq> Some BootPanic))"
proof
  show "fst (svcd_main env w f o2 o3 tr) = svcd_boot (sx_bridge env) (sv_config_dir f) o2 o3"
    by (simp only: svcd_main_def Let_def fst_conv if_distrib [of fst] if_cancel)
  obtain st where st: "when_act (sv_enable_overlay f) (overlay_step env w) tr = (None, tr @ map DmStore st)" "sv_enable_overlay f \<or> st = []"
    using optional_step_calls [of "overlay_step env w" DmStore, OF overlay_calls] by metis
  obtain nd where nd: "when_act (sv_enable_net f) (network_step env w) (tr @ map DmStore st) = (None, (tr @ map DmStore st) @ map DmNet nd)"
    "sv_enable_net f \<or> nd = []"
    using optional_step_calls [of "network_step env w" DmNet, OF network_calls] by metis
  let ?tr = "(tr @ map DmStore st) @ map DmNet nd" and ?boot = "svcd_boot (sx_bridge env) (sv_config_dir f) o2 o3"
  have early: "snd (steps [when_act (sv_enable_overlay f) (overlay_step env w), when_act (sv_enable_net f) (network_step env w)] tr) = ?tr"
    using st(1) nd(1) by (simp add: and_then_def)
  obtain cs where cs: "control_step env w ?tr = (None, ?tr @ cs)" "list_all control_call cs" "cs \<noteq> []"
  proof -
    obtain path where p: "control_step env w = control_plane w (sx_fd env) DefaultVSockPort path"
      by (simp add: control_step_def)
    obtain cs where "control_plane w (sx_fd env) DefaultVSockPort path ?tr = (None, ?tr @ DmMkdirAll (Dir path) 493 # cs)" "list_all control_call cs"
      using control_plane_calls by blast
    then show thesis using p that [of "DmMkdirAll (Dir path) 493 # cs"] by simp
  qed
  let ?ct = "if sv_enable_vsockd f \<and> ?boot \<noteq> Some BootPanic then cs else []"
  have "snd (svcd_main env w f o2 o3 tr) = tr @ map DmStore st @ map DmNet nd @ ?ct"
    unfolding svcd_main_def Let_def early using cs(1) by (simp add: when_act_def ok_def)
  with st(2) nd(2) cs show "\<exists>st nd ct. snd (svcd_main env w f o2 o3 tr) = tr @ map DmStore st @ map DmNet nd @ ct \<and> list_all control_call ct \<and>
      (sv_enable_overlay f \<or> st = []) \<and> (sv_enable_net f \<or> nd = []) \<and>
      (ct \<noteq> [] \<longleftrightarrow> sv_enable_vsockd f \<and> ?boot \<noteq> Some BootPanic)"
    by (intro exI [of _ st] exI [of _ nd] exI [of _ ?ct]) simp
qed

end
