(* ===== verification/Seccomp.thy ===== *)
theory Seccomp
  imports GoStrings
begin

unbundle bit_operations_syntax

text \<open>
  \<open>internal/secd/seccomp.go\<close>: the compiler from syscall lists to classic BPF programs, and the
  named profiles.

  The constants of \<open>golang.org/x/sys/unix\<close> are a parameter of every definition that uses them: a
  record \<open>unix_consts\<close> with one field per constant, and the functions \<open>uc_SYS\<close> and \<open>uc_CAP\<close> from the
  name of a system call or capability constant to its number. What is relied on is stated as
  \<open>bpf_codes_ok\<close> (the three opcodes the compiler emits differ) and \<open>syscalls_distinct\<close> (different
  system calls have different numbers). \<open>linux_amd64\<close> is the instance with the numbers of Linux on
  x86-64.

  The meaning of a compiled program is given by \<open>bpf_exec\<close>, a classic-BPF machine for the
  instructions that occur: loads of a word of \<open>seccomp_data\<close>, forward conditional jumps and
  returns.
\<close>

record unix_consts =
  uc_BPF_LD :: u16
  uc_BPF_W :: u16
  uc_BPF_ABS :: u16
  uc_BPF_JMP :: u16
  uc_BPF_JEQ :: u16
  uc_BPF_K :: u16
  uc_BPF_RET :: u16
  uc_AUDIT_ARCH_X86_64 :: u32
  uc_SECCOMP_RET_ALLOW :: u32
  uc_SECCOMP_RET_KILL_PROCESS :: u32
  uc_SECCOMP_RET_TRAP :: u32
  uc_SECCOMP_RET_ERRNO :: u32
  uc_SYS :: "string \<Rightarrow> u32"
  uc_CAP :: "string \<Rightarrow> nat"

record SockFilter =
  sf_Code :: u16
  sf_Jt :: u8
  sf_Jf :: u8
  sf_K :: u32

subsection \<open>The compiler\<close>

definition bpfLdW :: "unix_consts \<Rightarrow> u16" where
  "bpfLdW U = uc_BPF_LD U OR uc_BPF_W U OR uc_BPF_ABS U"

definition bpfJmpEq :: "unix_consts \<Rightarrow> u16" where
  "bpfJmpEq U = uc_BPF_JMP U OR uc_BPF_JEQ U OR uc_BPF_K U"

definition bpfRetK :: "unix_consts \<Rightarrow> u16" where
  "bpfRetK U = uc_BPF_RET U OR uc_BPF_K U"

text \<open>\<open>SyscallMap\<close>, with the name of the constant of package \<open>unix\<close> on the right.\<close>

definition syscall_table :: "(string \<times> string) list" where
  "syscall_table = [
     (''read'', ''SYS_READ''), (''write'', ''SYS_WRITE''), (''open'', ''SYS_OPEN''),
     (''close'', ''SYS_CLOSE''), (''stat'', ''SYS_STAT''), (''fstat'', ''SYS_FSTAT''),
     (''lstat'', ''SYS_LSTAT''), (''poll'', ''SYS_POLL''), (''lseek'', ''SYS_LSEEK''),
     (''mmap'', ''SYS_MMAP''), (''mprotect'', ''SYS_MPROTECT''), (''munmap'', ''SYS_MUNMAP''),
     (''brk'', ''SYS_BRK''), (''rt_sigaction'', ''SYS_RT_SIGACTION''),
     (''rt_sigprocmask'', ''SYS_RT_SIGPROCMASK''), (''rt_sigreturn'', ''SYS_RT_SIGRETURN''),
     (''ioctl'', ''SYS_IOCTL''), (''pread64'', ''SYS_PREAD64''), (''pwrite64'', ''SYS_PWRITE64''),
     (''readv'', ''SYS_READV''), (''writev'', ''SYS_WRITEV''), (''access'', ''SYS_ACCESS''),
     (''pipe'', ''SYS_PIPE''), (''select'', ''SYS_SELECT''), (''sched_yield'', ''SYS_SCHED_YIELD''),
     (''madvise'', ''SYS_MADVISE''), (''dup'', ''SYS_DUP''), (''dup2'', ''SYS_DUP2''),
     (''getpid'', ''SYS_GETPID''), (''pause'', ''SYS_PAUSE''), (''nanosleep'', ''SYS_NANOSLEEP''),
     (''getitimer'', ''SYS_GETITIMER''), (''alarm'', ''SYS_ALARM''),
     (''setitimer'', ''SYS_SETITIMER''), (''getppid'', ''SYS_GETPPID''),
     (''getpgrp'', ''SYS_GETPGRP''), (''setsid'', ''SYS_SETSID''), (''getuid'', ''SYS_GETUID''),
     (''geteuid'', ''SYS_GETEUID''), (''getgid'', ''SYS_GETGID''), (''getegid'', ''SYS_GETEGID''),
     (''arch_prctl'', ''SYS_ARCH_PRCTL''), (''gettid'', ''SYS_GETTID''), (''futex'', ''SYS_FUTEX''),
     (''sched_getaffinity'', ''SYS_SCHED_GETAFFINITY''), (''exit'', ''SYS_EXIT''),
     (''exit_group'', ''SYS_EXIT_GROUP''), (''epoll_create'', ''SYS_EPOLL_CREATE''),
     (''epoll_create1'', ''SYS_EPOLL_CREATE1''), (''epoll_ctl'', ''SYS_EPOLL_CTL''),
     (''epoll_wait'', ''SYS_EPOLL_WAIT''), (''epoll_pwait'', ''SYS_EPOLL_PWAIT''),
     (''eventfd'', ''SYS_EVENTFD''), (''eventfd2'', ''SYS_EVENTFD2''),
     (''timerfd_create'', ''SYS_TIMERFD_CREATE''), (''timerfd_settime'', ''SYS_TIMERFD_SETTIME''),
     (''timerfd_gettime'', ''SYS_TIMERFD_GETTIME''), (''clock_gettime'', ''SYS_CLOCK_GETTIME''),
     (''clock_getres'', ''SYS_CLOCK_GETRES''), (''clock_nanosleep'', ''SYS_CLOCK_NANOSLEEP''),
     (''fcntl'', ''SYS_FCNTL''), (''getcwd'', ''SYS_GETCWD''), (''chdir'', ''SYS_CHDIR''),
     (''fchdir'', ''SYS_FCHDIR''), (''mkdir'', ''SYS_MKDIR''), (''rmdir'', ''SYS_RMDIR''),
     (''unlink'', ''SYS_UNLINK''), (''readlink'', ''SYS_READLINK''), (''openat'', ''SYS_OPENAT''),
     (''mkdirat'', ''SYS_MKDIRAT''), (''unlinkat'', ''SYS_UNLINKAT''),
     (''readlinkat'', ''SYS_READLINKAT''), (''newfstatat'', ''SYS_NEWFSTATAT''),
     (''pipe2'', ''SYS_PIPE2''), (''dup3'', ''SYS_DUP3''), (''prctl'', ''SYS_PRCTL''),
     (''sysinfo'', ''SYS_SYSINFO''), (''uname'', ''SYS_UNAME''), (''tgkill'', ''SYS_TGKILL''),
     (''execve'', ''SYS_EXECVE''), (''execveat'', ''SYS_EXECVEAT''), (''wait4'', ''SYS_WAIT4''),
     (''clone'', ''SYS_CLONE''), (''clone3'', ''SYS_CLONE3''), (''fork'', ''SYS_FORK''),
     (''vfork'', ''SYS_VFORK''), (''sigaltstack'', ''SYS_SIGALTSTACK''),
     (''set_robust_list'', ''SYS_SET_ROBUST_LIST''), (''get_robust_list'', ''SYS_GET_ROBUST_LIST''),
     (''set_tid_address'', ''SYS_SET_TID_ADDRESS''), (''set_thread_area'', ''SYS_SET_THREAD_AREA''),
     (''gettimeofday'', ''SYS_GETTIMEOFDAY''), (''rseq'', ''SYS_RSEQ''),
     (''prlimit64'', ''SYS_PRLIMIT64''), (''getrandom'', ''SYS_GETRANDOM''),
     (''socket'', ''SYS_SOCKET''), (''connect'', ''SYS_CONNECT''), (''accept'', ''SYS_ACCEPT''),
     (''sendto'', ''SYS_SENDTO''), (''recvfrom'', ''SYS_RECVFROM''), (''sendmsg'', ''SYS_SENDMSG''),
     (''recvmsg'', ''SYS_RECVMSG''), (''shutdown'', ''SYS_SHUTDOWN''), (''bind'', ''SYS_BIND''),
     (''listen'', ''SYS_LISTEN''), (''getsockname'', ''SYS_GETSOCKNAME''),
     (''getpeername'', ''SYS_GETPEERNAME''), (''socketpair'', ''SYS_SOCKETPAIR''),
     (''setsockopt'', ''SYS_SETSOCKOPT''), (''getsockopt'', ''SYS_GETSOCKOPT''),
     (''accept4'', ''SYS_ACCEPT4''), (''reboot'', ''SYS_REBOOT''),
     (''kexec_load'', ''SYS_KEXEC_LOAD''), (''init_module'', ''SYS_INIT_MODULE''),
     (''delete_module'', ''SYS_DELETE_MODULE''), (''swapon'', ''SYS_SWAPON''),
     (''swapoff'', ''SYS_SWAPOFF''), (''pivot_root'', ''SYS_PIVOT_ROOT''), (''ptrace'', ''SYS_PTRACE'')]"

definition SyscallMap :: "unix_consts \<Rightarrow> string \<Rightarrow> u32 option" where
  "SyscallMap U name = map_option (uc_SYS U) (map_of syscall_table name)"

datatype SeccompAction = ActionAllow | ActionKillProcess | ActionTrap | ActionErrno

fun action_value :: "unix_consts \<Rightarrow> SeccompAction \<Rightarrow> u32" where
  "action_value U ActionAllow = uc_SECCOMP_RET_ALLOW U"
| "action_value U ActionKillProcess = uc_SECCOMP_RET_KILL_PROCESS U"
| "action_value U ActionTrap = uc_SECCOMP_RET_TRAP U"
| "action_value U ActionErrno = uc_SECCOMP_RET_ERRNO U OR 1"

text \<open>The four instructions both compilers start with: check the architecture, load the call number.\<close>

definition arch_prologue :: "unix_consts \<Rightarrow> SockFilter list" where
  "arch_prologue U =
     [\<lparr>sf_Code = bpfLdW U, sf_Jt = 0, sf_Jf = 0, sf_K = 4\<rparr>,
      \<lparr>sf_Code = bpfJmpEq U, sf_Jt = 1, sf_Jf = 0, sf_K = uc_AUDIT_ARCH_X86_64 U\<rparr>,
      \<lparr>sf_Code = bpfRetK U, sf_Jt = 0, sf_Jf = 0, sf_K = action_value U ActionKillProcess\<rparr>,
      \<lparr>sf_Code = bpfLdW U, sf_Jt = 0, sf_Jf = 0, sf_K = 0\<rparr>]"

text \<open>The loop over the list: at index \<open>i\<close> of \<open>n\<close> the distance \<open>uint8(n - i)\<close>.\<close>

fun jump_table :: "unix_consts \<Rightarrow> nat \<Rightarrow> nat \<Rightarrow> u32 list \<Rightarrow> SockFilter list" where
  "jump_table U n i [] = []"
| "jump_table U n i (sysNum # rest) =
     \<lparr>sf_Code = bpfJmpEq U, sf_Jt = word_of_nat (n - i), sf_Jf = 0, sf_K = sysNum\<rparr>
       # jump_table U n (Suc i) rest"

definition ret_K :: "unix_consts \<Rightarrow> u32 \<Rightarrow> SockFilter" where
  "ret_K U k = \<lparr>sf_Code = bpfRetK U, sf_Jt = 0, sf_Jf = 0, sf_K = k\<rparr>"

definition CompileWhitelistFilter :: "unix_consts \<Rightarrow> u32 list \<Rightarrow> SeccompAction \<Rightarrow> SockFilter list" where
  "CompileWhitelistFilter U allowedSyscalls defaultAction =
     arch_prologue U @ jump_table U (length allowedSyscalls) 0 allowedSyscalls @
     [ret_K U (action_value U defaultAction)] @ [ret_K U (action_value U ActionAllow)]"

definition CompileBlacklistFilter :: "unix_consts \<Rightarrow> u32 list \<Rightarrow> SeccompAction \<Rightarrow> SockFilter list" where
  "CompileBlacklistFilter U deniedSyscalls deniedAction =
     arch_prologue U @ jump_table U (length deniedSyscalls) 0 deniedSyscalls @
     [ret_K U (action_value U ActionAllow)] @ [ret_K U (action_value U deniedAction)]"

subsection \<open>Profiles\<close>

definition strict_names :: "string list" where
  "strict_names = [
     ''read'', ''write'', ''close'', ''fstat'', ''mmap'', ''mprotect'', ''munmap'', ''brk'',
     ''rt_sigaction'', ''rt_sigprocmask'', ''rt_sigreturn'', ''exit'', ''exit_group'', ''futex'',
     ''arch_prctl'', ''getrandom'', ''nanosleep'', ''set_tid_address'', ''set_thread_area'',
     ''gettimeofday'']"

definition app_default_names :: "string list" where
  "app_default_names = [
     ''read'', ''write'', ''open'', ''close'', ''stat'', ''fstat'', ''lstat'', ''poll'', ''lseek'',
     ''mmap'', ''mprotect'', ''munmap'', ''brk'', ''rt_sigaction'', ''rt_sigprocmask'',
     ''rt_sigreturn'', ''ioctl'', ''pread64'', ''pwrite64'', ''readv'', ''writev'', ''access'',
     ''pipe'', ''select'', ''sched_yield'', ''madvise'', ''dup'', ''dup2'', ''getpid'', ''pause'',
     ''nanosleep'', ''getppid'', ''getpgrp'', ''setsid'', ''getuid'', ''geteuid'', ''getgid'',
     ''getegid'', ''arch_prctl'', ''gettid'', ''futex'', ''sched_getaffinity'', ''exit'',
     ''exit_group'', ''epoll_create'', ''epoll_create1'', ''epoll_ctl'', ''epoll_wait'',
     ''epoll_pwait'', ''eventfd'', ''eventfd2'', ''timerfd_create'', ''timerfd_settime'',
     ''timerfd_gettime'', ''clock_gettime'', ''clock_getres'', ''clock_nanosleep'', ''fcntl'',
     ''getcwd'', ''chdir'', ''fchdir'', ''mkdir'', ''rmdir'', ''unlink'', ''readlink'', ''openat'',
     ''mkdirat'', ''unlinkat'', ''readlinkat'', ''newfstatat'', ''pipe2'', ''dup3'', ''prctl'',
     ''sysinfo'', ''uname'', ''tgkill'', ''execve'', ''execveat'', ''wait4'', ''clone'', ''clone3'',
     ''fork'', ''vfork'', ''sigaltstack'', ''set_robust_list'', ''get_robust_list'', ''rseq'',
     ''prlimit64'', ''getrandom'', ''set_tid_address'', ''set_thread_area'', ''gettimeofday'',
     ''socket'', ''connect'', ''accept'', ''sendto'', ''recvfrom'', ''sendmsg'', ''recvmsg'',
     ''shutdown'', ''bind'', ''listen'', ''getsockname'', ''getpeername'', ''socketpair'',
     ''setsockopt'', ''getsockopt'', ''accept4'']"

definition net_service_names :: "string list" where
  "net_service_names = [
     ''read'', ''write'', ''open'', ''close'', ''stat'', ''fstat'', ''lstat'', ''poll'', ''lseek'',
     ''mmap'', ''mprotect'', ''munmap'', ''brk'', ''rt_sigaction'', ''rt_sigprocmask'',
     ''rt_sigreturn'', ''ioctl'', ''pread64'', ''pwrite64'', ''readv'', ''writev'', ''access'',
     ''pipe'', ''select'', ''sched_yield'', ''madvise'', ''dup'', ''dup2'', ''getpid'', ''pause'',
     ''nanosleep'', ''getppid'', ''getpgrp'', ''setsid'', ''getuid'', ''geteuid'', ''getgid'',
     ''getegid'', ''arch_prctl'', ''gettid'', ''futex'', ''sched_getaffinity'', ''exit'',
     ''exit_group'', ''epoll_create'', ''epoll_create1'', ''epoll_ctl'', ''epoll_wait'',
     ''epoll_pwait'', ''eventfd'', ''eventfd2'', ''timerfd_create'', ''timerfd_settime'',
     ''timerfd_gettime'', ''clock_gettime'', ''clock_getres'', ''clock_nanosleep'', ''fcntl'',
     ''getcwd'', ''chdir'', ''fchdir'', ''mkdir'', ''rmdir'', ''unlink'', ''readlink'', ''openat'',
     ''mkdirat'', ''unlinkat'', ''readlinkat'', ''newfstatat'', ''pipe2'', ''dup3'', ''prctl'',
     ''sysinfo'', ''uname'', ''tgkill'', ''execve'', ''execveat'', ''wait4'', ''clone'', ''clone3'',
     ''fork'', ''vfork'', ''sigaltstack'', ''set_robust_list'', ''get_robust_list'', ''rseq'',
     ''prlimit64'', ''getrandom'', ''set_tid_address'', ''set_thread_area'', ''gettimeofday'',
     ''socket'', ''connect'', ''accept'', ''sendto'', ''recvfrom'', ''sendmsg'', ''recvmsg'',
     ''shutdown'', ''bind'', ''listen'', ''getsockname'', ''getpeername'', ''socketpair'',
     ''setsockopt'', ''getsockopt'', ''accept4'']"

text \<open>The loop of \<open>compileFromNames\<close>: the numbers collected so far, without duplicates (\<open>seen\<close> holds exactly them).\<close>

fun collect_nums :: "unix_consts \<Rightarrow> string list \<Rightarrow> u32 list \<Rightarrow> u32 list" where
  "collect_nums U [] nums = nums"
| "collect_nums U (n # ns) nums =
     (case SyscallMap U (ToLower (TrimSpace n)) of
        None \<Rightarrow> collect_nums U ns nums
      | Some sysNum \<Rightarrow> collect_nums U ns (if sysNum \<in> set nums then nums else nums @ [sysNum]))"

definition compileFromNames :: "unix_consts \<Rightarrow> string list \<Rightarrow> SeccompAction \<Rightarrow> SockFilter list" where
  "compileFromNames U names defaultAction = CompileWhitelistFilter U (collect_nums U names []) defaultAction"

datatype seccomp_error = UnknownProfile string

definition GetProfileFilter ::
  "unix_consts \<Rightarrow> string \<Rightarrow> SeccompAction \<Rightarrow> (seccomp_error, SockFilter list) result"
where
  "GetProfileFilter U profileName defaultAction =
     (let name = ToLower (TrimSpace profileName)
      in if name \<in> {''unrestricted'', ''disabled'', ''none'', ''''}
         then Inr [ret_K U (action_value U ActionAllow)]
         else if name = ''strict'' then Inr (compileFromNames U strict_names defaultAction)
         else if name = ''app-default'' then Inr (compileFromNames U app_default_names defaultAction)
         else if name = ''net-service'' then Inr (compileFromNames U net_service_names defaultAction)
         else Inl (UnknownProfile profileName))"

subsection \<open>The machine that runs a filter\<close>

text \<open>\<open>seccomp_data\<close> as the words at its byte offsets: 0 is the call number, 4 the architecture.\<close>

type_synonym seccomp_data = "u32 \<Rightarrow> u32"

text \<open>Execution of the remaining instructions with the accumulator; \<open>None\<close> is a program the kernel would refuse to load.\<close>

function bpf_exec :: "unix_consts \<Rightarrow> SockFilter list \<Rightarrow> seccomp_data \<Rightarrow> u32 \<Rightarrow> u32 option" where
  "bpf_exec U [] d a = None"
| "bpf_exec U (ins # rest) d a =
     (if sf_Code ins = bpfLdW U then bpf_exec U rest d (d (sf_K ins))
      else if sf_Code ins = bpfJmpEq U
        then bpf_exec U (drop (unat (if a = sf_K ins then sf_Jt ins else sf_Jf ins)) rest) d a
      else if sf_Code ins = bpfRetK U then Some (sf_K ins)
      else None)"
  by pat_completeness auto
termination
  by (relation "measure (\<lambda>(U, p, d, a). length p)") auto

text \<open>The verdict on a system call: a program starts with accumulator 0.\<close>

definition verdict :: "unix_consts \<Rightarrow> SockFilter list \<Rightarrow> seccomp_data \<Rightarrow> u32 option" where
  "verdict U prog d = bpf_exec U prog d 0"

abbreviation sd_nr :: "seccomp_data \<Rightarrow> u32" where
  "sd_nr d \<equiv> d 0"

abbreviation sd_arch :: "seccomp_data \<Rightarrow> u32" where
  "sd_arch d \<equiv> d 4"

subsection \<open>What is relied on of package unix\<close>

definition bpf_codes_ok :: "unix_consts \<Rightarrow> bool" where
  "bpf_codes_ok U \<longleftrightarrow> bpfLdW U \<noteq> bpfJmpEq U \<and> bpfLdW U \<noteq> bpfRetK U \<and> bpfJmpEq U \<noteq> bpfRetK U"

definition syscalls_distinct :: "unix_consts \<Rightarrow> bool" where
  "syscalls_distinct U \<longleftrightarrow> inj_on (uc_SYS U) (set (map snd syscall_table))"

definition amd64_numbers :: "(string \<times> u32) list" where
  "amd64_numbers = [
     (''SYS_READ'', 0), (''SYS_WRITE'', 1), (''SYS_OPEN'', 2), (''SYS_CLOSE'', 3), (''SYS_STAT'', 4),
     (''SYS_FSTAT'', 5), (''SYS_LSTAT'', 6), (''SYS_POLL'', 7), (''SYS_LSEEK'', 8), (''SYS_MMAP'', 9),
     (''SYS_MPROTECT'', 10), (''SYS_MUNMAP'', 11), (''SYS_BRK'', 12), (''SYS_RT_SIGACTION'', 13),
     (''SYS_RT_SIGPROCMASK'', 14), (''SYS_RT_SIGRETURN'', 15), (''SYS_IOCTL'', 16),
     (''SYS_PREAD64'', 17), (''SYS_PWRITE64'', 18), (''SYS_READV'', 19), (''SYS_WRITEV'', 20),
     (''SYS_ACCESS'', 21), (''SYS_PIPE'', 22), (''SYS_SELECT'', 23), (''SYS_SCHED_YIELD'', 24),
     (''SYS_MADVISE'', 28), (''SYS_DUP'', 32), (''SYS_DUP2'', 33), (''SYS_GETPID'', 39),
     (''SYS_PAUSE'', 34), (''SYS_NANOSLEEP'', 35), (''SYS_GETITIMER'', 36), (''SYS_ALARM'', 37),
     (''SYS_SETITIMER'', 38), (''SYS_GETPPID'', 110), (''SYS_GETPGRP'', 111), (''SYS_SETSID'', 112),
     (''SYS_GETUID'', 102), (''SYS_GETEUID'', 107), (''SYS_GETGID'', 104), (''SYS_GETEGID'', 108),
     (''SYS_ARCH_PRCTL'', 158), (''SYS_GETTID'', 186), (''SYS_FUTEX'', 202),
     (''SYS_SCHED_GETAFFINITY'', 204), (''SYS_EXIT'', 60), (''SYS_EXIT_GROUP'', 231),
     (''SYS_EPOLL_CREATE'', 213), (''SYS_EPOLL_CREATE1'', 291), (''SYS_EPOLL_CTL'', 233),
     (''SYS_EPOLL_WAIT'', 232), (''SYS_EPOLL_PWAIT'', 281), (''SYS_EVENTFD'', 284),
     (''SYS_EVENTFD2'', 290), (''SYS_TIMERFD_CREATE'', 283), (''SYS_TIMERFD_SETTIME'', 286),
     (''SYS_TIMERFD_GETTIME'', 287), (''SYS_CLOCK_GETTIME'', 228), (''SYS_CLOCK_GETRES'', 229),
     (''SYS_CLOCK_NANOSLEEP'', 230), (''SYS_FCNTL'', 72), (''SYS_GETCWD'', 79), (''SYS_CHDIR'', 80),
     (''SYS_FCHDIR'', 81), (''SYS_MKDIR'', 83), (''SYS_RMDIR'', 84), (''SYS_UNLINK'', 87),
     (''SYS_READLINK'', 89), (''SYS_OPENAT'', 257), (''SYS_MKDIRAT'', 258), (''SYS_UNLINKAT'', 263),
     (''SYS_READLINKAT'', 267), (''SYS_NEWFSTATAT'', 262), (''SYS_PIPE2'', 293), (''SYS_DUP3'', 292),
     (''SYS_PRCTL'', 157), (''SYS_SYSINFO'', 99), (''SYS_UNAME'', 63), (''SYS_TGKILL'', 234),
     (''SYS_EXECVE'', 59), (''SYS_EXECVEAT'', 322), (''SYS_WAIT4'', 61), (''SYS_CLONE'', 56),
     (''SYS_CLONE3'', 435), (''SYS_FORK'', 57), (''SYS_VFORK'', 58), (''SYS_SIGALTSTACK'', 131),
     (''SYS_SET_ROBUST_LIST'', 273), (''SYS_GET_ROBUST_LIST'', 274), (''SYS_SET_TID_ADDRESS'', 218),
     (''SYS_SET_THREAD_AREA'', 205), (''SYS_GETTIMEOFDAY'', 96), (''SYS_RSEQ'', 334),
     (''SYS_PRLIMIT64'', 302), (''SYS_GETRANDOM'', 318), (''SYS_SOCKET'', 41), (''SYS_CONNECT'', 42),
     (''SYS_ACCEPT'', 43), (''SYS_SENDTO'', 44), (''SYS_RECVFROM'', 45), (''SYS_SENDMSG'', 46),
     (''SYS_RECVMSG'', 47), (''SYS_SHUTDOWN'', 48), (''SYS_BIND'', 49), (''SYS_LISTEN'', 50),
     (''SYS_GETSOCKNAME'', 51), (''SYS_GETPEERNAME'', 52), (''SYS_SOCKETPAIR'', 53),
     (''SYS_SETSOCKOPT'', 54), (''SYS_GETSOCKOPT'', 55), (''SYS_ACCEPT4'', 288), (''SYS_REBOOT'', 169),
     (''SYS_KEXEC_LOAD'', 246), (''SYS_INIT_MODULE'', 175), (''SYS_DELETE_MODULE'', 176),
     (''SYS_SWAPON'', 167), (''SYS_SWAPOFF'', 168), (''SYS_PIVOT_ROOT'', 155), (''SYS_PTRACE'', 101)]"

definition capability_numbers :: "(string \<times> nat) list" where
  "capability_numbers = [
     (''CAP_CHOWN'', 0), (''CAP_DAC_OVERRIDE'', 1), (''CAP_DAC_READ_SEARCH'', 2), (''CAP_FOWNER'', 3),
     (''CAP_FSETID'', 4), (''CAP_KILL'', 5), (''CAP_SETGID'', 6), (''CAP_SETUID'', 7),
     (''CAP_SETPCAP'', 8), (''CAP_LINUX_IMMUTABLE'', 9), (''CAP_NET_BIND_SERVICE'', 10),
     (''CAP_NET_BROADCAST'', 11), (''CAP_NET_ADMIN'', 12), (''CAP_NET_RAW'', 13),
     (''CAP_IPC_LOCK'', 14), (''CAP_IPC_OWNER'', 15), (''CAP_SYS_MODULE'', 16),
     (''CAP_SYS_RAWIO'', 17), (''CAP_SYS_CHROOT'', 18), (''CAP_SYS_PTRACE'', 19),
     (''CAP_SYS_PACCT'', 20), (''CAP_SYS_ADMIN'', 21), (''CAP_SYS_BOOT'', 22), (''CAP_SYS_NICE'', 23),
     (''CAP_SYS_RESOURCE'', 24), (''CAP_SYS_TIME'', 25), (''CAP_SYS_TTY_CONFIG'', 26),
     (''CAP_MKNOD'', 27), (''CAP_LEASE'', 28), (''CAP_AUDIT_WRITE'', 29), (''CAP_AUDIT_CONTROL'', 30),
     (''CAP_SETFCAP'', 31), (''CAP_MAC_OVERRIDE'', 32), (''CAP_MAC_ADMIN'', 33), (''CAP_SYSLOG'', 34),
     (''CAP_WAKE_ALARM'', 35), (''CAP_BLOCK_SUSPEND'', 36), (''CAP_AUDIT_READ'', 37),
     (''CAP_PERFMON'', 38), (''CAP_BPF'', 39), (''CAP_CHECKPOINT_RESTORE'', 40)]"

definition linux_amd64 :: unix_consts where
  "linux_amd64 = \<lparr>uc_BPF_LD = 0, uc_BPF_W = 0, uc_BPF_ABS = 0x20, uc_BPF_JMP = 5, uc_BPF_JEQ = 0x10,
     uc_BPF_K = 0, uc_BPF_RET = 6, uc_AUDIT_ARCH_X86_64 = 0xC000003E,
     uc_SECCOMP_RET_ALLOW = 0x7FFF0000, uc_SECCOMP_RET_KILL_PROCESS = 0x80000000,
     uc_SECCOMP_RET_TRAP = 0x30000, uc_SECCOMP_RET_ERRNO = 0x50000,
     uc_SYS = (\<lambda>n. case map_of amd64_numbers n of Some k \<Rightarrow> k | None \<Rightarrow> 0xFFFFFFFF),
     uc_CAP = (\<lambda>n. case map_of capability_numbers n of Some k \<Rightarrow> k | None \<Rightarrow> 63)\<rparr>"

subsection \<open>Jump tables\<close>

lemma jump_table_length [simp]: "length (jump_table U n i xs) = length xs"
  by (induction xs arbitrary: i) auto

text \<open>Running a table whose distances fit into a byte: a hit leaves the table and skips the instruction after it.\<close>

lemma jump_table_exec:
  assumes "bpf_codes_ok U" and "n = i + length xs" and "length xs \<le> 255"
  shows "bpf_exec U (jump_table U n i xs @ miss # rest) d a =
    (if a \<in> set xs then bpf_exec U rest d a else bpf_exec U (miss # rest) d a)"
  using assms
proof (induction xs arbitrary: i)
  case Nil
  then show ?case by simp
next
  case (Cons x xs)
  have IH: "bpf_exec U (jump_table U n (Suc i) xs @ miss # rest) d a =
    (if a \<in> set xs then bpf_exec U rest d a else bpf_exec U (miss # rest) d a)"
    using Cons.prems by (intro Cons.IH) auto
  have dist: "unat (word_of_nat (n - i) :: u8) = Suc (length xs)"
  proof -
    have "n - i = Suc (length xs)" "Suc (length xs) < 2 ^ 8" using Cons.prems by auto
    then show ?thesis by (simp only: unat_of_nat) simp
  qed
  show ?case
  proof (cases "a = x")
    case True
    with Cons.prems(1) dist show ?thesis by (auto simp: bpf_codes_ok_def)
  next
    case False
    with Cons.prems(1) IH show ?thesis by (auto simp: bpf_codes_ok_def)
  qed
qed

lemma arch_prologue_exec:
  assumes "bpf_codes_ok U"
  shows "bpf_exec U (arch_prologue U @ rest) d a =
    (if sd_arch d = uc_AUDIT_ARCH_X86_64 U then bpf_exec U rest d (sd_nr d)
     else Some (action_value U ActionKillProcess))"
  using assms by (auto simp: arch_prologue_def bpf_codes_ok_def)

lemma ret_K_exec: "bpf_codes_ok U \<Longrightarrow> bpf_exec U (ret_K U k # rest) d a = Some k"
  by (auto simp: ret_K_def bpf_codes_ok_def)

text \<open>
  The interface of a filter compiler: from a list of call numbers and an action to a program that
  checks the architecture, looks the call number up in a jump table, and ends with the verdict
  for a miss and the verdict for a hit.
\<close>

locale table_filter =
  fixes compile :: "unix_consts \<Rightarrow> u32 list \<Rightarrow> SeccompAction \<Rightarrow> SockFilter list"
    and on_miss on_hit :: "SeccompAction \<Rightarrow> SeccompAction"
  assumes layout: "compile U xs act = arch_prologue U @ jump_table U (length xs) 0 xs @
    [ret_K U (action_value U (on_miss act)), ret_K U (action_value U (on_hit act))]"
begin

lemma foreign_arch:
  assumes "bpf_codes_ok U" and "sd_arch d \<noteq> uc_AUDIT_ARCH_X86_64 U"
  shows "verdict U (compile U xs act) d = Some (action_value U ActionKillProcess)"
  using assms by (simp add: verdict_def layout arch_prologue_exec)

lemma native_arch:
  assumes "bpf_codes_ok U" and "sd_arch d = uc_AUDIT_ARCH_X86_64 U" and "length xs \<le> 255"
  shows "verdict U (compile U xs act) d =
    Some (action_value U (if sd_nr d \<in> set xs then on_hit act else on_miss act))"
  using assms by (simp add: verdict_def layout arch_prologue_exec jump_table_exec ret_K_exec del: bpf_exec.simps)

lemma decides:
  assumes "bpf_codes_ok U" and "length xs \<le> 255"
  shows "verdict U (compile U xs act) d =
    Some (action_value U
      (if sd_arch d \<noteq> uc_AUDIT_ARCH_X86_64 U then ActionKillProcess
       else if sd_nr d \<in> set xs then on_hit act else on_miss act))"
  using assms foreign_arch native_arch by auto

lemma program_length: "length (compile U xs act) = length xs + 6"
  by (simp add: layout arch_prologue_def)

end

interpretation whitelist: table_filter CompileWhitelistFilter "\<lambda>act. act" "\<lambda>act. ActionAllow"
  by unfold_locales (simp add: CompileWhitelistFilter_def)

interpretation blacklist: table_filter CompileBlacklistFilter "\<lambda>act. ActionAllow" "\<lambda>act. act"
  by unfold_locales (simp add: CompileBlacklistFilter_def)

subsection \<open>Names to numbers\<close>

text \<open>The calls the table lists under ``forbidden'' and ``admin''.\<close>

definition admin_names :: "string list" where
  "admin_names = [''reboot'', ''kexec_load'', ''init_module'', ''delete_module'', ''swapon'',
     ''swapoff'', ''pivot_root'', ''ptrace'']"

text \<open>The numbers of the calls a list of names stands for.\<close>

definition numbers_of :: "unix_consts \<Rightarrow> string list \<Rightarrow> u32 set" where
  "numbers_of U names = {uc_SYS U c | n c. n \<in> set names \<and> (n, c) \<in> set syscall_table}"

lemma syscall_keys_distinct: "distinct (map fst syscall_table)"
  by (simp add: syscall_table_def)

lemma syscall_consts_distinct: "distinct (map snd syscall_table)"
  by (simp add: syscall_table_def)

lemma SyscallMap_eq_Some: "SyscallMap U n = Some k \<longleftrightarrow> (\<exists>c. (n, c) \<in> set syscall_table \<and> k = uc_SYS U c)"
  using syscall_keys_distinct by (auto simp: SyscallMap_def)

lemma collect_nums_set:
  "set (collect_nums U ns nums) = set nums \<union> {k. \<exists>n \<in> set ns. SyscallMap U (ToLower (TrimSpace n)) = Some k}"
  by (induction ns arbitrary: nums) (auto split: option.splits)

lemma collect_nums_length: "length (collect_nums U ns nums) \<le> length ns + length nums"
proof (induction ns arbitrary: nums)
  case (Cons n ns)
  show ?case
  proof (cases "SyscallMap U (ToLower (TrimSpace n))")
    case None
    then show ?thesis using Cons.IH [of nums] by simp
  next
    case (Some k)
    then show ?thesis using Cons.IH [of nums] Cons.IH [of "nums @ [k]"] by auto
  qed
qed simp

lemma strict_subset: "set strict_names \<subseteq> set app_default_names"
  by (simp add: strict_names_def app_default_names_def)

lemma net_service_same: "net_service_names = app_default_names"
  by (simp add: net_service_names_def app_default_names_def)

lemma app_default_normal: "list_all (\<lambda>n. ToLower (TrimSpace n) = n) app_default_names"
  by (simp add: app_default_names_def go_eval)

lemma admin_not_in_profiles: "set admin_names \<inter> set app_default_names = {}"
  by (simp add: admin_names_def app_default_names_def)

definition profile_lists :: "(string \<times> string list) list" where
  "profile_lists = [(''strict'', strict_names), (''app-default'', app_default_names), (''net-service'', net_service_names)]"

lemma profile_list_facts:
  assumes "(p, names) \<in> set profile_lists"
  shows "set names \<subseteq> set app_default_names" "length names \<le> 255"
    "GetProfileFilter U p act = Inr (compileFromNames U names act)"
proof -
  show "set names \<subseteq> set app_default_names"
    using assms strict_subset by (auto simp: profile_lists_def net_service_same)
  show "length names \<le> 255"
    using assms
    by (auto simp: profile_lists_def net_service_same) (simp_all add: strict_names_def app_default_names_def)
  show "GetProfileFilter U p act = Inr (compileFromNames U names act)"
  proof -
    have "ToLower (TrimSpace ''strict'') = ''strict''" "ToLower (TrimSpace ''app-default'') = ''app-default''"
      "ToLower (TrimSpace ''net-service'') = ''net-service''"
      by (simp_all add: go_eval)
    note norm = this
    from assms consider "p = ''strict'' \<and> names = strict_names" | "p = ''app-default'' \<and> names = app_default_names"
      | "p = ''net-service'' \<and> names = net_service_names"
      unfolding profile_lists_def by auto
    then show ?thesis by cases (simp_all add: GetProfileFilter_def norm)
  qed
qed

lemma profile_numbers:
  assumes "(p, names) \<in> set profile_lists"
  shows "set (collect_nums U names []) = numbers_of U names"
proof -
  have "ToLower (TrimSpace n) = n" if "n \<in> set names" for n
    using that profile_list_facts(1) [OF assms] app_default_normal by (auto simp: list_all_iff)
  then show ?thesis
    by (auto simp: collect_nums_set numbers_of_def SyscallMap_eq_Some)
qed

lemma profile_verdict:
  assumes "bpf_codes_ok U" and "(p, names) \<in> set profile_lists"
  shows "verdict U (compileFromNames U names act) d =
    Some (action_value U (if sd_arch d \<noteq> uc_AUDIT_ARCH_X86_64 U then ActionKillProcess
      else if sd_nr d \<in> numbers_of U names then ActionAllow else act))"
proof -
  have "length (collect_nums U names []) \<le> 255"
    using collect_nums_length [of U names "[]"] profile_list_facts(2) [OF assms(2)] by simp
  from whitelist.decides [OF assms(1) this, of act d] show ?thesis
    by (simp add: compileFromNames_def profile_numbers [OF assms(2)])
qed

subsection \<open>Properties of the filters\<close>

text \<open>C5: a compiled filter decides exactly as its list says. For up to 255 system calls the
  whitelist program allows a native call if and only if it is listed and gives every other one the
  default action, the blacklist program gives exactly the listed calls the denied action, and both
  kill a call made through a foreign architecture; both programs always return.\<close>

theorem compiled_filters_decide:
  assumes "bpf_codes_ok U" and "length xs \<le> 255"
  shows "verdict U (CompileWhitelistFilter U xs act) d =
      Some (action_value U (if sd_arch d \<noteq> uc_AUDIT_ARCH_X86_64 U then ActionKillProcess
        else if sd_nr d \<in> set xs then ActionAllow else act)) \<and>
    verdict U (CompileBlacklistFilter U xs act) d =
      Some (action_value U (if sd_arch d \<noteq> uc_AUDIT_ARCH_X86_64 U then ActionKillProcess
        else if sd_nr d \<in> set xs then act else ActionAllow))"
  using whitelist.decides [OF assms] blacklist.decides [OF assms] by simp

lemma linux_codes_ok: "bpf_codes_ok linux_amd64"
  by (simp add: bpf_codes_ok_def linux_amd64_def bpfLdW_def bpfJmpEq_def bpfRetK_def)

theorem compiled_filters_decide_witness:
  "verdict linux_amd64 (CompileWhitelistFilter linux_amd64 [0, 1, 60] ActionErrno)
     (\<lambda>off. if off = 4 then 0xC000003E else 59) = Some 0x50001"
  using compiled_filters_decide [OF linux_codes_ok, of "[0, 1, 60]" ActionErrno "\<lambda>off. if off = 4 then 0xC000003E else 59"]
  by (simp add: linux_amd64_def)

text \<open>The limit is sharp. The jump distance is a byte, so with 256 different calls the first
  one's distance wraps to zero and the whitelist refuses a call that is on the list.\<close>

theorem whitelist_256_refuses_first:
  assumes "bpf_codes_ok U" and "length xs = 256" and "distinct xs"
    and "sd_arch d = uc_AUDIT_ARCH_X86_64 U" and "sd_nr d = hd xs"
  shows "verdict U (CompileWhitelistFilter U xs act) d = Some (action_value U act)"
proof -
  obtain x ys where xs: "xs = x # ys" "length ys = 255" "x \<notin> set ys"
    using assms(2,3) by (cases xs) auto
  have "bpf_exec U (jump_table U 256 0 xs @ ret_K U m # rest) d x = Some m" for m rest
  proof -
    have "bpf_exec U (jump_table U 256 0 xs @ ret_K U m # rest) d x =
        bpf_exec U (jump_table U 256 1 ys @ ret_K U m # rest) d x"
      using assms(1) xs by (auto simp: bpf_codes_ok_def)
    then show ?thesis
      using xs by (simp add: jump_table_exec [OF assms(1)] ret_K_exec [OF assms(1)] del: bpf_exec.simps jump_table.simps)
  qed
  with xs assms show ?thesis
    by (simp add: verdict_def whitelist.layout arch_prologue_exec del: bpf_exec.simps jump_table.simps)
qed

lemma whitelist_256_example:
  "bpf_codes_ok linux_amd64 \<and> length (map word_of_nat [0..<256] :: u32 list) = 256 \<and>
   distinct (map word_of_nat [0..<256] :: u32 list)"
proof (intro conjI)
  have "inj_on (word_of_nat :: nat \<Rightarrow> u32) (set [0..<256])"
    by (auto simp: inj_on_def word_of_nat_eq_iff take_bit_nat_eq_self)
  then show "distinct (map word_of_nat [0..<256] :: u32 list)" by (simp add: distinct_map)
qed (simp_all add: linux_codes_ok)

theorem whitelist_256_refuses_first_witness:
  "verdict linux_amd64 (CompileWhitelistFilter linux_amd64 (map word_of_nat [0..<256]) ActionKillProcess)
     (\<lambda>off. if off = 4 then 0xC000003E else 0) = Some 0x80000000"
proof -
  have "hd (map word_of_nat [0..<256] :: u32 list) = 0" by (simp add: hd_map)
  then show ?thesis
    using whitelist_256_refuses_first [of linux_amd64 "map word_of_nat [0..<256]" "\<lambda>off. if off = 4 then 0xC000003E else 0" ActionKillProcess]
      whitelist_256_example
    by (simp add: linux_amd64_def del: upt_rec_numeral)
qed

text \<open>Each named profile allows a native system call if and only if the call is one of the
  names it lists, and answers every other call with the requested action. A profile name is
  accepted if and only if, trimmed and lower-cased, it is one of the three profiles or one of the
  four ways to ask for no filter; anything else is an error that carries the name.\<close>

theorem profiles_decide:
  assumes "bpf_codes_ok U" and "(p, names) \<in> set profile_lists"
  shows "(\<exists>f. GetProfileFilter U p act = Inr f \<and>
     (\<forall>d. verdict U f d =
       Some (action_value U (if sd_arch d \<noteq> uc_AUDIT_ARCH_X86_64 U then ActionKillProcess
         else if sd_nr d \<in> numbers_of U names then ActionAllow else act)))) \<and>
    (GetProfileFilter U q act = Inl e \<longleftrightarrow> e = UnknownProfile q \<and>
       ToLower (TrimSpace q) \<notin> {''strict'', ''app-default'', ''net-service'', ''unrestricted'', ''disabled'', ''none'', ''''})"
  using profile_list_facts(3) [OF assms(2)] profile_verdict [OF assms]
  by (auto simp: GetProfileFilter_def Let_def)

theorem profiles_decide_witness:
  "\<exists>f. GetProfileFilter linux_amd64 ''strict'' ActionTrap = Inr f \<and>
     verdict linux_amd64 f (\<lambda>off. 5) = Some 0x80000000"
proof -
  have "(''strict'', strict_names) \<in> set profile_lists" by (simp add: profile_lists_def)
  from profiles_decide [OF linux_codes_ok this, of ActionTrap] obtain f where
    "GetProfileFilter linux_amd64 ''strict'' ActionTrap = Inr f"
    "\<forall>d. verdict linux_amd64 f d = Some (action_value linux_amd64
       (if sd_arch d \<noteq> uc_AUDIT_ARCH_X86_64 linux_amd64 then ActionKillProcess
        else if sd_nr d \<in> numbers_of linux_amd64 strict_names then ActionAllow else ActionTrap))"
    by blast
  then show ?thesis by (auto simp: linux_amd64_def)
qed


lemma alist_values_inj:
  assumes "distinct (map fst al)" and "distinct (map snd al)"
  shows "inj_on (\<lambda>n. case map_of al n of Some k \<Rightarrow> k | None \<Rightarrow> z) (set (map fst al))"
proof (rule inj_onI)
  fix a b
  assume "a \<in> set (map fst al)" "b \<in> set (map fst al)"
    and eq: "(case map_of al a of Some k \<Rightarrow> k | None \<Rightarrow> z) = (case map_of al b of Some k \<Rightarrow> k | None \<Rightarrow> z)"
  then obtain k l where kl: "(a, k) \<in> set al" "(b, l) \<in> set al" by auto
  with eq assms(1) have "k = l" by simp
  with kl assms(2) show "a = b" by (metis distinct_map inj_onD prod.inject snd_conv)
qed

lemma linux_syscalls_distinct: "syscalls_distinct linux_amd64"
proof -
  have "map fst amd64_numbers = map snd syscall_table"
    by (simp add: amd64_numbers_def syscall_table_def)
  moreover have "distinct (map snd amd64_numbers)" by (simp add: amd64_numbers_def)
  ultimately show ?thesis
    using alist_values_inj [of amd64_numbers "0xFFFFFFFF"] syscall_consts_distinct
    by (simp add: syscalls_distinct_def linux_amd64_def)
qed



end
