(* ===== verification/Capabilities.thy ===== *)
theory Capabilities
  imports Seccomp GoEffects
begin

text \<open>
  \<open>internal/secd/capabilities.go\<close>: capability names, the capability sets handed to \<open>capset\<close>, and
  the bounding set. The numbers of the capabilities are the parameter \<open>uc_CAP\<close> of package
  \<open>unix\<close>; the calls made to the kernel are the values of \<open>sec_call\<close>, which also holds the calls of
  \<open>secd.go\<close> and of the \<open>karim-secd\<close> command.
\<close>

record CapUserData =
  cud_Effective :: u32
  cud_Permitted :: u32
  cud_Inheritable :: u32

datatype sec_call =
    PrctlNoNewPrivs
  | PrctlCapbsetDrop nat
  | Capset "CapUserData list"
  | PrctlSetSeccomp "SockFilter list"
  | UnshareNewNS
  | MountPrivate string
  | MountBind string string
  | MountFs string string
  | MkdirAll string nat
  | PivotRootCall string string
  | Chdir string
  | UnmountDetach string
  | Remove string
  | NotifySIGSYS
  | Exec string "string list"

datatype sec_error =
    UnknownCapability string
  | CapsetFailed string
  | SetNoNewPrivsFailed string
  | SetSeccompFailed string
  | UnshareFailed string
  | MountPrivateFailed string
  | BindMountFailed string string
  | OldrootFailed string string
  | PivotRootFailed string string string
  | ChdirFailed string
  | PivotIsolationFailed sec_error
  | InvalidProfile string seccomp_error
  | ApplyFilterFailed string sec_error

definition cap_names :: "string list" where
  "cap_names = [
     ''CAP_CHOWN'', ''CAP_DAC_OVERRIDE'', ''CAP_DAC_READ_SEARCH'', ''CAP_FOWNER'', ''CAP_FSETID'',
     ''CAP_KILL'', ''CAP_SETGID'', ''CAP_SETUID'', ''CAP_SETPCAP'', ''CAP_LINUX_IMMUTABLE'',
     ''CAP_NET_BIND_SERVICE'', ''CAP_NET_BROADCAST'', ''CAP_NET_ADMIN'', ''CAP_NET_RAW'',
     ''CAP_IPC_LOCK'', ''CAP_IPC_OWNER'', ''CAP_SYS_MODULE'', ''CAP_SYS_RAWIO'', ''CAP_SYS_CHROOT'',
     ''CAP_SYS_PTRACE'', ''CAP_SYS_PACCT'', ''CAP_SYS_ADMIN'', ''CAP_SYS_BOOT'', ''CAP_SYS_NICE'',
     ''CAP_SYS_RESOURCE'', ''CAP_SYS_TIME'', ''CAP_SYS_TTY_CONFIG'', ''CAP_MKNOD'', ''CAP_LEASE'',
     ''CAP_AUDIT_WRITE'', ''CAP_AUDIT_CONTROL'', ''CAP_SETFCAP'', ''CAP_MAC_OVERRIDE'',
     ''CAP_MAC_ADMIN'', ''CAP_SYSLOG'', ''CAP_WAKE_ALARM'', ''CAP_BLOCK_SUSPEND'', ''CAP_AUDIT_READ'',
     ''CAP_PERFMON'', ''CAP_BPF'', ''CAP_CHECKPOINT_RESTORE'']"

definition capNameToNum :: "unix_consts \<Rightarrow> string \<Rightarrow> nat option" where
  "capNameToNum U name = (if name \<in> set cap_names then Some (uc_CAP U name) else None)"

text \<open>The key a capability name is looked up under.\<close>

definition cap_key :: "string \<Rightarrow> string" where
  "cap_key name =
     (let upper = ToUpper (TrimSpace name)
      in if \<not> HasPrefix upper ''CAP_'' then ''CAP_'' @ upper else upper)"

definition ParseCapability :: "unix_consts \<Rightarrow> string \<Rightarrow> (sec_error, nat) result" where
  "ParseCapability U name =
     (case capNameToNum U (cap_key name) of
        Some capNum \<Rightarrow> Inr capNum
      | None \<Rightarrow> Inl (UnknownCapability name))"

text \<open>The four masks of \<open>DropCapabilities\<close>: a Go shift by 32 or more of a 32-bit value gives 0, as \<open>push_bit\<close> does.\<close>

record cap_masks =
  effLow :: u32
  effHigh :: u32
  permLow :: u32
  permHigh :: u32

definition no_caps :: cap_masks where
  "no_caps = \<lparr>effLow = 0, effHigh = 0, permLow = 0, permHigh = 0\<rparr>"

definition keep_cap :: "unix_consts \<Rightarrow> string \<Rightarrow> cap_masks \<Rightarrow> (sec_error, cap_masks) result" where
  "keep_cap U capStr m =
     (if EqualFold (TrimSpace capStr) ''NONE'' then Inr m
      else bind_res (ParseCapability U capStr) (\<lambda>capNum.
        if capNum < 32
        then Inr (m\<lparr>effLow := effLow m OR push_bit capNum 1, permLow := permLow m OR push_bit capNum 1\<rparr>)
        else Inr (m\<lparr>effHigh := effHigh m OR push_bit (capNum - 32) 1,
                    permHigh := permHigh m OR push_bit (capNum - 32) 1\<rparr>)))"

definition cap_data :: "cap_masks \<Rightarrow> CapUserData list" where
  "cap_data m =
     [\<lparr>cud_Effective = effLow m, cud_Permitted = permLow m, cud_Inheritable = 0\<rparr>,
      \<lparr>cud_Effective = effHigh m, cud_Permitted = permHigh m, cud_Inheritable = 0\<rparr>]"

definition keeps_all :: "string list \<Rightarrow> bool" where
  "keeps_all keepCaps \<longleftrightarrow> list_ex (\<lambda>capStr. EqualFold (TrimSpace capStr) ''ALL'') keepCaps"

definition DropCapabilities ::
  "unix_consts \<Rightarrow> sec_call world \<Rightarrow> string list \<Rightarrow> (sec_call, sec_error) action"
where
  "DropCapabilities U w keepCaps =
     (if keeps_all keepCaps then ok
      else (case fold_res (keep_cap U) keepCaps no_caps of
              Inl e \<Rightarrow> fail e
            | Inr m \<Rightarrow> must w (Capset (cap_data m)) CapsetFailed))"

definition DropAllCapabilities :: "unix_consts \<Rightarrow> sec_call world \<Rightarrow> (sec_call, sec_error) action" where
  "DropAllCapabilities U w = DropCapabilities U w [''NONE'']"

text \<open>The first loop of \<open>DropCapabilityBoundingSet\<close>: \<open>None\<close> when it returns early on ALL, otherwise the set kept.\<close>

fun bounding_keep :: "unix_consts \<Rightarrow> string list \<Rightarrow> nat set \<Rightarrow> nat set option" where
  "bounding_keep U [] keepMap = Some keepMap"
| "bounding_keep U (capStr # rest) keepMap =
     (if EqualFold (TrimSpace capStr) ''ALL'' then None
      else if EqualFold (TrimSpace capStr) ''NONE'' then bounding_keep U rest keepMap
      else (case ParseCapability U capStr of
              Inr c \<Rightarrow> bounding_keep U rest (insert c keepMap)
            | Inl e \<Rightarrow> bounding_keep U rest keepMap))"

definition DropCapabilityBoundingSet :: "unix_consts \<Rightarrow> string list \<Rightarrow> (sec_call, sec_error) action" where
  "DropCapabilityBoundingSet U keepCaps =
     (case bounding_keep U keepCaps {} of
        None \<Rightarrow> ok
      | Some keepMap \<Rightarrow> steps (map (\<lambda>c. when_act (c \<notin> keepMap) (attempt (PrctlCapbsetDrop c))) [0..<64]))"

declare capNameToNum_def [go_eval] cap_key_def [go_eval] ParseCapability_def [go_eval] no_caps_def [go_eval]
  keep_cap_def [go_eval] cap_data_def [go_eval] keeps_all_def [go_eval] DropCapabilities_def [go_eval]
  DropAllCapabilities_def [go_eval] DropCapabilityBoundingSet_def [go_eval] cap_names_def [go_eval]

subsection \<open>What is kept\<close>

text \<open>The capabilities a list of names asks to keep.\<close>

definition wanted_caps :: "unix_consts \<Rightarrow> string list \<Rightarrow> nat set" where
  "wanted_caps U names = {c. \<exists>n \<in> set names. \<not> EqualFold (TrimSpace n) ''NONE'' \<and> ParseCapability U n = Inr c}"

text \<open>The 64-bit sets the masks stand for.\<close>

definition mask_set :: "u32 \<Rightarrow> u32 \<Rightarrow> nat set" where
  "mask_set lo hi = {c. if c < 32 then bit lo c else c < 64 \<and> bit hi (c - 32)}"

definition effective_set :: "CapUserData list \<Rightarrow> nat set" where
  "effective_set data = mask_set (cud_Effective (data ! 0)) (cud_Effective (data ! 1))"

definition permitted_set :: "CapUserData list \<Rightarrow> nat set" where
  "permitted_set data = mask_set (cud_Permitted (data ! 0)) (cud_Permitted (data ! 1))"

definition inheritable_set :: "CapUserData list \<Rightarrow> nat set" where
  "inheritable_set data = mask_set (cud_Inheritable (data ! 0)) (cud_Inheritable (data ! 1))"

text \<open>Relied on: the capabilities of package \<open>unix\<close> are numbered below 64.\<close>

definition caps_in_range :: "unix_consts \<Rightarrow> bool" where
  "caps_in_range U \<longleftrightarrow> (\<forall>n \<in> set cap_names. uc_CAP U n < 64)"

lemma ParseCapability_range:
  "caps_in_range U \<Longrightarrow> ParseCapability U n = Inr c \<Longrightarrow> c < 64"
  by (auto simp: ParseCapability_def capNameToNum_def caps_in_range_def split: option.splits if_splits)

lemma bit_or_push: "c < 32 \<Longrightarrow> bit ((x :: u32) OR push_bit k 1) c \<longleftrightarrow> bit x c \<or> c = k"
  by (auto simp: bit_simps)

lemma mask_set_0 [simp]: "mask_set 0 0 = {}"
  by (simp add: mask_set_def)

lemma mask_set_low: "c < 32 \<Longrightarrow> mask_set (lo OR push_bit c 1) hi = insert c (mask_set lo hi)"
  unfolding mask_set_def by (rule set_eqI) (simp add: bit_or_push disj_commute del: push_bit_of_1)

lemma mask_set_high:
  assumes "32 \<le> c" and "c < 64"
  shows "mask_set lo (hi OR push_bit (c - 32) 1) = insert c (mask_set lo hi)"
proof (rule set_eqI)
  fix x
  show "x \<in> mask_set lo (hi OR push_bit (c - 32) 1) \<longleftrightarrow> x \<in> insert c (mask_set lo hi)"
  proof (cases "32 \<le> x \<and> x < 64")
    case True
    then have "bit (hi OR push_bit (c - 32) 1) (x - 32) \<longleftrightarrow> bit hi (x - 32) \<or> x = c"
      using assms by (subst bit_or_push) auto
    with True show ?thesis by (auto simp: mask_set_def)
  next
    case False
    with assms show ?thesis by (auto simp: mask_set_def)
  qed
qed

lemma sets_of_masks:
  assumes "caps_in_range U" and "keep_cap U n m = Inr m'"
  shows "effective_set (cap_data m') = effective_set (cap_data m) \<union> wanted_caps U [n]"
    and "permitted_set (cap_data m') = permitted_set (cap_data m) \<union> wanted_caps U [n]"
proof -
  consider (none) "EqualFold (TrimSpace n) ''NONE''" "m' = m"
    | (low) c where "\<not> EqualFold (TrimSpace n) ''NONE''" "ParseCapability U n = Inr c" "c < 32"
        "m' = m\<lparr>effLow := effLow m OR push_bit c 1, permLow := permLow m OR push_bit c 1\<rparr>"
    | (high) c where "\<not> EqualFold (TrimSpace n) ''NONE''" "ParseCapability U n = Inr c" "32 \<le> c" "c < 64"
        "m' = m\<lparr>effHigh := effHigh m OR push_bit (c - 32) 1, permHigh := permHigh m OR push_bit (c - 32) 1\<rparr>"
    using assms ParseCapability_range [OF assms(1)]
    by (auto simp: keep_cap_def result_simps split: if_splits) (meson leI)
  then have "effective_set (cap_data m') = effective_set (cap_data m) \<union> wanted_caps U [n] \<and>
      permitted_set (cap_data m') = permitted_set (cap_data m) \<union> wanted_caps U [n]"
  proof cases
    case none
    then show ?thesis by (auto simp: wanted_caps_def)
  next
    case low
    then have "wanted_caps U [n] = {c}" by (auto simp: wanted_caps_def)
    with low show ?thesis
      by (simp add: effective_set_def permitted_set_def cap_data_def mask_set_low del: push_bit_of_1)
  next
    case high
    then have "wanted_caps U [n] = {c}" by (auto simp: wanted_caps_def)
    with high show ?thesis
      by (simp add: effective_set_def permitted_set_def cap_data_def mask_set_high del: push_bit_of_1)
  qed
  then show "effective_set (cap_data m') = effective_set (cap_data m) \<union> wanted_caps U [n]"
    and "permitted_set (cap_data m') = permitted_set (cap_data m) \<union> wanted_caps U [n]" by auto
qed

lemma wanted_caps_Cons: "wanted_caps U (n # ns) = wanted_caps U [n] \<union> wanted_caps U ns"
  by (auto simp: wanted_caps_def)

lemma fold_keep_cap_sets:
  assumes "caps_in_range U" and "fold_res (keep_cap U) ns m = Inr m'"
  shows "effective_set (cap_data m') = effective_set (cap_data m) \<union> wanted_caps U ns \<and>
    permitted_set (cap_data m') = permitted_set (cap_data m) \<union> wanted_caps U ns"
  using assms(2)
proof (induction ns arbitrary: m)
  case Nil
  then show ?case by (simp add: wanted_caps_def)
next
  case (Cons n ns)
  then obtain u where "keep_cap U n m = Inr u" "fold_res (keep_cap U) ns u = Inr m'"
    by (auto simp: result_simps)
  with Cons.IH sets_of_masks [OF assms(1)] show ?case by (auto simp: wanted_caps_Cons [of U n ns])
qed

lemma fold_keep_cap_error:
  "fold_res (keep_cap U) ns m = Inl e \<Longrightarrow>
     \<exists>n \<in> set ns. e = UnknownCapability n \<and> cap_key n \<notin> set cap_names"
proof (induction ns arbitrary: m)
  case (Cons n ns)
  then show ?case
    by (auto simp: result_simps keep_cap_def ParseCapability_def capNameToNum_def split: if_splits option.splits)
qed simp

lemma fold_keep_cap_ok:
  "\<forall>n \<in> set ns. cap_key n \<in> set cap_names \<or> EqualFold (TrimSpace n) ''NONE'' \<Longrightarrow>
     \<exists>m'. fold_res (keep_cap U) ns m = Inr m'"
proof (induction ns arbitrary: m)
  case (Cons n ns)
  then have "\<exists>u. keep_cap U n m = Inr u"
    by (auto simp: keep_cap_def ParseCapability_def capNameToNum_def)
  with Cons show ?case by auto
qed simp


lemma linux_caps_in_range: "caps_in_range linux_amd64"
proof -
  have "list_all (\<lambda>n. uc_CAP linux_amd64 n < 64) cap_names"
    by (simp add: linux_amd64_def cap_names_def capability_numbers_def)
  then show ?thesis by (simp add: caps_in_range_def list_all_iff)
qed



lemma bounding_keep_set:
  "\<not> keeps_all names \<Longrightarrow> bounding_keep U names K = Some (K \<union> wanted_caps U names)"
proof (induction names arbitrary: K)
  case (Cons n ns)
  then show ?case
    by (auto simp: keeps_all_def wanted_caps_Cons [of U n ns] split: sum.splits) (auto simp: wanted_caps_def)
qed (simp add: wanted_caps_def)

lemma steps_attempts:
  "steps (map (\<lambda>c. when_act (P c) (attempt (f c))) cs) tr = (None, tr @ map f (filter P cs))"
  by (induction cs arbitrary: tr) (auto simp: action_defs)

lemma bounding_set_calls:
  assumes "\<not> keeps_all names"
  shows "DropCapabilityBoundingSet U names tr =
    (None, tr @ map PrctlCapbsetDrop (filter (\<lambda>c. c \<notin> wanted_caps U names) [0..<64]))"
  using bounding_keep_set [OF assms, of U "{}"]
  by (simp add: DropCapabilityBoundingSet_def steps_attempts del: upt_rec_numeral)

end
