(* ===== verification/SecPolicy.thy ===== *)
theory SecPolicy
  imports Capabilities GoPath
begin

text \<open>
  \<open>internal/secd/secd.go\<close> and \<open>cmd/karim-secd/main.go\<close>: the security policy of a service, its
  enforcement, and the launcher that enforces it and then replaces itself by the service. The
  kernel is the parameter \<open>w\<close>; the command-line flags, parsed by package \<open>flag\<close>, are a record.
  The goroutine that \<open>SetupSIGSYSHandler\<close> starts is represented by the registration of the signal.
\<close>

record SecurityPolicy =
  pol_SeccompProfile :: string
  pol_CapsAdd :: "string list"
  pol_CapsDrop :: "string list"
  pol_NoNewPrivs :: bool
  pol_Rootfs :: string
  pol_MountNS :: bool

definition DefaultSecurityPolicy :: SecurityPolicy where
  "DefaultSecurityPolicy = \<lparr>pol_SeccompProfile = ''app-default'', pol_CapsAdd = [], pol_CapsDrop = [''ALL''],
     pol_NoNewPrivs = True, pol_Rootfs = [], pol_MountNS = False\<rparr>"

definition PivotRoot :: "sec_call world \<Rightarrow> string \<Rightarrow> (sec_call, sec_error) action" where
  "PivotRoot w newRoot =
     (if newRoot = [] then ok
      else
        let putOld = Join_path [newRoot, ''.oldroot'']
        in steps
          [must w UnshareNewNS UnshareFailed,
           must w (MountPrivate ''/'') MountPrivateFailed,
           must w (MountBind newRoot newRoot) (BindMountFailed newRoot),
           must w (MkdirAll putOld 0x1C0) (OldrootFailed newRoot),
           must w (PivotRootCall newRoot putOld) (PivotRootFailed newRoot putOld),
           must w (Chdir ''/'') ChdirFailed,
           attempt (MkdirAll ''/proc'' 0x1ED),
           attempt (MountFs ''proc'' ''/proc''),
           attempt (MkdirAll ''/sys'' 0x1ED),
           attempt (MountFs ''sysfs'' ''/sys''),
           attempt (MkdirAll ''/dev'' 0x1ED),
           attempt (MountFs ''devtmpfs'' ''/dev''),
           attempt (UnmountDetach ''/.oldroot''),
           attempt (Remove ''/.oldroot'')])"

definition ApplySeccompFilter :: "sec_call world \<Rightarrow> SockFilter list \<Rightarrow> (sec_call, sec_error) action" where
  "ApplySeccompFilter w instrs =
     (if instrs = [] then ok
      else and_then (must w PrctlNoNewPrivs SetNoNewPrivsFailed)
             (must w (PrctlSetSeccomp (take (length instrs mod 2 ^ 16) instrs)) SetSeccompFailed))"

definition SetupSIGSYSHandler :: "(sec_call, sec_error) action" where
  "SetupSIGSYSHandler = attempt NotifySIGSYS"

definition enforce_caps :: "unix_consts \<Rightarrow> sec_call world \<Rightarrow> SecurityPolicy \<Rightarrow> (sec_call, sec_error) action" where
  "enforce_caps U w policy =
     when_act (pol_CapsDrop policy \<noteq> [] \<or> pol_CapsAdd policy \<noteq> [])
       (and_then (ignore_err (DropCapabilityBoundingSet U (pol_CapsAdd policy)))
                 (ignore_err (DropCapabilities U w (pol_CapsAdd policy))))"

definition enforce_seccomp :: "unix_consts \<Rightarrow> sec_call world \<Rightarrow> SecurityPolicy \<Rightarrow> (sec_call, sec_error) action" where
  "enforce_seccomp U w policy =
     when_act (pol_SeccompProfile policy \<noteq> [] \<and> pol_SeccompProfile policy \<noteq> ''unrestricted'')
       (and_then SetupSIGSYSHandler
         (case GetProfileFilter U (pol_SeccompProfile policy) ActionKillProcess of
            Inl e \<Rightarrow> fail (InvalidProfile (pol_SeccompProfile policy) e)
          | Inr instrs \<Rightarrow> map_err (ApplyFilterFailed (pol_SeccompProfile policy)) (ApplySeccompFilter w instrs)))"

definition EnforceSecurityPolicy ::
  "unix_consts \<Rightarrow> sec_call world \<Rightarrow> SecurityPolicy option \<Rightarrow> (sec_call, sec_error) action"
where
  "EnforceSecurityPolicy U w p =
     (case p of
        None \<Rightarrow> ok
      | Some policy \<Rightarrow> steps
          [when_act (pol_Rootfs policy \<noteq> []) (map_err PivotIsolationFailed (PivotRoot w (pol_Rootfs policy))),
           when_act (pol_NoNewPrivs policy) (must w PrctlNoNewPrivs SetNoNewPrivsFailed),
           enforce_caps U w policy,
           enforce_seccomp U w policy])"

subsection \<open>The launcher\<close>

record secd_flags =
  fl_profile :: string
  fl_caps_add :: string
  fl_caps_drop :: string
  fl_no_new_privs :: bool
  fl_exec :: string
  fl_rootfs :: string
  fl_mount_ns :: bool
  fl_args :: "string list"

definition secd_default_flags :: secd_flags where
  "secd_default_flags = \<lparr>fl_profile = ''app-default'', fl_caps_add = [], fl_caps_drop = ''ALL'',
     fl_no_new_privs = True, fl_exec = [], fl_rootfs = [], fl_mount_ns = False, fl_args = []\<rparr>"

text \<open>The program to run and its argument vector; \<open>None\<close> when there is none.\<close>

definition secd_target :: "secd_flags \<Rightarrow> (string \<times> string list) option" where
  "secd_target f =
     (if fl_exec f = [] then (case fl_args f of [] \<Rightarrow> None | a # as \<Rightarrow> if a = [] then None else Some (a, a # as))
      else Some (fl_exec f, fl_exec f # fl_args f))"

definition secd_policy :: "secd_flags \<Rightarrow> SecurityPolicy" where
  "secd_policy f =
     \<lparr>pol_SeccompProfile = fl_profile f,
      pol_CapsAdd = (if fl_caps_add f \<noteq> [] then Split (fl_caps_add f) CHR '','' else []),
      pol_CapsDrop = (if fl_caps_drop f \<noteq> [] then Split (fl_caps_drop f) CHR '','' else []),
      pol_NoNewPrivs = fl_no_new_privs f,
      pol_Rootfs = fl_rootfs f,
      pol_MountNS = (fl_mount_ns f \<or> fl_rootfs f \<noteq> [])\<rparr>"

text \<open>How the launcher ends: it exits with a status, or it has become the service.\<close>

datatype secd_outcome = SecdExit nat | SecdReplaced

definition secd_main :: "unix_consts \<Rightarrow> sec_call world \<Rightarrow> secd_flags \<Rightarrow> sec_call list \<Rightarrow> secd_outcome \<times> sec_call list" where
  "secd_main U w f tr =
     (case secd_target f of
        None \<Rightarrow> (SecdExit 1, tr)
      | Some (targetExec, targetArgs) \<Rightarrow>
          (case EnforceSecurityPolicy U w (Some (secd_policy f)) tr of
             (Some e, tr1) \<Rightarrow> (SecdExit 1, tr1)
           | (None, tr1) \<Rightarrow>
               (case w tr1 (Exec targetExec targetArgs) of
                  Some e \<Rightarrow> (SecdExit 1, tr1 @ [Exec targetExec targetArgs])
                | None \<Rightarrow> (SecdReplaced, tr1 @ [Exec targetExec targetArgs]))))"

subsection \<open>The calls of each phase\<close>

lemma DropCapabilities_trace:
  "DropCapabilities U w names tr = (r, tr') \<Longrightarrow> tr' = tr \<or> (\<exists>data. tr' = tr @ [Capset data])"
  by (auto simp: DropCapabilities_def ok_def fail_def must_def split: if_splits sum.splits)

lemma bounding_set_ok: "fst (DropCapabilityBoundingSet U names tr) = None"
  by (cases "bounding_keep U names {}")
    (auto simp: DropCapabilityBoundingSet_def ok_def steps_attempts simp del: upt_rec_numeral)

lemma bounding_set_trace:
  "\<exists>ds. snd (DropCapabilityBoundingSet U names tr) = tr @ map PrctlCapbsetDrop ds"
  by (cases "bounding_keep U names {}")
    (auto simp: DropCapabilityBoundingSet_def ok_def steps_attempts simp del: upt_rec_numeral)

text \<open>Capability dropping never reports an error and only makes capability calls.\<close>

definition is_cap_call :: "sec_call \<Rightarrow> bool" where
  "is_cap_call c \<longleftrightarrow> (case c of PrctlCapbsetDrop _ \<Rightarrow> True | Capset _ \<Rightarrow> True | _ \<Rightarrow> False)"

lemma enforce_caps_trace:
  "\<exists>ds. enforce_caps U w policy tr = (None, tr @ ds) \<and> list_all is_cap_call ds"
proof (cases "pol_CapsDrop policy \<noteq> [] \<or> pol_CapsAdd policy \<noteq> []")
  case True
  let ?t1 = "snd (DropCapabilityBoundingSet U (pol_CapsAdd policy) tr)"
  obtain ds where ds: "?t1 = tr @ map PrctlCapbsetDrop ds" using bounding_set_trace by blast
  obtain es where es: "snd (DropCapabilities U w (pol_CapsAdd policy) ?t1) = ?t1 @ es" "list_all is_cap_call es"
    using DropCapabilities_trace [of U w "pol_CapsAdd policy" ?t1]
    by (cases "DropCapabilities U w (pol_CapsAdd policy) ?t1") (auto simp: is_cap_call_def)
  have "enforce_caps U w policy tr = (None, tr @ map PrctlCapbsetDrop ds @ es)"
    using True ds es(1) by (auto simp: enforce_caps_def when_act_def and_then_def ignore_err_def)
  moreover have "list_all is_cap_call (map PrctlCapbsetDrop ds @ es)"
    using es(2) by (auto simp: list_all_iff is_cap_call_def)
  ultimately show ?thesis by blast
next
  case False
  then show ?thesis by (simp add: enforce_caps_def when_act_def ok_def)
qed

lemma enforce_caps_success:
  assumes "caps_in_range U" and "pol_CapsDrop policy \<noteq> [] \<or> pol_CapsAdd policy \<noteq> []"
    and "\<not> keeps_all (pol_CapsAdd policy)"
    and "\<forall>n \<in> set (pol_CapsAdd policy). cap_key n \<in> set cap_names \<or> EqualFold (TrimSpace n) ''NONE''"
  shows "\<exists>m. fold_res (keep_cap U) (pol_CapsAdd policy) no_caps = Inr m \<and>
    enforce_caps U w policy tr = (None, tr @
      map PrctlCapbsetDrop (filter (\<lambda>c. c \<notin> wanted_caps U (pol_CapsAdd policy)) [0..<64]) @ [Capset (cap_data m)])"
proof -
  obtain m where m: "fold_res (keep_cap U) (pol_CapsAdd policy) no_caps = Inr m"
    using fold_keep_cap_ok [OF assms(4)] by blast
  with assms(2,3) show ?thesis
    by (auto simp: enforce_caps_def when_act_def and_then_def ignore_err_def bounding_set_calls
        DropCapabilities_def must_def simp del: upt_rec_numeral)
qed

text \<open>The calls of \<open>PivotRoot\<close> and of the seccomp phase.\<close>

definition pivot_calls :: "string \<Rightarrow> sec_call list" where
  "pivot_calls newRoot =
     [UnshareNewNS, MountPrivate ''/'', MountBind newRoot newRoot, MkdirAll (Join_path [newRoot, ''.oldroot'']) 0x1C0,
      PivotRootCall newRoot (Join_path [newRoot, ''.oldroot'']), Chdir ''/'',
      MkdirAll ''/proc'' 0x1ED, MountFs ''proc'' ''/proc'', MkdirAll ''/sys'' 0x1ED, MountFs ''sysfs'' ''/sys'',
      MkdirAll ''/dev'' 0x1ED, MountFs ''devtmpfs'' ''/dev'', UnmountDetach ''/.oldroot'', Remove ''/.oldroot'']"

lemma PivotRoot_follows: "newRoot \<noteq> [] \<Longrightarrow> follows (PivotRoot w newRoot) (pivot_calls newRoot)"
  unfolding PivotRoot_def pivot_calls_def Let_def
  by (simp only: if_False, rule follows_steps_single) (simp add: follows_must follows_attempt)

lemma profile_program:
  assumes "GetProfileFilter U p act = Inr instrs"
  shows "instrs \<noteq> []" "take (length instrs mod 2 ^ 16) instrs = instrs"
proof -
  have lens: "length strict_names \<le> 255" "length app_default_names \<le> 255" "length net_service_names \<le> 255"
    using profile_list_facts(2) [of "''strict''" strict_names]
      profile_list_facts(2) [of "''app-default''" app_default_names]
      profile_list_facts(2) [of "''net-service''" net_service_names]
    by (simp_all add: profile_lists_def)
  have comp: "0 < length (compileFromNames U names act) \<and> length (compileFromNames U names act) < 2 ^ 16"
    if "length names \<le> 255" for names
    using collect_nums_length [of U names "[]"] that by (simp add: compileFromNames_def whitelist.program_length)
  have "length instrs = 1 \<or> (\<exists>names. length names \<le> 255 \<and> instrs = compileFromNames U names act)"
    using assms lens unfolding GetProfileFilter_def Let_def by (auto split: if_splits)
  with comp have "0 < length instrs \<and> length instrs < 2 ^ 16" by auto
  then show "instrs \<noteq> []" "take (length instrs mod 2 ^ 16) instrs = instrs" by auto
qed

definition filter_requested :: "SecurityPolicy \<Rightarrow> bool" where
  "filter_requested policy \<longleftrightarrow> pol_SeccompProfile policy \<noteq> [] \<and> pol_SeccompProfile policy \<noteq> ''unrestricted''"

lemma enforce_seccomp_success:
  assumes "enforce_seccomp U w policy tr = (None, tr')"
  shows "(\<not> filter_requested policy \<and> tr' = tr) \<or>
    (\<exists>instrs. filter_requested policy \<and>
      GetProfileFilter U (pol_SeccompProfile policy) ActionKillProcess = Inr instrs \<and>
      tr' = tr @ [NotifySIGSYS, PrctlNoNewPrivs, PrctlSetSeccomp instrs])"
proof (cases "filter_requested policy")
  case False
  with assms show ?thesis by (auto simp: filter_requested_def enforce_seccomp_def when_act_def ok_def)
next
  case True
  then obtain instrs where f: "GetProfileFilter U (pol_SeccompProfile policy) ActionKillProcess = Inr instrs"
    using assms
    by (cases "GetProfileFilter U (pol_SeccompProfile policy) ActionKillProcess")
      (auto simp: filter_requested_def enforce_seccomp_def when_act_def and_then_def SetupSIGSYSHandler_def attempt_def fail_def)
  with True assms profile_program [OF f] show ?thesis
    by (auto simp: filter_requested_def enforce_seccomp_def when_act_def SetupSIGSYSHandler_def
        ApplySeccompFilter_def and_then_def attempt_def map_err_def must_def split: option.splits)
qed

lemma enforce_success:
  assumes "EnforceSecurityPolicy U w (Some policy) tr = (None, tr')"
  shows "\<exists>caps sc. tr' = tr @ (if pol_Rootfs policy \<noteq> [] then pivot_calls (pol_Rootfs policy) else []) @
      (if pol_NoNewPrivs policy then [PrctlNoNewPrivs] else []) @ caps @ sc \<and>
    list_all is_cap_call caps \<and>
    (if filter_requested policy
     then \<exists>instrs. GetProfileFilter U (pol_SeccompProfile policy) ActionKillProcess = Inr instrs \<and>
            sc = [NotifySIGSYS, PrctlNoNewPrivs, PrctlSetSeccomp instrs]
     else sc = [])"
proof -
  from assms obtain t1 t2 t3 where
    t1: "when_act (pol_Rootfs policy \<noteq> []) (map_err PivotIsolationFailed (PivotRoot w (pol_Rootfs policy))) tr = (None, t1)"
    and t2: "when_act (pol_NoNewPrivs policy) (must w PrctlNoNewPrivs SetNoNewPrivsFailed) t1 = (None, t2)"
    and t3: "enforce_caps U w policy t2 = (None, t3)" and t4: "enforce_seccomp U w policy t3 = (None, tr')"
    by (auto simp: EnforceSecurityPolicy_def and_then_None)
  have "follows (when_act (pol_Rootfs policy \<noteq> []) (map_err PivotIsolationFailed (PivotRoot w (pol_Rootfs policy))))
      (if pol_Rootfs policy \<noteq> [] then pivot_calls (pol_Rootfs policy) else [])"
    by (simp add: when_act_def follows_ok follows_map_err PivotRoot_follows)
  then have "t1 = tr @ (if pol_Rootfs policy \<noteq> [] then pivot_calls (pol_Rootfs policy) else [])"
    by (rule followsD) (rule t1)
  moreover have "t2 = t1 @ (if pol_NoNewPrivs policy then [PrctlNoNewPrivs] else [])"
    by (rule followsD [OF follows_when_act [OF follows_must] t2])
  moreover obtain caps where "t3 = t2 @ caps" "list_all is_cap_call caps"
    using enforce_caps_trace [of U w policy t2] t3 by auto
  ultimately show ?thesis using enforce_seccomp_success [OF t4] by auto
qed

text \<open>No phase executes a program, whether it succeeds or not.\<close>

definition execs :: "sec_call list \<Rightarrow> sec_call list" where
  "execs tr = filter (\<lambda>c. case c of Exec _ _ \<Rightarrow> True | _ \<Rightarrow> False) tr"

definition no_new_exec :: "(sec_call, 'e) action \<Rightarrow> bool" where
  "no_new_exec m \<longleftrightarrow> (\<forall>tr. execs (snd (m tr)) = execs tr)"

lemma execs_append [simp]: "execs (a @ b) = execs a @ execs b"
  by (simp add: execs_def)

lemma no_new_exec_follows: "follows m cs \<Longrightarrow> execs cs = [] \<Longrightarrow> no_new_exec m"
  unfolding no_new_exec_def follows_def
  by (metis execs_append append_Nil2 prefixE append_is_Nil_conv)

lemma no_new_exec_and_then: "no_new_exec m \<Longrightarrow> no_new_exec k \<Longrightarrow> no_new_exec (and_then m k)"
  by (auto simp: no_new_exec_def and_then_def split: prod.splits option.splits) (metis snd_conv)+

lemma no_new_exec_steps: "list_all no_new_exec ms \<Longrightarrow> no_new_exec (steps ms)"
proof (induction ms)
  case Nil
  show ?case by (simp add: no_new_exec_def ok_def)
next
  case (Cons m ms)
  then show ?case by (simp add: no_new_exec_and_then)
qed

lemma no_new_exec_caps: "no_new_exec (enforce_caps U w policy)"
  unfolding no_new_exec_def
proof
  fix tr
  obtain ds where "enforce_caps U w policy tr = (None, tr @ ds)" "list_all is_cap_call ds"
    using enforce_caps_trace by blast
  moreover then have "execs ds = []"
    by (auto simp: execs_def filter_empty_conv list_all_iff is_cap_call_def split: sec_call.splits)
  ultimately show "execs (snd (enforce_caps U w policy tr)) = execs tr" by simp
qed

lemma no_new_exec_seccomp: "no_new_exec (enforce_seccomp U w policy)"
proof -
  have "no_new_exec (case g of Inl e \<Rightarrow> fail (InvalidProfile p e) | Inr instrs \<Rightarrow>
      map_err (ApplyFilterFailed p) (ApplySeccompFilter w instrs))" for p g
    by (auto simp: no_new_exec_def fail_def map_err_def ApplySeccompFilter_def ok_def must_def and_then_def execs_def
        split: sum.splits option.splits)
  moreover have "no_new_exec SetupSIGSYSHandler"
    by (simp add: SetupSIGSYSHandler_def attempt_def no_new_exec_def execs_def)
  moreover have "no_new_exec (ok :: (sec_call, sec_error) action)" by (simp add: no_new_exec_def ok_def)
  ultimately show ?thesis
    by (simp add: enforce_seccomp_def when_act_def no_new_exec_and_then)
qed

lemma enforce_no_exec:
  assumes "EnforceSecurityPolicy U w (Some policy) [] = (r, tr)"
  shows "Exec p a \<notin> set tr"
proof -
  have pivot: "no_new_exec (when_act (pol_Rootfs policy \<noteq> []) (map_err PivotIsolationFailed (PivotRoot w (pol_Rootfs policy))))"
    using follows_map_err [OF PivotRoot_follows [of "pol_Rootfs policy" w]]
    by (cases "pol_Rootfs policy = []")
      (auto simp: when_act_def no_new_exec_def ok_def intro!: no_new_exec_follows [unfolded no_new_exec_def, rule_format],
        auto simp: execs_def pivot_calls_def)
  have nnp: "no_new_exec (when_act b (must w PrctlNoNewPrivs SetNoNewPrivsFailed))" for b
    by (simp add: when_act_def no_new_exec_def ok_def must_def execs_def)
  have "no_new_exec (EnforceSecurityPolicy U w (Some policy))"
    unfolding EnforceSecurityPolicy_def option.case
    by (rule no_new_exec_steps) (simp add: pivot nnp no_new_exec_caps no_new_exec_seccomp)
  with assms have "execs tr = []" by (auto simp: no_new_exec_def execs_def dest: spec [of _ "[]"])
  then show ?thesis by (auto simp: execs_def filter_empty_conv)
qed

subsection \<open>Properties of enforcement\<close>

text \<open>Under the default policy the launcher gives up everything it can, in a safe order. For
  every behaviour of the kernel the calls made are, in this order and without any other: set
  no-new-privileges, drop all 64 capabilities from the bounding set, set empty capability sets,
  register for SIGSYS, and load the app-default filter; on an error a prefix of them has been made.\<close>

theorem default_policy_calls:
  "follows (EnforceSecurityPolicy U w (Some DefaultSecurityPolicy))
     ([PrctlNoNewPrivs] @ map PrctlCapbsetDrop [0..<64] @ [Capset (cap_data no_caps)] @
      [NotifySIGSYS, PrctlNoNewPrivs, PrctlSetSeccomp (compileFromNames U app_default_names ActionKillProcess)])"
proof -
  let ?f = "compileFromNames U app_default_names ActionKillProcess"
  have prof: "GetProfileFilter U ''app-default'' ActionKillProcess = Inr ?f"
    by (rule profile_list_facts(3)) (simp add: profile_lists_def)
  have caps: "follows (enforce_caps U w DefaultSecurityPolicy) (map PrctlCapbsetDrop [0..<64] @ [Capset (cap_data no_caps)])"
    by (simp add: follows_def enforce_caps_def when_act_def DefaultSecurityPolicy_def and_then_def ignore_err_def
        bounding_set_calls keeps_all_def wanted_caps_def DropCapabilities_def must_def del: upt_rec_numeral)
  have "follows (and_then SetupSIGSYSHandler (map_err (ApplyFilterFailed ''app-default'') (ApplySeccompFilter w ?f)))
      ([NotifySIGSYS] @ [PrctlNoNewPrivs] @ [PrctlSetSeccomp ?f])"
    using profile_program [OF prof]
    by (simp only: SetupSIGSYSHandler_def ApplySeccompFilter_def if_False)
      (intro follows_and_then follows_attempt follows_map_err follows_must)
  then have sc: "follows (enforce_seccomp U w DefaultSecurityPolicy) [NotifySIGSYS, PrctlNoNewPrivs, PrctlSetSeccomp ?f]"
    by (simp add: enforce_seccomp_def when_act_def DefaultSecurityPolicy_def prof)
  have "follows (steps [ok, must w PrctlNoNewPrivs SetNoNewPrivsFailed, enforce_caps U w DefaultSecurityPolicy,
      enforce_seccomp U w DefaultSecurityPolicy])
    (concat [[], [PrctlNoNewPrivs], map PrctlCapbsetDrop [0..<64] @ [Capset (cap_data no_caps)],
      [NotifySIGSYS, PrctlNoNewPrivs, PrctlSetSeccomp ?f]])"
    by (rule follows_steps) (simp add: follows_ok follows_must caps sc del: upt_rec_numeral)
  moreover have "EnforceSecurityPolicy U w (Some DefaultSecurityPolicy) =
      steps [ok, must w PrctlNoNewPrivs SetNoNewPrivsFailed, enforce_caps U w DefaultSecurityPolicy,
        enforce_seccomp U w DefaultSecurityPolicy]"
    unfolding EnforceSecurityPolicy_def by (simp add: when_act_def DefaultSecurityPolicy_def)
  ultimately show ?thesis by simp
qed


lemma default_target: "secd_target (secd_default_flags\<lparr>fl_exec := ''/bin/app''\<rparr>) = Some (''/bin/app'', [''/bin/app''])"
  by (simp add: secd_target_def secd_default_flags_def)


text \<open>A misspelt capability disables the whole reduction. If one name of the list to keep is
  not a capability (and none is ALL), the phase still reports success, but no capability sets are
  installed: the service keeps every capability the launcher had.\<close>

theorem unknown_capability_keeps_all:
  assumes "n \<in> set (pol_CapsAdd policy)" and "cap_key n \<notin> set cap_names"
    and "\<not> EqualFold (TrimSpace n) ''NONE''" and "\<not> keeps_all (pol_CapsAdd policy)"
  shows "enforce_caps U w policy tr =
    (None, tr @ map PrctlCapbsetDrop (filter (\<lambda>c. c \<notin> wanted_caps U (pol_CapsAdd policy)) [0..<64]))"
proof -
  have "\<exists>e. fold_res (keep_cap U) ns m = Inl e" if "n \<in> set ns" for ns m
    using that
  proof (induction ns arbitrary: m)
    case (Cons k ns)
    show ?case
    proof (cases "keep_cap U k m")
      case (Inr m')
      with assms(2,3) have "n \<noteq> k" by (auto simp: keep_cap_def ParseCapability_def capNameToNum_def)
      with Cons Inr show ?thesis by auto
    qed simp
  qed simp
  then obtain e where "fold_res (keep_cap U) (pol_CapsAdd policy) no_caps = Inl e" using assms(1) by blast
  moreover have "pol_CapsAdd policy \<noteq> []" using assms(1) by auto
  ultimately show ?thesis
    using assms(4) by (simp add: enforce_caps_def when_act_def and_then_def ignore_err_def bounding_set_calls
        DropCapabilities_def fail_def del: upt_rec_numeral)
qed

theorem unknown_capability_keeps_all_witness:
  "\<exists>ds. enforce_caps linux_amd64 all_ok (DefaultSecurityPolicy\<lparr>pol_CapsAdd := [''NET_BIND'']\<rparr>) [] =
     (None, map PrctlCapbsetDrop ds)"
  using unknown_capability_keeps_all [of "''NET_BIND''" "DefaultSecurityPolicy\<lparr>pol_CapsAdd := [''NET_BIND'']\<rparr>" linux_amd64 all_ok "[]"]
  by (auto simp: go_eval simp del: upt_rec_numeral)

end
