(* ===== verification/SvcLaunch.thy ===== *)
theory SvcLaunch
  imports SvcSupervisor SecPolicy GoFlag
begin

text \<open>
  From a service specification to the policy that is enforced: the command line that the supervisor
  builds for \<open>karim-secd\<close> (\<open>internal/svcd/supervisor.go\<close>), parsed by package \<open>flag\<close> with the flags that
  \<open>cmd/karim-secd/main.go\<close> declares, and the policy this gives.
\<close>

definition secd_kinds :: "string \<Rightarrow> flag_kind option" where
  "secd_kinds name =
     (if name \<in> {''profile'', ''caps-add'', ''caps-drop'', ''exec'', ''rootfs''} then Some FString
      else if name \<in> {''no-new-privs'', ''mount-ns''} then Some FBool
      else None)"

definition secd_set_string :: "string \<Rightarrow> string \<Rightarrow> secd_flags \<Rightarrow> secd_flags" where
  "secd_set_string name v f =
     (if name = ''profile'' then f\<lparr>fl_profile := v\<rparr>
      else if name = ''caps-add'' then f\<lparr>fl_caps_add := v\<rparr>
      else if name = ''caps-drop'' then f\<lparr>fl_caps_drop := v\<rparr>
      else if name = ''exec'' then f\<lparr>fl_exec := v\<rparr>
      else f\<lparr>fl_rootfs := v\<rparr>)"

definition secd_set_bool :: "string \<Rightarrow> bool \<Rightarrow> secd_flags \<Rightarrow> secd_flags" where
  "secd_set_bool name v f = (if name = ''no-new-privs'' then f\<lparr>fl_no_new_privs := v\<rparr> else f\<lparr>fl_mount_ns := v\<rparr>)"

text \<open>\<open>flag.Parse\<close> and \<open>flag.Args\<close> on the arguments after the program name.\<close>

definition secd_parse :: "string list \<Rightarrow> (flag_error, secd_flags) result" where
  "secd_parse args =
     bind_res (parse_flags secd_kinds secd_set_string secd_set_bool args secd_default_flags)
       (\<lambda>(f, rest). Inr (f\<lparr>fl_args := rest\<rparr>))"

lemma Split_Join:
  "xs \<noteq> [] \<Longrightarrow> \<forall>x \<in> set xs. c \<notin> set x \<Longrightarrow> Split (Join_strings xs [c]) c = xs"
proof (induction xs rule: induct_list012)
  case (2 x)
  then show ?case by (simp add: Split_no_sep)
next
  case (3 x y zs)
  then show ?case by (simp add: Split_append_sep)
qed simp

lemma Join_neq_Nil: "xs \<noteq> [] \<Longrightarrow> \<forall>x \<in> set xs. x \<noteq> [] \<Longrightarrow> Join_strings xs sep \<noteq> []"
  by (induction xs rule: induct_list012) auto

text \<open>Parsing a flag that takes the next argument as its value, and the two other forms that occur.\<close>

lemma parse_string_flags:
  "parse_flags secd_kinds secd_set_string secd_set_bool (''-profile'' # v # rest) f =
     parse_flags secd_kinds secd_set_string secd_set_bool rest (f\<lparr>fl_profile := v\<rparr>)"
  "parse_flags secd_kinds secd_set_string secd_set_bool (''-exec'' # v # rest) f =
     parse_flags secd_kinds secd_set_string secd_set_bool rest (f\<lparr>fl_exec := v\<rparr>)"
  "parse_flags secd_kinds secd_set_string secd_set_bool (''-caps-add'' # v # rest) f =
     parse_flags secd_kinds secd_set_string secd_set_bool rest (f\<lparr>fl_caps_add := v\<rparr>)"
  "parse_flags secd_kinds secd_set_string secd_set_bool (''-caps-drop'' # v # rest) f =
     parse_flags secd_kinds secd_set_string secd_set_bool rest (f\<lparr>fl_caps_drop := v\<rparr>)"
  by (simp_all add: flag_name_def split_flag_def SplitN2_def secd_kinds_def secd_set_string_def)

lemma parse_nnp_false:
  "parse_flags secd_kinds secd_set_string secd_set_bool (''-no-new-privs=false'' # rest) f =
     parse_flags secd_kinds secd_set_string secd_set_bool rest (f\<lparr>fl_no_new_privs := False\<rparr>)"
  by (simp add: flag_name_def split_flag_def SplitN2_def secd_kinds_def ParseBool_def secd_set_bool_def)

lemma parse_end: "parse_flags secd_kinds secd_set_string secd_set_bool (''--'' # rest) f = Inr (f, rest)"
  by (simp add: flag_name_def)

lemma secd_args_parse:
  "secd_parse (secd_args spec p) = Inr (secd_default_flags\<lparr>fl_profile := spec_SeccompProfile spec, fl_exec := p,
     fl_caps_add := (if spec_CapabilitiesAdd spec \<noteq> [] then Join_strings (spec_CapabilitiesAdd spec) '','' else []),
     fl_caps_drop := (if spec_CapabilitiesDrop spec \<noteq> [] then Join_strings (spec_CapabilitiesDrop spec) '','' else ''ALL''),
     fl_no_new_privs := spec_NoNewPrivs spec, fl_args := spec_Args spec\<rparr>)"
  by (simp add: secd_parse_def secd_args_def parse_string_flags parse_nnp_false parse_end secd_default_flags_def
      del: parse_flags.simps)

text \<open>C8: the launcher enforces the specification. Whatever the arguments of the service are, the
  command line the supervisor builds is parsed by the launcher into the service's own profile,
  capabilities, no-new-privileges setting and program, and the service's arguments reach it
  unchanged; a service that lists no capabilities to drop drops all.\<close>

theorem launcher_enforces_spec:
  assumes "\<forall>c \<in> set (spec_CapabilitiesAdd spec) \<union> set (spec_CapabilitiesDrop spec). c \<noteq> [] \<and> CHR '','' \<notin> set c"
    and "p \<noteq> []"
  shows "\<exists>f. secd_parse (secd_args spec p) = Inr f \<and> secd_target f = Some (p, p # spec_Args spec) \<and>
    secd_policy f = \<lparr>pol_SeccompProfile = spec_SeccompProfile spec, pol_CapsAdd = spec_CapabilitiesAdd spec,
      pol_CapsDrop = (if spec_CapabilitiesDrop spec = [] then [''ALL''] else spec_CapabilitiesDrop spec),
      pol_NoNewPrivs = spec_NoNewPrivs spec, pol_Rootfs = [], pol_MountNS = False\<rparr>"
proof -
  have caps: "Split (Join_strings cs '','') CHR '','' = cs" "Join_strings cs '','' \<noteq> []"
    if "cs \<noteq> []" "cs = spec_CapabilitiesAdd spec \<or> cs = spec_CapabilitiesDrop spec" for cs
    using that assms(1) by (auto intro!: Split_Join simp: Join_neq_Nil)
  have "Split ''ALL'' CHR '','' = [''ALL'']" by simp
  with caps [of "spec_CapabilitiesAdd spec"] caps [of "spec_CapabilitiesDrop spec"] assms(2) secd_args_parse [of spec p]
  show ?thesis by (auto simp: secd_target_def secd_policy_def secd_default_flags_def)
qed

theorem launcher_enforces_spec_witness:
  "\<exists>f. secd_parse (secd_args (example_spec\<lparr>spec_CapabilitiesAdd := [''NET_RAW'', ''KILL''], spec_Args := [''-x'', ''--'']\<rparr>) ''/bin/httpd'') = Inr f \<and>
     secd_target f = Some (''/bin/httpd'', [''/bin/httpd'', ''-x'', ''--''])"
  using launcher_enforces_spec [of "example_spec\<lparr>spec_CapabilitiesAdd := [''NET_RAW'', ''KILL''], spec_Args := [''-x'', ''--'']\<rparr>" "''/bin/httpd''"]
  by (auto simp: example_spec_def default_spec_def)

end
