(* ===== verification/MockQmp.thy ===== *)
theory MockQmp
  imports Qmp VsockServer VsockTransport GoPath "HOL-Library.AList" "HOL-Library.Multiset"
begin

text \<open>
  \<open>testing/mock_qmp_server.go\<close>: the stand-in for the hypervisor that the snapshot tests run against, a
  monitor that keeps a table of snapshots, beside a control server whose provider does nothing.
  Reading a request line as JSON and encoding an answer text are parameters (\<open>mock_json\<close>); the order in which
  Go ranges over the map of snapshots is the parameter \<open>order\<close>.
\<close>

subsection \<open>The provider\<close>

record mockVSock =
  mv_quiesced :: bool

definition mock_provider :: "mockVSock ServiceProvider" where
  "mock_provider =
     \<lparr>prov_ListServices = \<lambda>m. (Inr [], m),
      prov_StartService = \<lambda>_ m. (None, m),
      prov_StopService = \<lambda>_ m. (None, m),
      prov_GetServiceLogs = \<lambda>_ m. (Inr [], m),
      prov_Quiesce = \<lambda>m. (None, m\<lparr>mv_quiesced := True\<rparr>),
      prov_Unquiesce = \<lambda>m. (None, m\<lparr>mv_quiesced := False\<rparr>),
      prov_LoadService = \<lambda>_ m. (None, m),
      prov_ApplyBundle = \<lambda>_ m. (None, m)\<rparr>"

subsection \<open>The monitor\<close>

type_synonym snapshots = "(string \<times> string) list"

record mock_json =
  mj_request :: "string \<Rightarrow> string \<times> string"
  mj_return :: "string \<Rightarrow> string"

text \<open>The literals of the answers; a quotation mark is the byte 0x22, a backslash 0x5C.\<close>

definition json_string :: "string \<Rightarrow> string" where
  "json_string s = CHR 0x22 # s @ [CHR 0x22]"

definition greeting :: string where
  "greeting =
     ''{'' @ json_string ''QMP'' @ '': {'' @ json_string ''version'' @ '': {'' @ json_string ''qemu'' @ '': {'' @ json_string ''major'' @ '': 8, '' @
     json_string ''minor'' @ '': 2, '' @ json_string ''micro'' @ '': 0}}, '' @ json_string ''capabilities'' @ '': []}}'' @ newline"

definition return_empty :: string where
  "return_empty = ''{'' @ json_string ''return'' @ '': {}}'' @ newline"

definition return_text :: "string \<Rightarrow> string" where
  "return_text s = ''{'' @ json_string ''return'' @ '': '' @ json_string s @ ''}'' @ newline"

definition return_error :: "string \<Rightarrow> string" where
  "return_error desc =
     ''{'' @ json_string ''error'' @ '': {'' @ json_string ''class'' @ '': '' @ json_string ''CommandNotFound'' @ '', '' @
     json_string ''desc'' @ '': '' @ json_string desc @ ''}}'' @ newline"

definition return_status :: string where
  "return_status =
     ''{'' @ json_string ''return'' @ '': {'' @ json_string ''running'' @ '': true, '' @ json_string ''singlestep'' @ '': false, '' @
     json_string ''status'' @ '': '' @ json_string ''running'' @ ''}}'' @ newline"

definition done_text :: "string \<Rightarrow> string \<Rightarrow> string" where
  "done_text tag what = ''Snapshot '' @ tag @ '' '' @ what @ [CHR 0x5C, CHR ''n'']"

text \<open>The verb \<open>%-18s\<close>, and one line per snapshot, numbered from one.\<close>

definition pad_right :: "nat \<Rightarrow> string \<Rightarrow> string" where
  "pad_right n s = s @ replicate (n - length s) CHR '' ''"

definition info_row :: "nat \<Rightarrow> string \<Rightarrow> string \<Rightarrow> string" where
  "info_row i tag date = show_nat i @ ''         '' @ pad_right 18 tag @ '' '' @ date @ ''   00:00:10.000''"

fun info_rows :: "nat \<Rightarrow> snapshots \<Rightarrow> string" where
  "info_rows i [] = []"
| "info_rows i ((tag, date) # rest) = info_row i tag date @ newline @ info_rows (i + 1) rest"

definition info_str :: "snapshots \<Rightarrow> string" where
  "info_str snaps =
     ''Snapshot devices: drive0'' @ newline @ ''Snapshot list (drives):'' @ newline @
     ''ID        TAG                 VM SIZE       DATE       VM CLOCK'' @ newline @ info_rows 1 snaps"

definition mock_date :: string where
  "mock_date = ''32M 2026-09-17 12:00:00''"

text \<open>The answer to a monitor command line, and the snapshots after it.\<close>

definition monitor_command :: "mock_json \<Rightarrow> (snapshots \<Rightarrow> snapshots) \<Rightarrow> string \<Rightarrow> snapshots \<Rightarrow> string \<times> snapshots" where
  "monitor_command J order cmdLine snaps =
     (if HasPrefix cmdLine ''savevm '' then
        (let tag = TrimPrefix cmdLine ''savevm '' in (return_text (done_text tag ''saved''), AList.update tag mock_date snaps))
      else if HasPrefix cmdLine ''loadvm '' then
        (let tag = TrimPrefix cmdLine ''loadvm '' in (return_text (done_text tag ''restored''), snaps))
      else if HasPrefix cmdLine ''delvm '' then
        (let tag = TrimPrefix cmdLine ''delvm '' in (return_text (done_text tag ''deleted''), AList.delete tag snaps))
      else if cmdLine = ''info snapshots'' then (mj_return J (info_str (order snaps)) @ newline, snaps)
      else (return_text ''OK'', snaps))"

text \<open>One request of a connection: what is written, whether capabilities are negotiated, the snapshots.\<close>

definition mock_request ::
  "mock_json \<Rightarrow> (snapshots \<Rightarrow> snapshots) \<Rightarrow> string \<Rightarrow> bool \<Rightarrow> snapshots \<Rightarrow> string \<times> bool \<times> snapshots"
where
  "mock_request J order line isCaps snaps =
     (case mj_request J line of (cmd, cmdLine) \<Rightarrow>
        if cmd = ''qmp_capabilities'' then (return_empty, True, snaps)
        else if \<not> isCaps then (return_error ''capabilities not negotiated'', isCaps, snaps)
        else if cmd = ''stop'' \<or> cmd = ''cont'' then (return_empty, isCaps, snaps)
        else if cmd = ''query-status'' then (return_status, isCaps, snaps)
        else if cmd = ''human-monitor-command'' then
          (case monitor_command J order cmdLine snaps of (reply, snaps') \<Rightarrow> (reply, isCaps, snaps'))
        else (return_error ''unknown'', isCaps, snaps))"

function mock_loop ::
  "mock_json \<Rightarrow> (snapshots \<Rightarrow> snapshots) \<Rightarrow> reader \<Rightarrow> bool \<Rightarrow> snapshots \<Rightarrow> string list \<Rightarrow> string list \<times> snapshots"
where
  "mock_loop J order r isCaps snaps out =
     (case read_string r of
        (Inl e, _) \<Rightarrow> (out, snaps)
      | (Inr raw, r') \<Rightarrow>
          (let line = TrimSpace raw
           in if line = [] then mock_loop J order r' isCaps snaps out
              else (case mock_request J order line isCaps snaps of
                      (reply, isCaps', snaps') \<Rightarrow> mock_loop J order r' isCaps' snaps' (out @ [reply]))))"
  by auto
termination
  by (relation "measure (\<lambda>(J, order, r, _). length (rd_data r))") (auto dest: read_string_shrinks [OF sym])

declare mock_loop.simps [simp del]

definition mock_handleConn :: "mock_json \<Rightarrow> (snapshots \<Rightarrow> snapshots) \<Rightarrow> reader \<Rightarrow> snapshots \<Rightarrow> string list \<times> snapshots" where
  "mock_handleConn J order r snaps = mock_loop J order r False snaps [greeting]"

subsection \<open>The program\<close>

datatype mk_call =
    MkMkdirAll string nat
  | MkListen string
  | MkSock sock_call
  | MkServeQmp
  | MkServeVsock
  | MkWaitSignal
  | MkCloseServer
  | MkCloseVsockListener
  | MkCloseQmpListener

datatype mk_error = QmpListenFailed string string | VsockListenFailed string sock_error

text \<open>\<open>os.Exit\<close> does not run the deferred calls; the end of \<open>main\<close> does.\<close>

definition mock_main :: "mk_call world \<Rightarrow> string \<Rightarrow> string \<Rightarrow> (mk_call, mk_error) action" where
  "mock_main w qmpPath vsockPath = steps
     [attempt (MkMkdirAll (Dir qmpPath) 493),
      attempt (MkMkdirAll (Dir vsockPath) 493),
      must w (MkListen qmpPath) (QmpListenFailed qmpPath),
      map_err (VsockListenFailed vsockPath) (lift_act MkSock w (\<lambda>w. ListenUnix w vsockPath)),
      attempt MkServeQmp, attempt MkServeVsock, attempt MkWaitSignal, attempt MkCloseServer,
      attempt MkCloseVsockListener, attempt MkCloseQmpListener]"

subsection \<open>The table the client reads\<close>

definition tag_ok :: "string \<Rightarrow> bool" where
  "tag_ok t \<longleftrightarrow> t \<noteq> [] \<and> list_all (\<lambda>c. \<not> is_space c) t"

text \<open>What the client should read for the snapshot numbered \<open>i\<close>.\<close>

definition listed :: "nat \<Rightarrow> string \<Rightarrow> SnapshotInfo" where
  "listed i tag = \<lparr>sni_ID = show_nat i, sni_Tag = tag, sni_VMSize = ''32M'', sni_Date = ''2026-09-17 12:00:00'', sni_VMClock = ''00:00:10.000''\<rparr>"

lemma digits_no_space: "list_all is_digit s \<Longrightarrow> list_all (\<lambda>c. \<not> is_space c) s"
  by (auto simp: list_all_iff is_digit_def is_space_def)

lemma info_row_fields:
  assumes "tag_ok tag"
  shows "Fields (info_row i tag mock_date) = [show_nat i, tag, ''32M'', ''2026-09-17'', ''12:00:00'', ''00:00:10.000'']"
proof -
  let ?r0 = "''00:00:10.000''" and ?sp = "\<lambda>n s. replicate n CHR '' '' @ s"
  let ?r1 = "''12:00:00'' @ CHR '' '' # ?sp 2 ?r0"
  let ?r3 = "''32M'' @ CHR '' '' # ''2026-09-17'' @ CHR '' '' # ?r1"
  have row: "info_row i tag mock_date = show_nat i @ CHR '' '' # ?sp 8 (tag @ ?sp (18 - length tag) (CHR '' '' # ?r3))"
    by (simp add: info_row_def pad_right_def mock_date_def numeral_eq_Suc)
  have "Fields ?r0 = [?r0]" by (intro Fields_word) (simp_all add: is_space_def)
  then have "Fields ?r1 = [''12:00:00'', ?r0]"
    by (subst Fields_word(1)) (simp_all add: Fields_spaces is_space_def del: append_Cons append_Nil)
  then have r3: "Fields ?r3 = [''32M'', ''2026-09-17'', ''12:00:00'', ?r0]"
    by (subst Fields_word(1), simp, simp add: is_space_def, subst Fields_word(1)) (simp_all add: is_space_def del: append_Cons append_Nil)
  have tag: "Fields (tag @ ?sp n (CHR '' '' # ?r3)) = tag # Fields ?r3" for n
    using assms unfolding tag_ok_def by (intro Fields_gap) simp_all
  show ?thesis
    unfolding row by (subst Fields_word(1)) (simp_all add: digits_no_space Fields_spaces tag r3 del: append_Cons append_Nil)
qed

lemma info_row_trim:
  assumes "tag_ok tag"
  shows "TrimSpace (info_row i tag mock_date) = info_row i tag mock_date" and "info_row i tag mock_date \<noteq> []"
    and "\<not> table_header (info_row i tag mock_date)" and "CHR 0x0A \<notin> set (info_row i tag mock_date)"
proof -
  obtain c s where c: "show_nat i = c # s" by (cases "show_nat i") (simp_all add: show_nat_neq_Nil)
  then have d: "is_digit c" using show_nat_digits [of i] by simp
  show "TrimSpace (info_row i tag mock_date) = info_row i tag mock_date"
    using d by (intro TrimSpace_id) (simp add: info_row_def c, auto simp: is_digit_def is_space_def)
  show "info_row i tag mock_date \<noteq> []" by (simp add: info_row_def)
  show "\<not> table_header (info_row i tag mock_date)"
    using d by (auto simp: table_header_def info_row_def c HasPrefix_def is_digit_def)
  have "CHR 0x0A \<notin> set (show_nat i)" using show_nat_digits [of i] by (auto simp: list_all_iff is_digit_def)
  moreover have "CHR 0x0A \<notin> set tag" using assms by (auto simp: tag_ok_def list_all_iff is_space_def)
  ultimately show "CHR 0x0A \<notin> set (info_row i tag mock_date)" by (simp add: info_row_def pad_right_def mock_date_def)
qed

lemma Split_line: "CHR 0x0A \<notin> set l \<Longrightarrow> Split (l @ newline @ s) CHR 0x0A = l # Split s CHR 0x0A"
  by (simp add: newline_def Split_append_sep)

lemma rows_read:
  assumes "list_all tag_ok tags"
  shows "snapshot_lines True (Split (info_rows i (map (\<lambda>t. (t, mock_date)) tags)) CHR 0x0A) = map2 listed [i..<i + length tags] tags"
  using assms
proof (induction tags arbitrary: i)
  case Nil
  then show ?case by simp
next
  case (Cons t tags)
  note row = info_row_trim [of t i]
  have "Split (info_rows i (map (\<lambda>t. (t, mock_date)) (t # tags))) CHR 0x0A =
      info_row i t mock_date # Split (info_rows (i + 1) (map (\<lambda>t. (t, mock_date)) tags)) CHR 0x0A"
    using row(4) Cons.prems by (simp add: Split_line)
  moreover have "[i..<i + length (t # tags)] = i # [i + 1..<i + 1 + length tags]" by (simp add: upt_rec)
  ultimately show ?case
    using Cons row by (simp add: info_row_fields snapshot_row_def listed_def Let_def del: upt_Suc)
qed

lemma table_read:
  assumes "list_all tag_ok tags"
  shows "ParseSnapshotList (info_str (map (\<lambda>t. (t, mock_date)) tags)) = map2 listed [1..<Suc (length tags)] tags"
proof -
  let ?h = "''ID        TAG                 VM SIZE       DATE       VM CLOCK''" and ?rows = "info_rows 1 (map (\<lambda>t. (t, mock_date)) tags)"
  have "Split (info_str (map (\<lambda>t. (t, mock_date)) tags)) CHR 0x0A =
      ''Snapshot devices: drive0'' # ''Snapshot list (drives):'' # ?h # Split ?rows CHR 0x0A"
    unfolding info_str_def by (simp add: Split_line del: append_Cons append_Nil)
  moreover have "snapshot_lines False (''Snapshot devices: drive0'' # ''Snapshot list (drives):'' # ?h # ls) = snapshot_lines True ls" for ls
    by (simp add: table_header_def go_eval)
  ultimately show ?thesis using rows_read [OF assms, of 1] by (simp add: ParseSnapshotList_def)
qed

subsection \<open>What the monitor keeps\<close>

text \<open>The operations on snapshots as a monitor command line, and their effect on the set of tags.\<close>

datatype snap_op = SaveOp string | LoadOp string | DeleteOp string

fun op_tag :: "snap_op \<Rightarrow> string" where
  "op_tag (SaveOp t) = t"
| "op_tag (LoadOp t) = t"
| "op_tag (DeleteOp t) = t"

fun op_line :: "snap_op \<Rightarrow> string" where
  "op_line (SaveOp t) = ''savevm '' @ t"
| "op_line (LoadOp t) = ''loadvm '' @ t"
| "op_line (DeleteOp t) = ''delvm '' @ t"

fun tags_after :: "string set \<Rightarrow> snap_op \<Rightarrow> string set" where
  "tags_after T (SaveOp t) = insert t T"
| "tags_after T (LoadOp t) = T"
| "tags_after T (DeleteOp t) = T - {t}"

definition snaps_ok :: "snapshots \<Rightarrow> bool" where
  "snaps_ok snaps \<longleftrightarrow> distinct (map fst snaps) \<and> (\<forall>(t, d) \<in> set snaps. tag_ok t \<and> d = mock_date)"

lemma snaps_ok_tags: "snaps_ok snaps \<Longrightarrow> snaps = map (\<lambda>t. (t, mock_date)) (map fst snaps) \<and> list_all tag_ok (map fst snaps)"
  by (induction snaps) (auto simp: snaps_ok_def)

lemma set_alist_update: "set (AList.update k v xs) \<subseteq> insert (k, v) (set xs)"
  by (induction xs) auto

lemma monitor_command_op:
  assumes "snaps_ok snaps" and "tag_ok (op_tag op)"
  shows "snaps_ok (snd (monitor_command J order (op_line op) snaps))"
    and "fst ` set (snd (monitor_command J order (op_line op) snaps)) = tags_after (fst ` set snaps) op"
proof -
  have eq: "snd (monitor_command J order (op_line op) snaps) =
      (case op of SaveOp t \<Rightarrow> AList.update t mock_date snaps | LoadOp t \<Rightarrow> snaps | DeleteOp t \<Rightarrow> AList.delete t snaps)"
    by (cases op) (simp_all add: monitor_command_def HasPrefix_def TrimPrefix_def)
  show "snaps_ok (snd (monitor_command J order (op_line op) snaps))"
    using assms set_alist_update [of "op_tag op" mock_date snaps] unfolding eq
    by (cases op) (auto simp: snaps_ok_def distinct_update AList.delete_eq distinct_map_filter)
  show "fst ` set (snd (monitor_command J order (op_line op) snaps)) = tags_after (fst ` set snaps) op"
    unfolding eq by (cases op) (auto simp: dom_update AList.delete_eq)
qed

text \<open>Request lines of a client that has negotiated, one per operation.\<close>

definition asks :: "mock_json \<Rightarrow> string \<Rightarrow> snap_op \<Rightarrow> bool" where
  "asks J l op \<longleftrightarrow> CHR 0x0A \<notin> set l \<and> TrimSpace l \<noteq> [] \<and> mj_request J (TrimSpace l) = (''human-monitor-command'', op_line op) \<and> tag_ok (op_tag op)"

lemma mock_loop_line:
  assumes "CHR 0x0A \<notin> set l" and "TrimSpace l \<noteq> []" and "mock_request J order (TrimSpace l) caps snaps = (reply, caps', snaps')"
  shows "mock_loop J order \<lparr>rd_data = wire (l # ls), rd_end = e\<rparr> caps snaps out =
    mock_loop J order \<lparr>rd_data = wire ls, rd_end = e\<rparr> caps' snaps' (out @ [reply])"
  using assms read_string_line [of "\<lparr>rd_data = wire (l # ls), rd_end = e\<rparr>" l "wire ls"]
  by (subst mock_loop.simps) (simp add: TrimSpace_newline)

lemma mock_loop_ops:
  assumes "list_all2 (asks J) ls ops" and "snaps_ok snaps"
  shows "\<exists>replies snaps'. mock_loop J order \<lparr>rd_data = wire ls, rd_end = AtEOF\<rparr> True snaps out = (out @ replies, snaps') \<and>
    length replies = length ls \<and> snaps_ok snaps' \<and> fst ` set snaps' = foldl tags_after (fst ` set snaps) ops"
  using assms
proof (induction ls ops arbitrary: snaps out rule: list_all2_induct)
  case Nil
  then show ?case by (subst mock_loop.simps) (simp add: read_string_def)
next
  case (Cons l ls op ops)
  obtain reply snaps1 where cmd: "monitor_command J order (op_line op) snaps = (reply, snaps1)" by force
  have op: "snaps_ok snaps1" "fst ` set snaps1 = tags_after (fst ` set snaps) op"
    using monitor_command_op [of snaps op J order] Cons.hyps(1) Cons.prems cmd by (simp_all add: asks_def)
  have "mock_request J order (TrimSpace l) True snaps = (reply, True, snaps1)"
    using Cons.hyps(1) cmd by (simp add: mock_request_def asks_def)
  with Cons.hyps(1) have step: "mock_loop J order \<lparr>rd_data = wire (l # ls), rd_end = AtEOF\<rparr> True snaps out =
      mock_loop J order \<lparr>rd_data = wire ls, rd_end = AtEOF\<rparr> True snaps1 (out @ [reply])"
    by (intro mock_loop_line) (simp_all add: asks_def)
  from Cons.IH [OF op(1), of "out @ [reply]"] op(2) show ?case unfolding step by force
qed

text \<open>The client reads back the texts that the monitor returns.\<close>

definition json_agree :: "mock_json \<Rightarrow> 'v qmp_json \<Rightarrow> bool" where
  "json_agree J Q \<longleftrightarrow> (\<forall>s. is_answer Q (mj_return J s) \<and> (\<exists>v. reply_value Q (mj_return J s) = Inr (Some v) \<and> qj_text Q v = Some s))"

lemma info_answer_read:
  assumes "json_agree J Q" and "\<not> cl_closed c" and "w (cl_sent c) (q @ [CHR 0x0A]) = None"
    and "qj_encode Q ''human-monitor-command'' [(''command-line'', ''info snapshots'')] = Inr q"
    and "rd_data (cl_in c) = mj_return J s @ newline @ rest"
  shows "\<exists>c'. ListSnapshots Q w c = (Inr (ParseSnapshotList s), c') \<and> rd_data (cl_in c') = rest"
proof -
  obtain v where v: "is_answer Q (mj_return J s)" "reply_value Q (mj_return J s) = Inr (Some v)" "qj_text Q v = Some s"
    using assms(1) unfolding json_agree_def by blast
  have "await_response Q (cl_in c) = (Inr (Some v), (cl_in c)\<lparr>rd_data := rest\<rparr>)"
    using await_line(2) [OF _ _ v(1), of "cl_in c" rest] v(1,2) assms(5) by (simp add: newline_def is_answer_def)
  with assms(2-4) v(3) show ?thesis by (simp add: ListSnapshots_def HumanMonitorCommand_def Execute_def)
qed

lemma listed_columns:
  assumes "length ns = length tags"
  shows "map sni_Tag (map2 listed ns tags) = tags" and "map sni_ID (map2 listed ns tags) = map show_nat ns"
    and "length (map2 listed ns tags) = length tags"
  using assms by (induction ns tags rule: list_induct2) (simp_all add: listed_def)


text \<open>A JSON stand-in that protects newlines by writing every character as two.\<close>

fun unpair :: "string \<Rightarrow> string" where
  "unpair (a # b # s) = (if a = CHR ''n'' then CHR 0x0A else b) # unpair s"
| "unpair s = []"

definition toy_mock :: mock_json where
  "toy_mock =
     \<lparr>mj_request = \<lambda>l. if l = ''hello'' then (''qmp_capabilities'', []) else (''human-monitor-command'', l),
      mj_return = \<lambda>s. json_string ''return'' @ '':'' @ concat (map (\<lambda>c. if c = CHR 0x0A then ''nn'' else [CHR ''c'', c]) s) @ ''.''\<rparr>"

definition toy_client :: "string qmp_json" where
  "toy_client =
     \<lparr>qj_greeting = \<lambda>_. None, qj_encode = \<lambda>_ args. Inr (snd (hd args)),
      qj_decode = \<lambda>l. Inr \<lparr>qr_Return = Some (unpair (drop 9 l)), qr_Error = None, qr_Event = []\<rparr>,
      qj_text = \<lambda>v. Some v, qj_show = \<lambda>_. [], qj_status = \<lambda>_. Inl []\<rparr>"

lemma toy_agree: "json_agree toy_mock toy_client"
proof -
  have pairs: "unpair (concat (map (\<lambda>c. if c = CHR 0x0A then ''nn'' else [CHR ''c'', c]) s) @ ''.'') = s"
    "CHR 0x0A \<notin> set (concat (map (\<lambda>c. if c = CHR 0x0A then ''nn'' else [CHR ''c'', c]) s))" for s
    by (induction s) auto
  have trim: "TrimSpace (mj_return toy_mock s) = mj_return toy_mock s" for s
    by (rule TrimSpace_id) (simp add: toy_mock_def json_string_def is_space_def)
  have "\<not> event_text (mj_return toy_mock s)" for s
    by (simp add: event_text_def toy_mock_def json_string_def HasPrefix_def)
  moreover have "mj_return toy_mock s \<noteq> []" "CHR 0x0A \<notin> set (mj_return toy_mock s)" for s
    using pairs(2) [of s] by (simp_all add: toy_mock_def json_string_def)
  moreover have "unpair (drop 9 (mj_return toy_mock s)) = s" for s
    using pairs(1) [of s] by (simp add: toy_mock_def json_string_def)
  ultimately show ?thesis
    by (simp add: json_agree_def is_answer_def passed_over_def reply_value_def trim) (simp add: toy_client_def event_only_def)
qed


end
