(* ===== verification/Spec2Isabelle.thy ===== *)
theory Spec2Isabelle
  imports CliTools Daemons SvcLaunch MockQmp
begin

text \<open>
  A verification development of the Go code of Karim, a from-scratch Linux user space for micro virtual
  machines. The theories model the guest daemons, the security launcher, the image builder and the host
  command line tool, and prove what makes each of them correct and what they achieve together.

  \<^bold>\<open>The program\<close>. On the host, \<open>cmd/karim\<close> builds images (\<open>internal/builder\<close>, \<open>internal/pkgd\<close>), takes snapshots of a
  running machine (\<open>internal/snapshot\<close> over \<open>internal/qmp\<close>) and sends requests to the guest over framed JSON on a
  socket (\<open>internal/vsockd\<close>). In the guest, \<open>cmd/karim-svcd\<close> mounts the root overlay (\<open>internal/stored\<close>), configures
  the network (\<open>internal/netd\<close>), reads service files, orders them by dependency, supervises them
  (\<open>internal/svcd\<close>) and answers the control connections; each service is started through \<open>cmd/karim-secd\<close>, which
  enforces a security policy (\<open>internal/secd\<close>) and then executes the service. \<open>cmd/karim-obsd\<close> (\<open>internal/obsd\<close>)
  offers telemetry that the control server relays, and \<open>internal/system\<close> freezes, thaws and repairs the guest
  around snapshots.

  \<^bold>\<open>How code is modelled\<close>. Strings and byte slices are lists of \<^typ>\<open>char\<close>; fixed-width unsigned integers are words,
  \<open>int\<close> is \<^typ>\<open>int\<close> with \<open>wrap_int64\<close> where an operation can overflow. A function that returns an error returns
  \<open>('e, 'a) result\<close> with one constructor per error; a run-time panic is an error value of its own. Code that acts
  on the system is an \<open>action\<close> (theory \<open>GoEffects\<close>): it appends its calls to a trace and is answered by a
  \<open>world\<close>, a parameter that may answer each call as it likes, given the calls so far. So a statement about the
  trace holds for every behaviour of the kernel, the file system or a peer. Definitions carry the names of
  the source; those of a package that clash carry its name as a suffix or prefix.

  \<^bold>\<open>Parameters\<close>. Packages that are not part of the repository are parameters: the constants of
  \<open>golang.org/x/sys/unix\<close> (\<open>unix_consts\<close>, \<open>nl_consts\<close>), the eBPF bindings, and also JSON, SHA-256, gzip, tar and
  floating point. What a theorem needs of them is a hypothesis, such as that a message decodes to what was
  encoded; its witness instantiates them with concrete functions. Packages \<open>strings\<close>, \<open>strconv\<close>, \<open>path/filepath\<close>,
  \<open>flag\<close>, \<open>encoding/binary\<close>, \<open>bufio\<close> and the address reading of \<open>net\<close> are modelled, by what they document.

  \<^bold>\<open>Theories\<close>.

  \<^item> \<open>Prelude\<close>, \<open>GoStrings\<close>, \<open>GoPath\<close>, \<open>GoEffects\<close>, \<open>GoBytes\<close>, \<open>GoFlag\<close>, \<open>GoTar\<close>, \<open>GoNet\<close>: shared vocabulary and the
    standard library; the simp collection \<open>go_eval\<close> evaluates string functions on literals. The locale \<open>fixed_codec\<close>
    states that an encoding of fixed width reads back, and is interpreted for the integers of frames,
    netlink messages and archive headers.
  \<^item> \<open>SvcConfig\<close> (\<open>svcd/config.go\<close>): the service specification and its reader. Payloads and files are read
    alike, hardening is on unless a payload turns it off.
  \<^item> \<open>SvcGraph\<close> (\<open>svcd/graph.go\<close>): the start-up order. The loop over the queue is \<open>while_option\<close>; it always ends, an
    order it returns puts every service after its dependencies, and it finds one exactly when there is no cycle.
  \<^item> \<open>Seccomp\<close>, \<open>Capabilities\<close>, \<open>SecPolicy\<close> (\<open>secd/*.go\<close>, \<open>cmd/karim-secd\<close>): filters are compiled programs run by a model
    of classic BPF; they decide as their list says (locale \<open>table_filter\<close>, interpreted for both compilers),
    capability sets are exactly those named, and the launcher executes nothing before the policy is in force.
  \<^item> \<open>SvcCgroup\<close>, \<open>SvcSupervisor\<close>, \<open>SvcLaunch\<close>, \<open>SvcBundle\<close> (\<open>svcd/cgroup.go\<close>, \<open>supervisor.go\<close>, \<open>bundle.go\<close>,
    \<open>pkgd/oci_spec.go\<close>): one managed service, the transition system \<open>sys_step\<close> in which requests, exits and monitors interleave,
    with the restart budget as its invariant; the launcher reads from its command line the policy of the specification.
  \<^item> \<open>Stored\<close> (\<open>stored/stored.go\<close>): overlays and the linking of the lower directory, which only adds.
  \<^item> \<open>VsockFrame\<close>, \<open>VsockTransport\<close>, \<open>VsockServer\<close> (\<open>vsockd/*.go\<close>): frames read back (locale \<open>framing\<close>); the connection
    loop implements a sequential procedure call for any provider. The locale \<open>service_provider\<close> states what a
    provider keeps, \<open>registry_provider\<close> extends it with a registry of names.
  \<^item> \<open>SvcBridge\<close>, \<open>Daemons\<close> (\<open>cmd/karim-svcd\<close>, \<open>cmd/karim-vsockd\<close>): the two providers, both interpreting \<open>registry_provider\<close>,
    so that no bytes on a connection break their registry; boot, reaping, shutdown and the two \<open>main\<close> functions.
  \<^item> \<open>PkgExtract\<close>, \<open>PkgMerge\<close> (\<open>pkgd/extract.go\<close>, \<open>oci.go\<close>, \<open>layer.go\<close>, \<open>merger.go\<close>): extraction and merging of image layers stay
    below their root, and the layer file reads back.
  \<^item> \<open>Cpio\<close>, \<open>Manifest\<close>, \<open>Builder\<close> (\<open>builder/*.go\<close>): the archive reads back as the tree in a fixed order, manifests agree
    exactly when hashes do, and a build stays in its own directories and cleans up.
  \<^item> \<open>Qmp\<close>, \<open>Snapshot\<close> (\<open>qmp/client.go\<close>, \<open>snapshot/orchestrator.go\<close>): the monitor protocol and the order of a snapshot.
    \<open>MockQmp\<close> (\<open>testing/mock_qmp_server.go\<close>) is the monitor of the tests; the client lists exactly what it keeps.
  \<^item> \<open>Netd\<close> (\<open>netd/netd.go\<close>): netlink requests read back as the messages they mean; the wait for an
    acknowledgement ends with the right one.
  \<^item> \<open>SystemStatus\<close> (\<open>system/system.go\<close>), \<open>Obsd\<close> (\<open>obsd/obsd.go\<close>, \<open>cmd/karim-obsd\<close>): the clock after a restore, histograms, their
    export and the event stream, through the control server.
  \<^item> \<open>Cli\<close>, \<open>CliTools\<close> (\<open>cmd/karim\<close>): every command, with the components it drives.
  \<^item> This theory: \<open>karim run\<close> from the flags on the host to the running service in the guest.

  \<^bold>\<open>Termination and bounds\<close>. No definition uses fuel. Loops over data are structural or measured by what is left
  to read (frames, lines, netlink messages and attributes, archive entries, BPF programs, whose jumps go
  forward). The queue loop of \<open>SvcGraph\<close> may in principle run on and is \<open>while_option\<close>; that it ends is proved. The
  acknowledgement loop of \<open>Netd\<close> ends at its deadline: its input is the list of what arrives before it. The list of
  signals and of simulated ticks is an argument where the code waits for them. The trace command shows eight
  events at most, as the code does; an IPv6 address has at most eight groups.

  \<^bold>\<open>Not modelled\<close>. The generated bindings \<open>ebpf/*.go\<close> and the C programs of \<open>init/\<close>; banners, log lines and table layout; durations and time stamps that are only shown.
  Goroutines are modelled where they share state (\<open>sys_step\<close>, the server's registry of listeners); elsewhere a connection is
  served alone. A deferred close of a connection of package \<open>net\<close> is left out where it is the last effect of the
  function and its error is dropped.
\<close>

section \<open>Properties that span components\<close>

subsection \<open>From the command line to a running service\<close>

text \<open>The frame a client writes is all that reaches the server, whatever the client reads afterwards.\<close>

lemma runRun_writes:
  assumes "parse_flags run_kinds run_set (\<lambda>_ _ f. f) args run_defaults = Inr (f, rest)" and "run_ok f"
    and "fst (Dial (pr_sock p) (pr_fd p) target []) = None" and "pr_write p = all_ok"
    and "cj_encode_req js (cli_request ''run-1'' ''run_service'' (rf_name f) (run_toml f)) = Inr b" and "small b"
  shows "concat (snd (runRun js p target args)) = frame_bytes b"
    and "ReadFrame (pr_read p) = (Inr q, rest') \<Longrightarrow> cj_decode_resp js q = Inr resp \<Longrightarrow>
      fst (runRun js p target args) = (if resp_Success resp then Showed (ShowText (resp_Data resp)) else Exited 1 (Some (ServerError (resp_Error resp))))"
proof -
  have f: "rf_name f \<noteq> []" "rf_exec f \<noteq> []" using assms(2) by (simp_all add: run_ok_def)
  obtain out where out: "WriteFrame all_ok b [] = (None, out)" "concat out = frame_bytes b"
    using write_frame_all_ok [OF assms(6), of "[]"] by auto
  show "concat (snd (runRun js p target args)) = frame_bytes b"
    using assms(1,3,4,5) f out by (auto simp: runRun_def on_success_def rpc_def split: prod.splits sum.splits)
  show "ReadFrame (pr_read p) = (Inr q, rest') \<Longrightarrow> cj_decode_resp js q = Inr resp \<Longrightarrow>
      fst (runRun js p target args) = (if resp_Success resp then Showed (ShowText (resp_Data resp)) else Exited 1 (Some (ServerError (resp_Error resp))))"
    using assms(1,3,4,5) f out by (simp add: runRun_def on_success_def rpc_def)
qed

text \<open>
  C1: a service asked for on the command line runs in the guest as asked. Let the flags of \<open>karim run\<close> be
  printable texts without quotes and backslashes, the connection carry what is written, and the encoding
  of the request and of the answer read back. If the supervisor can start the program, then after it
  has served the connection the service is registered under its name with exactly the program,
  restart policy, security profile and memory limit of the flags, it is running, no other service has
  changed, and the command reports success.
\<close>

theorem karim_run_end_to_end:
  assumes "parse_flags run_kinds run_set (\<lambda>_ _ f. f) args run_defaults = Inr (f, rest)" and "run_ok f"
    and "rf_memory f = [] \<and> mem = 0 \<or> rf_memory f \<noteq> [] \<and> parseMemoryLimit (rf_memory f) = Inr mem"
    and "fst (Dial (pr_sock p) (pr_fd p) target []) = None" and "pr_write p = all_ok"
    and "req = cli_request ''run-1'' ''run_service'' (rf_name f) (run_toml f)"
    and "cj_encode_req js req = Inr b" and "js_decode_req sj b = Inr req" and "small b"
    and "resp = ok_response req (TextData (''service '' @ rf_name f @ '' started dynamically''))"
    and "cj_decode_resp js (encode_response sj req resp) = Inr resp" and "small (encode_response sj req resp)"
    and "replace_and_start env (NewManagedService (run_spec f mem) (new_cgm env)) st = (None, st1)"
  shows "\<exists>st' out ms.
    handleConnection sj h (Some (supervisorBridge env)) od all_ok
      \<lparr>rd_data = concat (snd (runRun js p target args)), rd_end = AtEOF\<rparr> st [] = (ConnClosed, st', out) \<and>
    br_services st' (rf_name f) = Some ms \<and> ms_Spec ms = run_spec f mem \<and> ms_State ms = StateRunning \<and>
    (\<forall>n. n \<noteq> rf_name f \<longrightarrow> br_services st' n = br_services st n) \<and>
    fst (runRun js (p\<lparr>pr_read := \<lparr>rd_data = concat out, rd_end = AtEOF\<rparr>\<rparr>) target args) = Showed (ShowText (resp_Data resp))"
proof -
  let ?toml = "run_toml f" and ?spec = "run_spec f mem"
  have name: "spec_Name ?spec = rf_name f" by (simp add: run_spec_def)
  have parse: "ParseServiceSpecFromBytes (be_pf env) ?toml = Inr ?spec"
    using run_toml_parses [OF assms(2,3)] .
  then obtain st' where load: "sb_LoadService env ?toml st = (None, st')"
    using assms(13) by (auto simp: sb_LoadService_def)
  obtain ms where ms: "br_services st' (rf_name f) = Some ms" "ms_Spec ms = ?spec" "ms_State ms = StateRunning"
      "\<forall>n. n \<noteq> rf_name f \<longrightarrow> br_services st' n = br_services st n"
    using hot_load_parsed [OF load] parse name by auto
  have toml: "?toml \<noteq> []" by (simp add: run_toml_def)
  have dispatch: "dispatchCommand h (Some (supervisorBridge env)) req st = (Some resp, st')"
    using load toml by (simp add: dispatchCommand_def assms(6,10) cli_request_def is_trace_command_def supervisorBridge_def answer_def Let_def)
  have wire: "concat (snd (runRun js p target args)) = frame_bytes b"
    using runRun_writes(1) [OF assms(1,2,4,5) _ assms(9)] assms(6,7) by simp
  obtain out where out: "handleConnection sj h (Some (supervisorBridge env)) od all_ok \<lparr>rd_data = frame_bytes b, rd_end = AtEOF\<rparr> st [] = (ConnClosed, st', out)"
    "concat out = frame_bytes (encode_response sj req resp)"
  proof -
    have hf: "handle_frame sj h (Some (supervisorBridge env)) od all_ok b st [] = (None, st', snd (WriteFrame all_ok (encode_response sj req resp) []))"
      using handle_frame_request [OF assms(8) _ dispatch] by (simp add: assms(6) cli_request_def is_trace_command_def)
    obtain o1 where o1: "WriteFrame all_ok (encode_response sj req resp) [] = (None, o1)"
        "concat o1 = frame_bytes (encode_response sj req resp)"
      using write_frame_all_ok [OF assms(12), of "[]"] by auto
    have "handleConnection sj h (Some (supervisorBridge env)) od all_ok \<lparr>rd_data = frame_bytes b, rd_end = AtEOF\<rparr> st [] = (ConnClosed, st', o1)"
      by (subst handleConnection.simps) (simp add: read_request [OF assms(9)] hf o1 handleConnection_eof)
    from that [OF this o1(2)] show thesis .
  qed
  have "fst (runRun js (p\<lparr>pr_read := \<lparr>rd_data = concat out, rd_end = AtEOF\<rparr>\<rparr>) target args) = Showed (ShowText (resp_Data resp))"
    using runRun_writes(2) [of args f rest "p\<lparr>pr_read := \<lparr>rd_data = concat out, rd_end = AtEOF\<rparr>\<rparr>" target js b]
      assms(1,2,4,5,6,7,9,11) read_request [OF assms(12)] out(2) by (simp add: assms(10) ok_response_def)
  with out(1) ms wire show ?thesis by auto
qed

definition web_args :: "string list" where
  "web_args = [''--name'', ''web'', ''--exec'', ''/bin/httpd'']"

definition web_flags :: run_flags where
  "web_flags = run_defaults\<lparr>rf_name := ''web'', rf_exec := ''/bin/httpd''\<rparr>"

definition web_request :: RPCRequest where
  "web_request = cli_request ''run-1'' ''run_service'' ''web'' (run_toml web_flags)"

definition web_response :: "string RPCResponse" where
  "web_response = ok_response web_request (TextData (''service '' @ ''web'' @ '' started dynamically''))"

definition web_cli :: "string cli_json" where
  "web_cli = \<lparr>cj_encode_req = \<lambda>_. Inr ''r'', cj_decode_resp = \<lambda>_. Inr web_response\<rparr>"

definition web_json :: "string json_ops" where
  "web_json = \<lparr>js_decode_req = \<lambda>_. Inr web_request, js_encode_resp = \<lambda>_. Inr ''ok'', js_encode_req = \<lambda>_. []\<rparr>"

definition web_peer :: peer where
  "web_peer = \<lparr>pr_sock = all_ok, pr_fd = 3, pr_write = all_ok, pr_read = \<lparr>rd_data = [], rd_end = AtEOF\<rparr>\<rparr>"

theorem karim_run_end_to_end_witness:
  "\<exists>st' out ms.
    handleConnection web_json toy_host (Some (supervisorBridge idle_env)) toy_peer all_ok
      \<lparr>rd_data = concat (snd (runRun web_cli web_peer ''vsock://3:1024'' web_args)), rd_end = AtEOF\<rparr> empty_bridge [] = (ConnClosed, st', out) \<and>
    br_services st' ''web'' = Some ms \<and> ms_Spec ms = run_spec web_flags 0 \<and> ms_State ms = StateRunning"
proof -
  have names: "rf_name web_flags = ''web''" "rf_memory web_flags = []" by (simp_all add: web_flags_def run_defaults_def)
  have flags: "parse_flags run_kinds run_set (\<lambda>_ _ f. f) web_args run_defaults = Inr (web_flags, [])"
    by (simp add: web_args_def web_flags_def run_kinds_def run_set_def go_eval)
  have wf: "run_ok web_flags" by (simp add: web_flags_def run_defaults_def run_ok_def quotable_def)
  have dial: "fst (Dial (pr_sock web_peer) (pr_fd web_peer) ''vsock://3:1024'' []) = None"
    by (simp add: web_peer_def Dial_def DialVSock_def must_or_close_def with_deferred_def go_eval)
  have starts: "\<exists>b. replace_and_start idle_env (NewManagedService (run_spec web_flags 0) (new_cgm idle_env)) empty_bridge = (None, b)"
    by (simp add: replace_and_start_def stop_named_def empty_bridge_def start_named_def Start_def NewManagedService_def
      idle_env_def example_env_def resolve_exec_def run_spec_def web_flags_def run_defaults_def default_spec_def Let_def)
  then obtain b where b: "replace_and_start idle_env (NewManagedService (run_spec web_flags 0) (new_cgm idle_env)) empty_bridge = (None, b)" ..
  have req: "web_request = cli_request ''run-1'' ''run_service'' (rf_name web_flags) (run_toml web_flags)"
    by (simp add: web_request_def names)
  have resp: "web_response = ok_response web_request (TextData (''service '' @ rf_name web_flags @ '' started dynamically''))"
    by (simp add: web_response_def names)
  have js: "cj_encode_req web_cli web_request = Inr ''r''" "js_decode_req web_json ''r'' = Inr web_request" "small ''r''"
    "cj_decode_resp web_cli (encode_response web_json web_request web_response) = Inr web_response"
    "small (encode_response web_json web_request web_response)"
    by (simp_all add: web_cli_def web_json_def encode_response_def small_def MaxFrameSize_def)
  have w: "pr_write web_peer = all_ok" by (simp add: web_peer_def)
  from karim_run_end_to_end [OF flags wf _ dial w req js(1-3) resp js(4,5) b, of toy_host toy_peer] names
  show ?thesis by auto
qed

end
